(* ===== verification/Prelude.thy ===== *)
theory Prelude
  imports Main "HOL-Library.Word"
begin

text \<open>
  Shared vocabulary of the development.

  Go strings and byte slices are sequences of bytes, so both are \<open>string\<close> (a list of
  8-bit \<open>char\<close>s). \<open>int64\<close> values keep their width (\<open>64 word\<close>, read with
  \<open>sint\<close>). Go errors are values of \<open>go_error\<close>: sentinel errors, opaque errors of
  libraries, errors built by \<open>errors.New\<close> and \<open>fmt.Errorf\<close> (with the format
  string, its string arguments and the error wrapped by the verb w, if any) and gRPC
  status errors. \<open>errors_Is\<close> walks the wrap chain as \<open>errors.Is\<close> does.
  The collections \<open>frame\<close> and \<open>go_eval\<close> carry the frame lemmas of the components and
  the equations used to evaluate closed terms.
\<close>

named_theorems frame "which parts of the world an operation leaves alone"
named_theorems go_eval "definitions unfolded when a closed term is evaluated"

type_synonym bytes = string
type_synonym int64 = "64 word"
type_synonym rune = nat
type_synonym duration = int \<comment> \<open>nanoseconds\<close>
type_synonym instant = int \<comment> \<open>nanoseconds since the Unix epoch\<close>


section \<open>Errors\<close>

datatype grpc_code = OK | Canceled | Unknown | DeadlineExceeded | Unimplemented | OtherCode nat

datatype go_error =
    ErrNoGateway                 \<comment> \<open>relay.ErrNoGateway\<close>
  | EOF                          \<comment> \<open>io.EOF\<close>
  | CtxCanceled                  \<comment> \<open>context.Canceled\<close>
  | CtxDeadlineExceeded          \<comment> \<open>context.DeadlineExceeded\<close>
  | RedisNil                     \<comment> \<open>redis.Nil\<close>
  | ErrServerClosed              \<comment> \<open>http.ErrServerClosed\<close>
  | ErrServerStopped             \<comment> \<open>grpc.ErrServerStopped\<close>
  | LibraryError string          \<comment> \<open>any other error a library returns\<close>
  | ErrorsNew string             \<comment> \<open>errors.New\<close>
  | Errorf string "string list" "go_error option" \<comment> \<open>fmt.Errorf: format, arguments, wrapped error\<close>
  | StatusError grpc_code string "string list"    \<comment> \<open>status.Error, status.Errorf\<close>

type_synonym 'a result = "go_error + 'a"

text \<open>\<open>errors.Is\<close>: the error itself or anything it wraps.\<close>

fun errors_Is :: "go_error \<Rightarrow> go_error \<Rightarrow> bool" where
  "errors_Is (Errorf f as (Some e)) t = (Errorf f as (Some e) = t \<or> errors_Is e t)"
| "errors_Is e t = (e = t)"

text \<open>
  \<open>status.Code\<close>: the code of the gRPC status found in the wrap chain, \<open>Unknown\<close> for any
  other error.
\<close>

fun status_Code :: "go_error \<Rightarrow> grpc_code" where
  "status_Code (StatusError c f as) = c"
| "status_Code (Errorf f as (Some e)) = status_Code e"
| "status_Code e = Unknown"

lemma errors_Is_refl [simp]: "errors_Is e e"
  by (cases "(e, e)" rule: errors_Is.cases) auto


section \<open>Integers\<close>

text \<open>\<open>int64(len(x))\<close>\<close>

definition len64 :: "bytes \<Rightarrow> int64" where
  "len64 s = word_of_nat (length s)"

text \<open>Go's integer division truncates towards zero.\<close>

definition go_div :: "int \<Rightarrow> int \<Rightarrow> int" where
  "go_div a b = sgn a * sgn b * (\<bar>a\<bar> div \<bar>b\<bar>)"

lemma go_div_nonneg: "0 \<le> a \<Longrightarrow> 0 < b \<Longrightarrow> go_div a b = a div b"
  by (cases "a = 0") (auto simp: go_div_def)

lemma sint_len64: "int (length s) < 2 ^ 63 \<Longrightarrow> sint (len64 s) = int (length s)"
  by (simp add: len64_def signed_of_nat signed_take_bit_int_eq_self)

lemma sint_add64:
  assumes "- (2 ^ 63) \<le> sint (a :: int64) + sint b" and "sint a + sint b < 2 ^ 63"
  shows "sint (a + b) = sint a + sint b"
  using assms by (simp add: sint_word_add signed_take_bit_int_eq_self)

lemma len64_append: "len64 (s @ t) = len64 s + len64 t"
  by (simp add: len64_def)

lemma len64_Nil [simp]: "len64 [] = 0"
  by (simp add: len64_def)


section \<open>Results\<close>

fun is_err :: "'a result \<Rightarrow> bool" where
  "is_err (Inl e) = True"
| "is_err (Inr v) = False"

lemma is_err_iff: "is_err r \<longleftrightarrow> (\<exists>e. r = Inl e)"
  by (cases r) auto

end
