(* ===== verification/Go_Strings.thy ===== *)
theory Go_Strings
  imports Prelude "HOL-Library.Sublist"
begin

text \<open>
  The functions of Go's \<open>strings\<close>, \<open>unicode/utf8\<close> and \<open>fmt\<close> packages the program
  calls, on byte strings. UTF-8 decoding follows \<open>utf8.DecodeRune\<close> (an invalid byte is
  U+FFFD of width 1). The Unicode case table beyond ASCII is the parameter \<open>lc\<close> of
  \<open>ToLower\<close>; white space is complete, as the set of UTF-8 encodings of the runes for
  which \<open>unicode.IsSpace\<close> holds.
\<close>

abbreviation byte :: "char \<Rightarrow> nat" where
  "byte c \<equiv> of_char c"

definition is_ascii :: "bytes \<Rightarrow> bool" where
  "is_ascii s \<longleftrightarrow> list_all (\<lambda>c. byte c < 128) s"


section \<open>UTF-8\<close>

definition RuneError :: rune where
  "RuneError = 65533"

definition cont_byte :: "nat \<Rightarrow> bool" where
  "cont_byte b \<longleftrightarrow> 128 \<le> b \<and> b < 192"

text \<open>The range allowed for the second byte after the given first byte of a longer sequence.\<close>

definition second_ok :: "nat \<Rightarrow> nat \<Rightarrow> bool" where
  "second_ok a b \<longleftrightarrow>
     (if a = 224 then 160 \<le> b \<and> b < 192
      else if a = 237 then 128 \<le> b \<and> b < 160
      else if a = 240 then 144 \<le> b \<and> b < 192
      else if a = 244 then 128 \<le> b \<and> b < 144
      else cont_byte b)"

text \<open>\<open>utf8.DecodeRune\<close> on a non-empty byte sequence: the rune and what follows it.\<close>

fun decode_rune :: "nat \<Rightarrow> nat list \<Rightarrow> rune \<times> nat list" where
  "decode_rune a bs =
     (if a < 128 then (a, bs)
      else if 194 \<le> a \<and> a < 224 then
        (case bs of b # r \<Rightarrow> if cont_byte b then ((a - 192) * 64 + (b - 128), r) else (RuneError, bs)
         | [] \<Rightarrow> (RuneError, bs))
      else if 224 \<le> a \<and> a < 240 then
        (case bs of b # c # r \<Rightarrow>
            if second_ok a b \<and> cont_byte c
            then ((a - 224) * 4096 + (b - 128) * 64 + (c - 128), r) else (RuneError, bs)
         | _ \<Rightarrow> (RuneError, bs))
      else if 240 \<le> a \<and> a < 245 then
        (case bs of b # c # d # r \<Rightarrow>
            if second_ok a b \<and> cont_byte c \<and> cont_byte d
            then ((a - 240) * 262144 + (b - 128) * 4096 + (c - 128) * 64 + (d - 128), r)
            else (RuneError, bs)
         | _ \<Rightarrow> (RuneError, bs))
      else (RuneError, bs))"

declare decode_rune.simps [simp del]

lemma decode_rune_shrinks: "decode_rune a bs = (r, rest) \<Longrightarrow> length rest \<le> length bs"
  by (auto simp: decode_rune.simps split: if_splits list.splits)

lemma decode_rune_ascii: "a < 128 \<Longrightarrow> decode_rune a bs = (a, bs)"
  by (simp add: decode_rune.simps)

text \<open>The runes a \<open>for range\<close> over a string visits.\<close>

function runes :: "nat list \<Rightarrow> rune list" where
  "runes [] = []"
| "runes (a # bs) = (case decode_rune a bs of (r, rest) \<Rightarrow> r # runes rest)"
  by pat_completeness auto
termination
  by (relation "measure length") (auto dest!: decode_rune_shrinks [OF sym])

text \<open>\<open>utf8.AppendRune\<close>: surrogates and values beyond U+10FFFF become U+FFFD.\<close>

definition encode_rune :: "rune \<Rightarrow> nat list" where
  "encode_rune r =
     (if r < 128 then [r]
      else if r < 2048 then [192 + r div 64, 128 + r mod 64]
      else if 1114111 < r \<or> 55296 \<le> r \<and> r < 57344 then [239, 191, 189]
      else if r < 65536 then [224 + r div 4096, 128 + r div 64 mod 64, 128 + r mod 64]
      else [240 + r div 262144, 128 + r div 4096 mod 64, 128 + r div 64 mod 64, 128 + r mod 64])"


section \<open>strings.ToLower\<close>

definition lower_byte :: "char \<Rightarrow> char" where
  "lower_byte c = (if 65 \<le> byte c \<and> byte c \<le> 90 then char_of (byte c + 32) else c)"

text \<open>\<open>unicode.ToLower\<close>, over the case table \<open>lc\<close> for the runes beyond ASCII.\<close>

definition rune_lower :: "(rune \<Rightarrow> rune) \<Rightarrow> rune \<Rightarrow> rune" where
  "rune_lower lc r = (if r < 128 then (if 65 \<le> r \<and> r \<le> 90 then r + 32 else r) else lc r)"

text \<open>ASCII strings byte by byte; any other string is decoded, mapped and encoded again.\<close>

definition ToLower :: "(rune \<Rightarrow> rune) \<Rightarrow> bytes \<Rightarrow> bytes" where
  "ToLower lc s =
     (if is_ascii s then map lower_byte s
      else map char_of (concat (map (\<lambda>r. encode_rune (rune_lower lc r)) (runes (map byte s)))))"

lemma byte_lower_byte:
  "byte (lower_byte c) = (if 65 \<le> byte c \<and> byte c \<le> 90 then byte c + 32 else byte c)"
  by (auto simp: lower_byte_def)

lemma is_ascii_simps [simp]:
  "is_ascii []" "is_ascii (c # s) \<longleftrightarrow> byte c < 128 \<and> is_ascii s"
  "is_ascii (s @ t) \<longleftrightarrow> is_ascii s \<and> is_ascii t"
  by (auto simp: is_ascii_def)

lemma is_ascii_map_lower [simp]: "is_ascii (map lower_byte s) = is_ascii s"
  by (induction s) (auto simp: byte_lower_byte)

lemma lower_byte_idem [simp]: "lower_byte (lower_byte c) = lower_byte c"
  by (auto simp: lower_byte_def)

lemma ToLower_ascii: "is_ascii s \<Longrightarrow> ToLower lc s = map lower_byte s"
  by (simp add: ToLower_def)

lemma ToLower_idem_ascii: "is_ascii s \<Longrightarrow> ToLower lc (ToLower lc s) = ToLower lc s"
  by (simp add: ToLower_ascii)

lemma ToLower_Nil [simp]: "ToLower lc [] = []"
  by (simp add: ToLower_ascii)

lemma encode_rune_ne [simp]: "encode_rune r \<noteq> []"
  by (simp add: encode_rune_def)

lemma ToLower_eq_Nil [simp]: "ToLower lc s = [] \<longleftrightarrow> s = []"
proof (cases "is_ascii s")
  case False
  then obtain a as where s: "map byte s = a # as" and "s \<noteq> []"
    by (cases s) auto
  obtain r rest where "decode_rune a as = (r, rest)"
    by fastforce
  with False s \<open>s \<noteq> []\<close> show ?thesis
    by (simp add: ToLower_def)
qed (simp add: ToLower_ascii)

text \<open>Lowering keeps an ASCII byte that is no upper-case letter: no sequence of UTF-8 swallows it.\<close>

lemma decode_rune_keeps: "decode_rune a bs = (r, rest) \<Longrightarrow> b \<in> set (a # bs) \<Longrightarrow> b < 128 \<Longrightarrow> b = r \<or> b \<in> set rest"
  by (auto simp: decode_rune.simps cont_byte_def second_ok_def split: if_splits list.splits)

lemma runes_keeps: "b \<in> set bs \<Longrightarrow> b < 128 \<Longrightarrow> b \<in> set (runes bs)"
proof (induction bs rule: runes.induct)
  case (2 a bs)
  obtain r rest where d: "decode_rune a bs = (r, rest)" by fastforce
  with "2.IH" [OF d [symmetric]] "2.prems" decode_rune_keeps [OF d] show ?case by auto
qed simp

lemma ToLower_keeps:
  assumes "c \<in> set s" and "byte c < 65"
  shows "c \<in> set (ToLower lc s)"
proof (cases "is_ascii s")
  case True
  moreover have "lower_byte c = c" using assms(2) by (simp add: lower_byte_def)
  ultimately show ?thesis using assms(1) by (force simp: ToLower_ascii)
next
  case False
  have "byte c \<in> set (runes (map byte s))" using assms by (intro runes_keeps) auto
  moreover have "encode_rune (rune_lower lc (byte c)) = [byte c]"
    using assms(2) by (simp add: rune_lower_def encode_rune_def)
  ultimately have "byte c \<in> set (concat (map (\<lambda>r. encode_rune (rune_lower lc r)) (runes (map byte s))))" by force
  then have "char_of (byte c) \<in> set (ToLower lc s)" using False by (force simp: ToLower_def)
  then show ?thesis by simp
qed

text \<open>The ASCII branch is the general one on ASCII input.\<close>

lemma runes_ascii: "list_all (\<lambda>b. b < 128) bs \<Longrightarrow> runes bs = bs"
  by (induction bs) (auto simp: decode_rune_ascii)

lemma ToLower_fast_path:
  assumes "is_ascii s"
  shows "map lower_byte s =
    map char_of (concat (map (\<lambda>r. encode_rune (rune_lower lc r)) (runes (map byte s))))"
proof -
  have "map char_of (concat (map (\<lambda>r. encode_rune (rune_lower lc r)) (map byte t))) = map lower_byte t"
    if "is_ascii t" for t
    using that by (induction t) (auto simp: encode_rune_def rune_lower_def lower_byte_def)
  moreover have "runes (map byte s) = map byte s"
    using assms by (intro runes_ascii) (simp add: is_ascii_def list_all_length)
  ultimately show ?thesis using assms by simp
qed


section \<open>strings.TrimSpace\<close>

text \<open>
  The UTF-8 encodings of the white space runes: tab, newline, vertical tab, form feed,
  carriage return, space, U+0085, U+00A0, U+1680, U+2000 to U+200A, U+2028, U+2029, U+202F,
  U+205F, U+3000.
\<close>

definition space_encodings :: "bytes list" where
  "space_encodings =
    [[CHR 0x09], [CHR 0x0A], [CHR 0x0B], [CHR 0x0C], [CHR 0x0D], [CHR 0x20], [CHR 0xC2, CHR 0x85],
     [CHR 0xC2, CHR 0xA0], [CHR 0xE1, CHR 0x9A, CHR 0x80], [CHR 0xE2, CHR 0x80, CHR 0x80],
     [CHR 0xE2, CHR 0x80, CHR 0x81], [CHR 0xE2, CHR 0x80, CHR 0x82], [CHR 0xE2, CHR 0x80, CHR 0x83],
     [CHR 0xE2, CHR 0x80, CHR 0x84], [CHR 0xE2, CHR 0x80, CHR 0x85], [CHR 0xE2, CHR 0x80, CHR 0x86],
     [CHR 0xE2, CHR 0x80, CHR 0x87], [CHR 0xE2, CHR 0x80, CHR 0x88], [CHR 0xE2, CHR 0x80, CHR 0x89],
     [CHR 0xE2, CHR 0x80, CHR 0x8A], [CHR 0xE2, CHR 0x80, CHR 0xA8], [CHR 0xE2, CHR 0x80, CHR 0xA9],
     [CHR 0xE2, CHR 0x80, CHR 0xAF], [CHR 0xE2, CHR 0x81, CHR 0x9F], [CHR 0xE3, CHR 0x80, CHR 0x80]]"

text \<open>Drop leading occurrences of any of the given non-empty sequences.\<close>

function trim_seqs :: "bytes list \<Rightarrow> bytes \<Rightarrow> bytes" where
  "trim_seqs ps s =
     (case find (\<lambda>p. p \<noteq> [] \<and> prefix p s) ps of
        None \<Rightarrow> s
      | Some p \<Rightarrow> trim_seqs ps (drop (length p) s))"
  by pat_completeness auto
termination
  by (relation "measure (\<lambda>(ps, s). length s)")
     (auto simp: find_Some_iff prefix_length_le intro!: diff_less length_greater_0_conv [THEN iffD2])

declare trim_seqs.simps [simp del]

definition TrimSpace :: "bytes \<Rightarrow> bytes" where
  "TrimSpace s = rev (trim_seqs (map rev space_encodings) (rev (trim_seqs space_encodings s)))"

lemma trim_seqs_suffix: "suffix (trim_seqs ps s) s"
proof (induction ps s rule: trim_seqs.induct)
  case (1 ps s)
  show ?case
  proof (cases "find (\<lambda>p. p \<noteq> [] \<and> prefix p s) ps")
    case (Some p)
    with "1.IH" have "suffix (trim_seqs ps (drop (length p) s)) (drop (length p) s)" by blast
    with Some show ?thesis
      by (simp add: trim_seqs.simps [of ps s]) (meson suffix_drop suffix_order.trans)
  qed (simp add: trim_seqs.simps [of ps s])
qed

lemma trim_seqs_stuck: "p \<in> set ps \<Longrightarrow> p \<noteq> [] \<Longrightarrow> \<not> prefix p (trim_seqs ps s)"
proof (induction ps s rule: trim_seqs.induct)
  case (1 ps s)
  show ?case
  proof (cases "find (\<lambda>p. p \<noteq> [] \<and> prefix p s) ps")
    case None
    then have "\<not> prefix p s"
      using "1.prems" by (auto simp: find_None_iff)
    with None show ?thesis by (simp add: trim_seqs.simps [of ps s])
  next
    case (Some q)
    with 1 show ?thesis by (simp add: trim_seqs.simps [of ps s])
  qed
qed

lemma trim_seqs_id: "(\<And>p. p \<in> set ps \<Longrightarrow> p \<noteq> [] \<Longrightarrow> \<not> prefix p s) \<Longrightarrow> trim_seqs ps s = s"
proof -
  assume "\<And>p. p \<in> set ps \<Longrightarrow> p \<noteq> [] \<Longrightarrow> \<not> prefix p s"
  then have "find (\<lambda>p. p \<noteq> [] \<and> prefix p s) ps = None"
    by (auto simp: find_None_iff)
  then show ?thesis by (simp add: trim_seqs.simps [of ps s])
qed

lemma TrimSpace_Nil [simp]: "TrimSpace [] = []"
  by (simp add: TrimSpace_def trim_seqs_id)

text \<open>Trimmed strings are fixed points: no white space rune is left at either end.\<close>

lemma TrimSpace_no_space:
  assumes "p \<in> set space_encodings" and "p \<noteq> []"
  shows "\<not> prefix p (TrimSpace s)" and "\<not> suffix p (TrimSpace s)"
proof -
  have "prefix (TrimSpace s) (trim_seqs space_encodings s)"
    by (simp add: TrimSpace_def trim_seqs_suffix [of _ "rev _", unfolded suffix_to_prefix, simplified])
  then show "\<not> prefix p (TrimSpace s)"
    using trim_seqs_stuck [OF assms] prefix_order.trans by blast
  show "\<not> suffix p (TrimSpace s)"
    using trim_seqs_stuck [of "rev p" "map rev space_encodings"] assms
    by (auto simp: TrimSpace_def suffix_to_prefix)
qed

lemma TrimSpace_idem [simp]: "TrimSpace (TrimSpace s) = TrimSpace s"
proof -
  have "trim_seqs space_encodings (TrimSpace s) = TrimSpace s"
    using TrimSpace_no_space(1) by (intro trim_seqs_id) blast
  moreover have "trim_seqs (map rev space_encodings) (rev (TrimSpace s)) = rev (TrimSpace s)"
    using TrimSpace_no_space(2) by (intro trim_seqs_id) (auto simp: suffix_to_prefix)
  ultimately show ?thesis
    unfolding TrimSpace_def [of "TrimSpace s"] by simp
qed


text \<open>A string with no white space rune at either end is left as it is.\<close>

lemma TrimSpace_id:
  assumes "\<And>p. p \<in> set space_encodings \<Longrightarrow> \<not> prefix p s \<and> \<not> suffix p s"
  shows "TrimSpace s = s"
proof -
  have "trim_seqs space_encodings s = s"
    using assms by (intro trim_seqs_id) blast
  moreover have "trim_seqs (map rev space_encodings) (rev s) = rev s"
    using assms by (intro trim_seqs_id) (auto simp: suffix_to_prefix)
  ultimately show ?thesis by (simp add: TrimSpace_def)
qed

lemma space_encodings_ne: "p \<in> set space_encodings \<Longrightarrow> p \<noteq> []"
  by (auto simp: space_encodings_def)

lemma space_encodings_bytes:
  "p \<in> set space_encodings \<Longrightarrow> CHR '','' \<notin> set p \<and> CHR ''='' \<notin> set p \<and> CHR '':'' \<notin> set p"
proof -
  have "list_all (\<lambda>p. CHR '','' \<notin> set p \<and> CHR ''='' \<notin> set p \<and> CHR '':'' \<notin> set p) space_encodings"
    by code_simp
  then show "p \<in> set space_encodings \<Longrightarrow> CHR '','' \<notin> set p \<and> CHR ''='' \<notin> set p \<and> CHR '':'' \<notin> set p"
    by (simp add: list_all_iff)
qed

lemma prefix_before: "c \<notin> set p \<Longrightarrow> prefix p (s @ c # t) \<Longrightarrow> prefix p s"
  by (induction p arbitrary: s) (auto simp: prefix_Cons Cons_eq_append_conv prefix_def append_eq_append_conv2 append_eq_Cons_conv)

lemma suffix_after: "c \<notin> set p \<Longrightarrow> suffix p (s @ c # t) \<Longrightarrow> suffix p t"
  using prefix_before [of c "rev p" "rev t" "rev s"] by (simp add: suffix_to_prefix)

text \<open>Two trimmed strings joined by a byte of no white space encoding are trimmed.\<close>

lemma TrimSpace_join:
  assumes "TrimSpace s = s" "TrimSpace t = t" and "\<And>p. p \<in> set space_encodings \<Longrightarrow> c \<notin> set p"
  shows "TrimSpace (s @ c # t) = s @ c # t"
proof (rule TrimSpace_id)
  fix p assume p: "p \<in> set space_encodings"
  then have "\<not> prefix p s" "\<not> suffix p t"
    using TrimSpace_no_space [of p s] TrimSpace_no_space [of p t] space_encodings_ne assms(1,2)
    by auto
  then show "\<not> prefix p (s @ c # t) \<and> \<not> suffix p (s @ c # t)"
    using assms(3) [OF p] prefix_before suffix_after by metis
qed

text \<open>Trimming keeps every byte that no white space encoding contains.\<close>

lemma trim_seqs_keeps:
  "c \<in> set s \<Longrightarrow> (\<And>p. p \<in> set ps \<Longrightarrow> c \<notin> set p) \<Longrightarrow> c \<in> set (trim_seqs ps s)"
proof (induction ps s rule: trim_seqs.induct)
  case (1 ps s)
  show ?case
  proof (cases "find (\<lambda>p. p \<noteq> [] \<and> prefix p s) ps")
    case (Some p)
    then have "prefix p s" "p \<in> set ps" by (auto simp: find_Some_iff)
    then have "c \<in> set (drop (length p) s)"
      using "1.prems" by (auto simp: prefix_def)
    with "1.IH" [OF Some this] Some "1.prems"(2) show ?thesis
      by (simp add: trim_seqs.simps [of ps s])
  qed (use "1.prems" in \<open>simp add: trim_seqs.simps [of ps s]\<close>)
qed

lemma TrimSpace_keeps:
  "c \<in> set s \<Longrightarrow> (\<And>p. p \<in> set space_encodings \<Longrightarrow> c \<notin> set p) \<Longrightarrow> c \<in> set (TrimSpace s)"
  by (auto simp: TrimSpace_def intro!: trim_seqs_keeps)


section \<open>strings.Split, SplitN, Contains\<close>

text \<open>\<open>strings.Split(s, sep)\<close> for a separator of one byte.\<close>

fun Split :: "char \<Rightarrow> bytes \<Rightarrow> bytes list" where
  "Split sep [] = [[]]"
| "Split sep (c # s) =
     (if c = sep then [] # Split sep s
      else (case Split sep s of p # ps \<Rightarrow> (c # p) # ps | [] \<Rightarrow> [[c]]))"

text \<open>\<open>strings.SplitN(s, sep, 2)\<close>: cut at the first separator, if there is one.\<close>

fun SplitN2 :: "char \<Rightarrow> bytes \<Rightarrow> bytes list" where
  "SplitN2 sep [] = [[]]"
| "SplitN2 sep (c # s) =
     (if c = sep then [[], s]
      else (case SplitN2 sep s of p # ps \<Rightarrow> (c # p) # ps | [] \<Rightarrow> [[c]]))"

definition Contains :: "bytes \<Rightarrow> char \<Rightarrow> bool" where
  "Contains s c \<longleftrightarrow> c \<in> set s"

lemma Split_ne [simp]: "Split sep s \<noteq> []"
  by (induction s) (auto split: list.splits)

lemma Split_no_sep: "sep \<notin> set s \<Longrightarrow> Split sep s = [s]"
  by (induction s) auto

lemma Split_cut: "sep \<notin> set s \<Longrightarrow> Split sep (s @ sep # t) = s # Split sep t"
  by (induction s) auto

lemma SplitN2_no_sep: "sep \<notin> set s \<Longrightarrow> SplitN2 sep s = [s]"
  by (induction s) auto

lemma SplitN2_cut: "sep \<notin> set s \<Longrightarrow> SplitN2 sep (s @ sep # t) = [s, t]"
  by (induction s) auto

text \<open>Joining the pieces with the separator gives the string back.\<close>

fun join_with :: "char \<Rightarrow> bytes list \<Rightarrow> bytes" where
  "join_with sep [] = []"
| "join_with sep [s] = s"
| "join_with sep (s # t # ts) = s @ sep # join_with sep (t # ts)"

lemma join_Split: "join_with sep (Split sep s) = s"
proof (induction s)
  case (Cons c s)
  then show ?case
    by (cases "(sep, Split sep s)" rule: join_with.cases) auto
qed simp

lemma Split_join:
  "ps \<noteq> [] \<Longrightarrow> (\<And>p. p \<in> set ps \<Longrightarrow> sep \<notin> set p) \<Longrightarrow> Split sep (join_with sep ps) = ps"
  by (induction sep ps rule: join_with.induct) (auto simp: Split_no_sep Split_cut)

lemma takeWhile_cut: "sep \<notin> set a \<Longrightarrow> takeWhile (\<lambda>c. c \<noteq> sep) (a @ sep # b) = a"
  by (induction a) auto

lemma dropWhile_cut: "sep \<notin> set a \<Longrightarrow> dropWhile (\<lambda>c. c \<noteq> sep) (a @ sep # b) = sep # b"
  by (induction a) auto

lemma SplitN2_cases:
  obtains (one) "sep \<notin> set s" "SplitN2 sep s = [s]"
  | (two) a b where "sep \<notin> set a" "s = a @ sep # b" "SplitN2 sep s = [a, b]"
proof (cases "sep \<in> set s")
  case True
  then obtain a b where "s = a @ sep # b" "sep \<notin> set a"
    by (auto dest: split_list_first)
  then show thesis by (auto intro: two simp: SplitN2_cut)
qed (auto intro: one simp: SplitN2_no_sep)


section \<open>strings.EqualFold against an ASCII string\<close>

text \<open>
  Under simple case folding an ASCII letter matches its other case; besides that only U+017F
  (long s) folds to s and U+212A (Kelvin sign) to k. The second argument is ASCII, as in
  every call of the program.
\<close>

fun EqualFold :: "bytes \<Rightarrow> bytes \<Rightarrow> bool" where
  "EqualFold [] [] = True"
| "EqualFold [] (d # t) = False"
| "EqualFold (c # s) [] = False"
| "EqualFold (c # s) (d # t) =
     (lower_byte c = lower_byte d \<and> EqualFold s t
      \<or> lower_byte d = CHR ''s'' \<and> byte c = 197 \<and> map byte (take 1 s) = [191] \<and> EqualFold (drop 1 s) t
      \<or> lower_byte d = CHR ''k'' \<and> byte c = 226 \<and> map byte (take 2 s) = [132, 170]
        \<and> EqualFold (drop 2 s) t)"

lemma EqualFold_ascii: "is_ascii s \<Longrightarrow> EqualFold s t \<longleftrightarrow> map lower_byte s = map lower_byte t"
  by (induction s t rule: EqualFold.induct) auto


section \<open>Formatting\<close>

definition digit_char :: "int \<Rightarrow> char" where
  "digit_char d = ''0123456789'' ! nat (d mod 10)"

function dec_digits :: "int \<Rightarrow> bytes" where
  "dec_digits n =
     (if n < 10 then [digit_char n] else dec_digits (n div 10) @ [digit_char n])"
  by pat_completeness auto
termination
  by (relation "measure nat") auto

declare dec_digits.simps [simp del]

text \<open>The verb d.\<close>

definition fmt_d :: "int \<Rightarrow> bytes" where
  "fmt_d i = (if i < 0 then ''-'' else []) @ dec_digits \<bar>i\<bar>"

text \<open>\<open>fmt.Sprintf\<close> of a status class, as in \<open>2xx\<close>.\<close>

definition status_class :: "int \<Rightarrow> bytes" where
  "status_class code = fmt_d (go_div code 100) @ ''xx''"

end
