(* ===== verification/Metrics.thy ===== *)
theory Metrics
  imports Go_Strings
begin

text \<open>
  \<open>pkg/ohttp-relay/metrics/metrics.go\<close>. The OpenTelemetry instruments are a library: the
  model keeps the sequence of calls made on them (\<open>metric_op\<close>), in order, which is all the
  program can do with them. \<open>counter_value\<close> reads a counter off that sequence the way a
  counter is specified, as the sum of its increments. A recorded duration is kept in
  nanoseconds, where the code passes its value in seconds. \<open>InitMetrics\<close> takes the
  constructors of exporter and instruments as parameters.
\<close>

datatype instrument =
    RequestsTotal | ErrorsTotal | GatewayRequestsTotal | TrafficBytesIn | TrafficBytesOut
  | RequestDuration | GatewayRequestDuration | RequestSizeBytes | ResponseSizeBytes
  | ActiveRequests

type_synonym attributes = "(string \<times> string) list"

datatype metric_op =
    AddInt64 instrument int64 attributes
  | RecordInt64 instrument int64 attributes
  | RecordSeconds instrument duration attributes

type_synonym metric_log = "metric_op list"


section \<open>Initialisation\<close>

datatype instrument_kind = Int64Counter | Float64Histogram | Int64Histogram | Int64UpDownCounter

text \<open>The instruments in the order they are created, with their kind, name and unit.\<close>

definition init_plan :: "(instrument \<times> instrument_kind \<times> string \<times> string option) list" where
  "init_plan =
    [(RequestsTotal, Int64Counter, ''ohttp_relay_requests_total'', None),
     (ErrorsTotal, Int64Counter, ''ohttp_relay_errors_total'', None),
     (GatewayRequestsTotal, Int64Counter, ''ohttp_relay_gateway_requests_total'', None),
     (RequestDuration, Float64Histogram, ''ohttp_relay_request_duration_seconds'', Some ''s''),
     (GatewayRequestDuration, Float64Histogram, ''ohttp_relay_gateway_duration_seconds'', Some ''s''),
     (RequestSizeBytes, Int64Histogram, ''ohttp_relay_request_size_bytes'', Some ''By''),
     (ResponseSizeBytes, Int64Histogram, ''ohttp_relay_response_size_bytes'', Some ''By''),
     (ActiveRequests, Int64UpDownCounter, ''ohttp_relay_active_requests'', None),
     (TrafficBytesIn, Int64Counter, ''ohttp_relay_traffic_bytes_in_total'', Some ''By''),
     (TrafficBytesOut, Int64Counter, ''ohttp_relay_traffic_bytes_out_total'', Some ''By'')]"

text \<open>
  Assign the package variables one after the other; each assignment happens before the error
  is looked at, and the first error returns.
\<close>

fun init_instruments ::
  "(instrument_kind \<Rightarrow> string \<Rightarrow> string option \<Rightarrow> 'i \<times> go_error option) \<Rightarrow>
   (instrument \<times> instrument_kind \<times> string \<times> string option) list \<Rightarrow>
   (instrument \<Rightarrow> 'i option) \<Rightarrow> go_error option \<times> (instrument \<Rightarrow> 'i option)" where
  "init_instruments mk [] vars = (None, vars)"
| "init_instruments mk ((i, k, n, u) # plan) vars =
     (case mk k n u of
        (x, initErr) \<Rightarrow>
          (let vars = vars(i \<mapsto> x)
           in case initErr of Some e \<Rightarrow> (Some e, vars) | None \<Rightarrow> init_instruments mk plan vars))"

definition InitMetrics ::
  "go_error option \<Rightarrow> (instrument_kind \<Rightarrow> string \<Rightarrow> string option \<Rightarrow> 'i \<times> go_error option) \<Rightarrow>
   (instrument \<Rightarrow> 'i option) \<Rightarrow> go_error option \<times> (instrument \<Rightarrow> 'i option)" where
  "InitMetrics exporterErr mk vars =
     (case exporterErr of
        Some e \<Rightarrow> (Some (Errorf ''create prometheus exporter: %w'' [] (Some e)), vars)
      | None \<Rightarrow> init_instruments mk init_plan vars)"


section \<open>Recording\<close>

definition RecordRequest ::
  "string \<Rightarrow> string \<Rightarrow> duration \<Rightarrow> int64 \<Rightarrow> int64 \<Rightarrow> metric_log \<Rightarrow> metric_log" where
  "RecordRequest meth statusCategory dur reqSize respSize log =
     (let attrs = [(''method'', meth), (''status_category'', statusCategory)]
      in log @ [AddInt64 RequestsTotal 1 attrs,
                RecordSeconds RequestDuration dur attrs,
                RecordInt64 RequestSizeBytes reqSize attrs,
                RecordInt64 ResponseSizeBytes respSize attrs])"

definition RecordError :: "string \<Rightarrow> metric_log \<Rightarrow> metric_log" where
  "RecordError errorType log = log @ [AddInt64 ErrorsTotal 1 [(''error_type'', errorType)]]"

definition RecordGatewayRequest :: "int \<Rightarrow> duration \<Rightarrow> metric_log \<Rightarrow> metric_log" where
  "RecordGatewayRequest statusCode dur log =
     (let attrs = [(''status_category'', status_class statusCode)]
      in log @ [AddInt64 GatewayRequestsTotal 1 attrs,
                RecordSeconds GatewayRequestDuration dur attrs])"

definition RecordTrafficIO :: "string \<Rightarrow> int64 \<Rightarrow> int64 \<Rightarrow> metric_log \<Rightarrow> metric_log" where
  "RecordTrafficIO host bytesIn bytesOut log =
     (let attrs = [(''host'', host)]
      in log @ [AddInt64 TrafficBytesIn bytesIn attrs, AddInt64 TrafficBytesOut bytesOut attrs])"


section \<open>Reading the log\<close>

text \<open>The increments of one counter, and their sum at the counter's width.\<close>

fun increments :: "instrument \<Rightarrow> metric_log \<Rightarrow> int64 list" where
  "increments i [] = []"
| "increments i (AddInt64 j n as # log) = (if i = j then n # increments i log else increments i log)"
| "increments i (RecordInt64 j n as # log) = increments i log"
| "increments i (RecordSeconds j d as # log) = increments i log"

definition counter_value :: "instrument \<Rightarrow> metric_log \<Rightarrow> int64" where
  "counter_value i log = sum_list (increments i log)"

lemma increments_append [simp]: "increments i (l @ m) = increments i l @ increments i m"
  by (induction i l rule: increments.induct) auto

lemma counter_value_append [simp]: "counter_value i (l @ m) = counter_value i l + counter_value i m"
  by (simp add: counter_value_def)

lemma counter_value_simps [simp]:
  "counter_value i [] = 0"
  "counter_value i (AddInt64 j n as # log) = (if i = j then n else 0) + counter_value i log"
  "counter_value i (RecordInt64 j n as # log) = counter_value i log"
  "counter_value i (RecordSeconds j d as # log) = counter_value i log"
  by (simp_all add: counter_value_def)

lemma counter_value_record [simp]:
  "counter_value i (RecordRequest m c d q r log) = counter_value i log + (if i = RequestsTotal then 1 else 0)"
  "counter_value i (RecordError t log) = counter_value i log + (if i = ErrorsTotal then 1 else 0)"
  "counter_value i (RecordGatewayRequest s d log)
     = counter_value i log + (if i = GatewayRequestsTotal then 1 else 0)"
  "counter_value i (RecordTrafficIO h x y log)
     = counter_value i log + (if i = TrafficBytesIn then x else 0) + (if i = TrafficBytesOut then y else 0)"
  by (auto simp: RecordRequest_def RecordError_def RecordGatewayRequest_def RecordTrafficIO_def Let_def)


section \<open>Properties\<close>

lemma init_instruments_frame:
  "init_instruments mk plan vars = (err, vars') \<Longrightarrow> i \<notin> fst ` set plan \<Longrightarrow> vars' i = vars i"
proof (induction plan arbitrary: vars)
  case (Cons a plan)
  obtain j k n u where a: "a = (j, k, n, u)" by (cases a) auto
  obtain x e where mk: "mk k n u = (x, e)" by fastforce
  show ?case
  proof (cases e)
    case None
    with Cons.prems(1) have "init_instruments mk plan (vars(j \<mapsto> x)) = (err, vars')"
      by (simp add: a mk Let_def)
    from Cons.IH [OF this] Cons.prems(2) show ?thesis by (simp add: a)
  next
    case (Some e')
    with Cons.prems show ?thesis by (auto simp: a mk Let_def)
  qed
qed simp

lemma init_instruments_None:
  assumes "init_instruments mk plan vars = (None, vars')"
    and "(i, k, n, u) \<in> set plan" and "distinct (map fst plan)"
  shows "\<exists>x. mk k n u = (x, None) \<and> vars' i = Some x"
  using assms
proof (induction plan arbitrary: vars)
  case (Cons a plan)
  obtain j l m w where a: "a = (j, l, m, w)" by (cases a) auto
  obtain x where x: "mk l m w = (x, None)" and
    rest: "init_instruments mk plan (vars(j \<mapsto> x)) = (None, vars')"
    using Cons.prems(1) by (auto simp: a Let_def split: prod.splits option.splits)
  have "vars' j = Some x"
    using init_instruments_frame [OF rest] Cons.prems(3) by (simp add: a)
  with x Cons.IH [OF rest] Cons.prems(2,3) show ?case by (auto simp: a)
qed simp

lemma init_instruments_Some:
  "init_instruments mk plan vars = (Some e, vars') \<Longrightarrow>
     \<exists>i k n u. (i, k, n, u) \<in> set plan \<and> snd (mk k n u) = Some e"
proof (induction plan arbitrary: vars)
  case (Cons a plan)
  obtain i k n u where a: "a = (i, k, n, u)" by (cases a) auto
  obtain x err where mk: "mk k n u = (x, err)" by fastforce
  show ?case
  proof (cases err)
    case None
    with Cons.prems have "init_instruments mk plan (vars(i \<mapsto> x)) = (Some e, vars')"
      by (simp add: a mk Let_def)
    from Cons.IH [OF this] show ?thesis by auto
  next
    case (Some e')
    with Cons.prems have "snd (mk k n u) = Some e" by (simp add: a mk Let_def)
    then show ?thesis unfolding a by (meson list.set_intros(1))
  qed
qed auto

text \<open>
  When \<open>InitMetrics\<close> returns without error, every instrument variable of the package has
  been assigned the instrument created for it, so no recording function can meet a variable
  that is still nil.
\<close>

lemma InitMetrics_assigns_all:
  assumes "InitMetrics exporterErr mk vars = (None, vars')"
  shows "\<exists>k n u x. (i, k, n, u) \<in> set init_plan \<and> mk k n u = (x, None) \<and> vars' i = Some x"
proof -
  have ok: "init_instruments mk init_plan vars = (None, vars')"
    using assms by (auto simp: InitMetrics_def split: option.splits)
  obtain k n u where mem: "(i, k, n, u) \<in> set init_plan"
    unfolding init_plan_def by (cases i) auto
  from init_instruments_None [OF ok mem] obtain x where "mk k n u = (x, None)" "vars' i = Some x"
    by (auto simp: init_plan_def)
  with mem show ?thesis by blast
qed

lemma InitMetrics_assigns_all_example:
  "\<exists>k n u x. (ActiveRequests, k, n, u) \<in> set init_plan \<and> (n, None :: go_error option) = (x, None)
     \<and> snd (InitMetrics None (\<lambda>k n u. (n, None)) Map.empty) ActiveRequests = Some x"
proof -
  let ?r = "InitMetrics None (\<lambda>k n u. (n, None)) Map.empty"
  have "?r = (None, snd ?r)" by (simp add: InitMetrics_def init_plan_def)
  from InitMetrics_assigns_all [OF this, of ActiveRequests] show ?thesis .
qed

end
