(* ===== verification/World.thy ===== *)
theory World
  imports Metrics
begin

text \<open>
  The world the relay acts on, and the interfaces of the code it calls.

  \<open>externals\<close> is the parameter of the development for code outside the repository and for
  the parts of the Go runtime that talk to the outside: the Unicode case table, the clock, the
  URL parser, the HTTP transport and the Redis client. Each works on an environment state of
  any type \<open>'x\<close>, so it may answer differently every time and nothing is assumed of it.
  A \<open>world\<close> holds that state, the metric calls made so far, every request handed to
  \<open>http.Client.Do\<close> (\<open>outbound\<close>) and every pipeline handed to the Redis client.
\<close>

section \<open>HTTP\<close>

type_synonym header = "string \<rightharpoonup> string list"

text \<open>\<open>Header.Set\<close>; every key the program uses is already in canonical form.\<close>

definition Header_Set :: "header \<Rightarrow> string \<Rightarrow> string \<Rightarrow> header" where
  "Header_Set h k v = h(k \<mapsto> [v])"

record http_request =
  rq_Method :: string
  rq_URL :: string
  rq_Header :: header
  rq_Body :: bytes

text \<open>\<open>rs_BodyErr\<close> is the error reading the body to its end meets after \<open>rs_Body\<close>.\<close>

record http_response =
  rs_StatusCode :: int
  rs_Header :: header
  rs_Body :: bytes
  rs_BodyErr :: "go_error option"

text \<open>
  \<open>http.Client.Do\<close>: a response without error, or an error that may come with a response
  (when a redirect is refused).
\<close>

datatype do_result = DoOk http_response | DoErr go_error "http_response option"

text \<open>\<open>io.ReadAll\<close> on a response body.\<close>

definition ReadAll :: "http_response \<Rightarrow> bytes \<times> go_error option" where
  "ReadAll rsp = (rs_Body rsp, rs_BodyErr rsp)"

text \<open>The token characters of a method name.\<close>

definition token_chars :: string where
  "token_chars = ''!#$%&*+-.^_`|~'' @ [CHR 0x27]"

definition is_token_char :: "char \<Rightarrow> bool" where
  "is_token_char c \<longleftrightarrow>
     48 \<le> byte c \<and> byte c \<le> 57 \<or> 65 \<le> byte c \<and> byte c \<le> 90 \<or> 97 \<le> byte c \<and> byte c \<le> 122
     \<or> c \<in> set token_chars"

definition validMethod :: "string \<Rightarrow> bool" where
  "validMethod m \<longleftrightarrow> m \<noteq> [] \<and> list_all is_token_char m"


section \<open>External code\<close>

text \<open>A Redis client is known by its options.\<close>

record redis_options =
  ro_Addr :: string
  ro_Password :: string
  ro_DB :: int
  ro_TLS :: bool

datatype redis_cmd =
    HIncrBy string string int64
  | Expire string duration

record 'x externals =
  uni_lower :: "rune \<Rightarrow> rune"
  time_now :: "'x \<Rightarrow> instant \<times> 'x"
  parse_url_err :: "string \<Rightarrow> go_error option"
  http_do :: "duration \<Rightarrow> http_request \<Rightarrow> 'x \<Rightarrow> do_result \<times> 'x"
  redis_hget :: "redis_options \<Rightarrow> duration \<Rightarrow> string \<Rightarrow> string \<Rightarrow> 'x \<Rightarrow> string result \<times> 'x"
  redis_exec :: "redis_options \<Rightarrow> redis_cmd list \<Rightarrow> 'x \<Rightarrow> go_error option \<times> 'x"
  redis_ping :: "redis_options \<Rightarrow> duration \<Rightarrow> 'x \<Rightarrow> go_error option \<times> 'x"

record 'x world =
  env :: 'x
  metrics_log :: metric_log
  outbound :: "http_request list"
  pipelines :: "redis_cmd list list"


section \<open>Calls into the environment\<close>

definition Now :: "'x externals \<Rightarrow> 'x world \<Rightarrow> instant \<times> 'x world" where
  "Now E w = (case time_now E (env w) of (t, x) \<Rightarrow> (t, w\<lparr>env := x\<rparr>))"

definition Do :: "'x externals \<Rightarrow> duration \<Rightarrow> http_request \<Rightarrow> 'x world \<Rightarrow> do_result \<times> 'x world" where
  "Do E timeout req w =
     (case http_do E timeout req (env w) of
        (r, x) \<Rightarrow> (r, w\<lparr>env := x, outbound := outbound w @ [req]\<rparr>))"

definition HGet ::
  "'x externals \<Rightarrow> redis_options \<Rightarrow> duration \<Rightarrow> string \<Rightarrow> string \<Rightarrow> 'x world \<Rightarrow> string result \<times> 'x world" where
  "HGet E rdb timeout key field w =
     (case redis_hget E rdb timeout key field (env w) of (r, x) \<Rightarrow> (r, w\<lparr>env := x\<rparr>))"

definition Pipeline_Exec ::
  "'x externals \<Rightarrow> redis_options \<Rightarrow> redis_cmd list \<Rightarrow> 'x world \<Rightarrow> go_error option \<times> 'x world" where
  "Pipeline_Exec E rdb cmds w =
     (case redis_exec E rdb cmds (env w) of
        (r, x) \<Rightarrow> (r, w\<lparr>env := x, pipelines := pipelines w @ [cmds]\<rparr>))"

definition Ping :: "'x externals \<Rightarrow> redis_options \<Rightarrow> duration \<Rightarrow> 'x world \<Rightarrow> go_error option \<times> 'x world" where
  "Ping E rdb timeout w =
     (case redis_ping E rdb timeout (env w) of (r, x) \<Rightarrow> (r, w\<lparr>env := x\<rparr>))"

definition with_metrics :: "(metric_log \<Rightarrow> metric_log) \<Rightarrow> 'x world \<Rightarrow> 'x world" where
  "with_metrics f w = w\<lparr>metrics_log := f (metrics_log w)\<rparr>"

text \<open>
  \<open>http.NewRequestWithContext\<close>: an empty method means GET; the method must be a token and
  the URL must parse. The header starts empty.
\<close>

definition NewRequest :: "'x externals \<Rightarrow> string \<Rightarrow> string \<Rightarrow> bytes \<Rightarrow> http_request result" where
  "NewRequest E m url body =
     (let m = (if m = [] then ''GET'' else m)
      in if \<not> validMethod m then Inl (Errorf ''net/http: invalid method %q'' [m] None)
         else case parse_url_err E url of
                Some e \<Rightarrow> Inl e
              | None \<Rightarrow> Inr \<lparr>rq_Method = m, rq_URL = url, rq_Header = Map.empty, rq_Body = body\<rparr>)"


section \<open>A concrete environment for examples\<close>

text \<open>A gateway that answers 200 with a fixed body, a clock that stands still, an empty Redis.\<close>

definition example_externals :: "unit externals" where
  "example_externals =
     \<lparr>uni_lower = id, time_now = (\<lambda>x. (0, x)), parse_url_err = (\<lambda>_. None),
      http_do = (\<lambda>_ _ x. (DoOk \<lparr>rs_StatusCode = 200, rs_Header = Map.empty, rs_Body = ''opaque'',
                                rs_BodyErr = None\<rparr>, x)),
      redis_hget = (\<lambda>_ _ _ _ x. (Inl RedisNil, x)), redis_exec = (\<lambda>_ _ x. (None, x)),
      redis_ping = (\<lambda>_ _ x. (None, x))\<rparr>"

definition example_world :: "unit world" where
  "example_world = \<lparr>env = (), metrics_log = [], outbound = [], pipelines = []\<rparr>"


section \<open>Frame lemmas\<close>

lemma Now_frame [frame]:
  "metrics_log (snd (Now E w)) = metrics_log w"
  "outbound (snd (Now E w)) = outbound w"
  "pipelines (snd (Now E w)) = pipelines w"
  by (simp_all add: Now_def split: prod.split)

lemma Now_case:
  assumes "Now E w = (t, w')"
  shows "metrics_log w' = metrics_log w" "outbound w' = outbound w" "pipelines w' = pipelines w"
  using Now_frame [of E w] assms by simp_all

lemma HGet_frame [frame]:
  "metrics_log (snd (HGet E rdb t k f w)) = metrics_log w"
  "outbound (snd (HGet E rdb t k f w)) = outbound w"
  "pipelines (snd (HGet E rdb t k f w)) = pipelines w"
  by (simp_all add: HGet_def split: prod.split)

lemma Do_frame [frame]:
  "metrics_log (snd (Do E t req w)) = metrics_log w"
  "outbound (snd (Do E t req w)) = outbound w @ [req]"
  "pipelines (snd (Do E t req w)) = pipelines w"
  by (simp_all add: Do_def split: prod.split)

lemma Pipeline_Exec_frame [frame]:
  "metrics_log (snd (Pipeline_Exec E rdb cmds w)) = metrics_log w"
  "outbound (snd (Pipeline_Exec E rdb cmds w)) = outbound w"
  "pipelines (snd (Pipeline_Exec E rdb cmds w)) = pipelines w @ [cmds]"
  by (simp_all add: Pipeline_Exec_def split: prod.split)

lemma env_calls:
  "env (snd (Now E w)) = snd (time_now E (env w))"
  "env (snd (Pipeline_Exec E rdb cmds w)) = snd (redis_exec E rdb cmds (env w))"
  by (simp_all add: Now_def Pipeline_Exec_def split: prod.split)

lemma with_metrics_frame [frame]:
  "env (with_metrics f w) = env w"
  "metrics_log (with_metrics f w) = f (metrics_log w)"
  "outbound (with_metrics f w) = outbound w"
  "pipelines (with_metrics f w) = pipelines w"
  by (simp_all add: with_metrics_def)

lemma NewRequest_ok:
  assumes "NewRequest E m url body = Inr req"
  shows "rq_Method req = (if m = [] then ''GET'' else m)" "rq_URL req = url"
    "rq_Header req = Map.empty" "rq_Body req = body"
  using assms by (auto simp: NewRequest_def Let_def split: if_splits option.splits)

end
