(* ===== verification/Gateway.thy ===== *)
theory Gateway
  imports World
begin

text \<open>
  \<open>pkg/ohttp-relay/gateway\<close>: the sources that resolve a host to the URL of its gateway
  (static map, Redis, fallback, chain) and the sources of key configurations. A source is a
  function of the host and the world. The locale \<open>url_source\<close> is the contract of the
  interface \<open>URLSource\<close> the rest of the program relies on: resolving a host sends no request to
  a gateway, records no metric and writes nothing to Redis.
\<close>

type_synonym 'x URLSource = "string \<Rightarrow> 'x world \<Rightarrow> string result \<times> 'x world"
type_synonym 'x KeyConfigSource = "string \<Rightarrow> 'x world \<Rightarrow> bytes result \<times> 'x world"


section \<open>URL sources\<close>

text \<open>A Go map lookup: the zero value for a missing key.\<close>

definition map_get :: "(string \<rightharpoonup> string) \<Rightarrow> string \<Rightarrow> string" where
  "map_get m k = (case m k of None \<Rightarrow> [] | Some v \<Rightarrow> v)"

definition StaticMapURLSource :: "(string \<rightharpoonup> string) \<Rightarrow> 'x URLSource" where
  "StaticMapURLSource source host w = (Inr (map_get source host), w)"

definition FallbackSource :: "string \<Rightarrow> 'x URLSource \<Rightarrow> 'x URLSource" where
  "FallbackSource defaultGatewayURL other host w =
     (case other host w of
        (Inl err, w) \<Rightarrow> (Inl err, w)
      | (Inr gw, w) \<Rightarrow> if gw \<noteq> [] then (Inr gw, w) else (Inr defaultGatewayURL, w))"

fun ChainSources :: "'x URLSource list \<Rightarrow> 'x URLSource" where
  "ChainSources [] host w = (Inr [], w)"
| "ChainSources (s # sources) host w =
     (case s host w of
        (Inl err, w) \<Rightarrow> (Inl err, w)
      | (Inr gw, w) \<Rightarrow> if gw \<noteq> [] then (Inr gw, w) else ChainSources sources host w)"

record RedisGatewaySource =
  rgs_rdb :: redis_options
  rgs_timeout :: duration

definition NewRedisGatewaySource :: "redis_options \<Rightarrow> duration \<Rightarrow> RedisGatewaySource result" where
  "NewRedisGatewaySource client ttl =
     (let ttl = (if ttl \<le> 0 then 5 * 1000000000 else ttl)
      in Inr \<lparr>rgs_rdb = client, rgs_timeout = ttl\<rparr>)"

definition RedisTargetURL :: "'x externals \<Rightarrow> RedisGatewaySource \<Rightarrow> 'x URLSource" where
  "RedisTargetURL E r host w =
     (let h = ToLower (uni_lower E) (TrimSpace host)
      in case HGet E (rgs_rdb r) (rgs_timeout r) h ''url'' w of
           (Inr v, w) \<Rightarrow> (Inr v, w)
         | (Inl err, w) \<Rightarrow> if \<not> errors_Is err RedisNil then (Inl err, w) else (Inr [], w))"


section \<open>Key configuration sources\<close>

definition contentTypeOHTTPKeys :: string where
  "contentTypeOHTTPKeys = ''application/ohttp-keys''"

definition ohttpConfigsPath :: string where
  "ohttpConfigsPath = ''/.well-known/ohttp-configs''"

definition StaticMapKeyConfigSource :: "(string \<rightharpoonup> bytes) \<Rightarrow> 'x KeyConfigSource" where
  "StaticMapKeyConfigSource source host w = (Inr (map_get source host), w)"

definition NewHttpKeyConfigSource ::
  "'x externals \<Rightarrow> duration \<Rightarrow> 'x URLSource \<Rightarrow> 'x KeyConfigSource" where
  "NewHttpKeyConfigSource E h gwSource host w =
     (case gwSource host w of
        (Inl err, w) \<Rightarrow> (Inl (Errorf ''get gateway url for host %q: %w'' [host] (Some err)), w)
      | (Inr targetURL, w) \<Rightarrow>
          if targetURL = [] then (Inl (Errorf ''no gateway url for host %q'' [host] None), w)
          else
            let gatewayURL = targetURL @ ohttpConfigsPath
            in case NewRequest E ''GET'' gatewayURL [] of
                 Inl err \<Rightarrow> (Inl err, w)
               | Inr req \<Rightarrow>
                   let hd = Header_Set (rq_Header req) ''Accept'' contentTypeOHTTPKeys;
                       hd = Header_Set hd ''User-Agent'' ''ohttp-relay'';
                       req = req\<lparr>rq_Header := hd\<rparr>
                   in case Do E h req w of
                        (DoErr err _, w) \<Rightarrow> (Inl err, w)
                      | (DoOk rsp, w) \<Rightarrow>
                          if rs_StatusCode rsp \<noteq> 200
                          then (Inl (Errorf ''unexpected status %d'' [fmt_d (rs_StatusCode rsp)] None), w)
                          else (Inr (fst (ReadAll rsp)), w))"


section \<open>The contract of URL sources\<close>

locale url_source =
  fixes target :: "'x URLSource"
  assumes target_metrics: "metrics_log (snd (target host w)) = metrics_log w"
    and target_outbound: "outbound (snd (target host w)) = outbound w"
    and target_pipelines: "pipelines (snd (target host w)) = pipelines w"
begin

lemmas target_frame = target_metrics target_outbound target_pipelines

lemma target_case:
  assumes "target host w = (r, w')"
  shows "metrics_log w' = metrics_log w" "outbound w' = outbound w" "pipelines w' = pipelines w"
  using target_frame [of host w] assms by simp_all

end

text \<open>Sources that never look at the world keep the contract; the others only ask Redis.\<close>

interpretation static_src: url_source "StaticMapURLSource m" for m
  by unfold_locales (simp_all add: StaticMapURLSource_def)

lemma RedisTargetURL_world:
  "snd (RedisTargetURL E r host w) =
     snd (HGet E (rgs_rdb r) (rgs_timeout r) (ToLower (uni_lower E) (TrimSpace host)) ''url'' w)"
  by (simp add: RedisTargetURL_def Let_def split: prod.split sum.split)

interpretation redis_src: url_source "RedisTargetURL E r" for E r
  by unfold_locales (simp_all add: RedisTargetURL_world frame)

text \<open>Chains and fallbacks of sources that keep the contract keep it.\<close>

lemma ChainSources_url_source:
  assumes "list_all url_source ss"
  shows "url_source (ChainSources ss)"
proof -
  have "metrics_log (snd (ChainSources ss host w)) = metrics_log w
      \<and> outbound (snd (ChainSources ss host w)) = outbound w
      \<and> pipelines (snd (ChainSources ss host w)) = pipelines w" for host and w :: "'a world"
    using assms
  proof (induction ss arbitrary: w)
    case (Cons s ss)
    obtain r w' where sw: "s host w = (r, w')" by fastforce
    then have "metrics_log w' = metrics_log w" "outbound w' = outbound w" "pipelines w' = pipelines w"
      using Cons.prems url_source.target_case [of s host w r w'] by auto
    with Cons show ?case by (auto simp: sw split: sum.split)
  qed simp
  then show ?thesis by unfold_locales simp_all
qed

interpretation chain_src: url_source "ChainSources [StaticMapURLSource m, RedisTargetURL E r]" for m E r
  by (rule ChainSources_url_source)
     (simp add: static_src.url_source_axioms redis_src.url_source_axioms)

lemma FallbackSource_chain:
  "FallbackSource d s host w = ChainSources [s, \<lambda>_ w. (Inr d, w)] host w"
  by (auto simp: FallbackSource_def split: prod.split sum.split)

lemma FallbackSource_url_source: "url_source s \<Longrightarrow> url_source (FallbackSource d s)"
proof -
  assume "url_source s"
  moreover have "url_source (\<lambda>_ w :: 'a world. (Inr d, w))" by unfold_locales simp_all
  ultimately have "url_source (ChainSources [s, \<lambda>_ w. (Inr d, w)])"
    by (intro ChainSources_url_source) simp
  moreover have "FallbackSource d s = ChainSources [s, \<lambda>_ w. (Inr d, w)]"
    by (intro ext) (rule FallbackSource_chain)
  ultimately show ?thesis by simp
qed


section \<open>The contract of key configuration sources\<close>

text \<open>
  A key configuration request: a GET of some URL without body, whose header names the media
  type and the relay and nothing of the client.
\<close>

definition key_request :: "http_request \<Rightarrow> bool" where
  "key_request req \<longleftrightarrow>
     rq_Method req = ''GET'' \<and> rq_Body req = [] \<and>
     rq_Header req = [''Accept'' \<mapsto> [contentTypeOHTTPKeys], ''User-Agent'' \<mapsto> [''ohttp-relay'']]"

locale key_config_source =
  fixes keyConfig :: "'x KeyConfigSource"
  assumes kc_metrics: "metrics_log (snd (keyConfig host w)) = metrics_log w"
    and kc_pipelines: "pipelines (snd (keyConfig host w)) = pipelines w"
    and kc_outbound: "\<exists>reqs. outbound (snd (keyConfig host w)) = outbound w @ reqs
      \<and> length reqs \<le> 1 \<and> list_all key_request reqs"

interpretation static_kc: key_config_source "StaticMapKeyConfigSource m" for m
  by unfold_locales (simp_all add: StaticMapKeyConfigSource_def)

text \<open>The requests the HTTP source sends.\<close>

lemma NewHttpKeyConfigSource_calls:
  assumes "url_source src"
  shows "metrics_log (snd (NewHttpKeyConfigSource E h src host w)) = metrics_log w
     \<and> pipelines (snd (NewHttpKeyConfigSource E h src host w)) = pipelines w
     \<and> (\<exists>reqs. outbound (snd (NewHttpKeyConfigSource E h src host w)) = outbound w @ reqs
        \<and> length reqs \<le> 1 \<and> list_all key_request reqs)"
proof -
  obtain r w1 where src: "src host w = (r, w1)" by fastforce
  note keep = url_source.target_case [OF assms src]
  show ?thesis
  proof (cases "\<exists>url req. r = Inr url \<and> url \<noteq> [] \<and> NewRequest E ''GET'' (url @ ohttpConfigsPath) [] = Inr req")
    case True
    then obtain url req0 where url: "r = Inr url" "url \<noteq> []"
      and req0: "NewRequest E ''GET'' (url @ ohttpConfigsPath) [] = Inr req0" by blast
    define req where "req = req0\<lparr>rq_Header :=
      Header_Set (Header_Set (rq_Header req0) ''Accept'' contentTypeOHTTPKeys) ''User-Agent'' ''ohttp-relay''\<rparr>"
    have "key_request req"
      using NewRequest_ok [OF req0] by (simp add: req_def key_request_def Header_Set_def)
    moreover have "snd (NewHttpKeyConfigSource E h src host w) = snd (Do E h req w1)"
      by (simp add: NewHttpKeyConfigSource_def src url req0 req_def Let_def
          split: prod.split do_result.split)
    ultimately show ?thesis by (simp add: frame keep)
  next
    case False
    then have "snd (NewHttpKeyConfigSource E h src host w) = w1"
      by (auto simp: NewHttpKeyConfigSource_def src split: sum.split)
    then show ?thesis by (simp add: keep)
  qed
qed

sublocale url_source \<subseteq> key_config_source "NewHttpKeyConfigSource E h target" for E h
  using NewHttpKeyConfigSource_calls [OF url_source_axioms] by unfold_locales blast+

section \<open>Properties\<close>

text \<open>
  Chaining is associative: a chain of two chains answers as the chain of all their
  sources in order does, with the same calls made on the world.
\<close>

lemma ChainSources_append:
  "ChainSources (xs @ ys) host w = ChainSources [ChainSources xs, ChainSources ys] host w"
proof (induction xs arbitrary: w)
  case (Cons s xs)
  then show ?case by (auto split: prod.split sum.split)
next
  case Nil
  then show ?case
    by (cases "ChainSources ys host w" rule: prod.exhaust; cases "fst (ChainSources ys host w)")
       (auto split: sum.split prod.split)
qed

text \<open>
  In the chain the relay runs with Redis, a host of the static map is answered from the
  map and Redis is not asked; any other host gets the answer of the Redis source.
\<close>

lemma static_map_before_redis:
  "ChainSources [StaticMapURLSource m, RedisTargetURL E r] host w =
     (if map_get m host \<noteq> [] then (Inr (map_get m host), w) else RedisTargetURL E r host w)"
proof -
  have "ChainSources [s] h v = s h v" for s :: "'a URLSource" and h v
    by (auto split: prod.split sum.split)
  then show ?thesis
    by (simp add: StaticMapURLSource_def del: ChainSources.simps(2)) (simp add: StaticMapURLSource_def)
qed

text \<open>
  The Redis source looks up the field url under the trimmed lower-case host; a missing
  entry is the empty URL and not an error, any other error is passed on.
\<close>

lemma RedisTargetURL_cases:
  "fst (RedisTargetURL E r host w) =
     (case fst (HGet E (rgs_rdb r) (rgs_timeout r) (ToLower (uni_lower E) (TrimSpace host)) ''url'' w) of
        Inr v \<Rightarrow> Inr v
      | Inl err \<Rightarrow> if errors_Is err RedisNil then Inr [] else Inl err)"
  by (simp add: RedisTargetURL_def Let_def split: prod.split sum.split)

text \<open>
  A key configuration fetch succeeds only when the source names a gateway, and then the
  one request it sends is a GET of the gateway's well-known path whose header holds the media
  type and the relay's name only, and the gateway answered 200.
\<close>

lemma NewHttpKeyConfigSource_success:
  assumes "url_source src" and "NewHttpKeyConfigSource E h src host w = (Inr bz, w')"
  shows "\<exists>url w1 req rsp. src host w = (Inr url, w1) \<and> url \<noteq> [] \<and> key_request req
     \<and> rq_URL req = url @ ''/.well-known/ohttp-configs''
     \<and> Do E h req w1 = (DoOk rsp, w') \<and> outbound w' = outbound w @ [req]
     \<and> rs_StatusCode rsp = 200 \<and> bz = rs_Body rsp"
proof -
  obtain url w1 where src: "src host w = (Inr url, w1)" and url: "url \<noteq> []"
    using assms(2) by (auto simp: NewHttpKeyConfigSource_def split: prod.splits sum.splits if_splits)
  obtain req0 where req0: "NewRequest E ''GET'' (url @ ohttpConfigsPath) [] = Inr req0"
    using assms(2) url by (auto simp: NewHttpKeyConfigSource_def src Let_def split: sum.splits)
  define req where "req = req0\<lparr>rq_Header :=
    Header_Set (Header_Set (rq_Header req0) ''Accept'' contentTypeOHTTPKeys) ''User-Agent'' ''ohttp-relay''\<rparr>"
  have req: "key_request req" "rq_URL req = url @ ''/.well-known/ohttp-configs''"
    using NewRequest_ok [OF req0] by (simp_all add: req_def key_request_def Header_Set_def ohttpConfigsPath_def)
  obtain rsp where rsp: "Do E h req w1 = (DoOk rsp, w')" "rs_StatusCode rsp = 200" "bz = rs_Body rsp"
    using assms(2) url
    by (auto simp: NewHttpKeyConfigSource_def src req0 req_def [symmetric] Let_def ReadAll_def
        split: prod.splits do_result.splits if_splits)
  have "outbound w' = outbound w @ [req]"
    using Do_frame(2) [of E h req w1] rsp(1) url_source.target_case(2) [OF assms(1) src] by simp
  with src url req rsp show ?thesis by blast
qed

lemma NewHttpKeyConfigSource_success_example:
  "\<exists>url w1 w' req rsp. StaticMapURLSource [''a'' \<mapsto> ''https://g''] ''a'' example_world = (Inr url, w1)
     \<and> rq_URL req = url @ ''/.well-known/ohttp-configs'' \<and> key_request req
     \<and> Do example_externals 9 req w1 = (DoOk rsp, w') \<and> outbound w' = [req] \<and> ''opaque'' = rs_Body rsp"
proof -
  let ?src = "StaticMapURLSource [''a'' \<mapsto> ''https://g''] :: unit URLSource"
  let ?r = "NewHttpKeyConfigSource example_externals 9 ?src ''a'' example_world"
  have ok: "?r = (Inr ''opaque'', snd ?r)"
    by (simp add: NewHttpKeyConfigSource_def StaticMapURLSource_def map_get_def NewRequest_def
        validMethod_def is_token_char_def example_externals_def example_world_def Do_def ReadAll_def)
  have "outbound example_world = []" by (simp add: example_world_def)
  with NewHttpKeyConfigSource_success [OF static_src.url_source_axioms ok] show ?thesis
    by (metis append_Nil)
qed

text \<open>
  C37: when reading the gateway's answer fails midway the error is dropped: the bytes read so
  far are returned as the key configuration.
\<close>

theorem key_config_read_error_dropped:
  assumes "src host w = (Inr url, w1)" and "url \<noteq> []"
    and "NewRequest E ''GET'' (url @ ohttpConfigsPath) [] = Inr req"
    and "Do E h (req\<lparr>rq_Header := [''Accept'' \<mapsto> [contentTypeOHTTPKeys], ''User-Agent'' \<mapsto> [''ohttp-relay'']]\<rparr>) w1
      = (DoOk rsp, w2)"
    and "rs_StatusCode rsp = 200" and "rs_BodyErr rsp = Some err"
  shows "NewHttpKeyConfigSource E h src host w = (Inr (rs_Body rsp), w2)"
  using assms NewRequest_ok(3) [OF assms(3)]
  by (simp add: NewHttpKeyConfigSource_def Let_def Header_Set_def ReadAll_def)

theorem key_config_read_error_dropped_witness:
  "\<exists>E :: unit externals.
     NewHttpKeyConfigSource E 9 (StaticMapURLSource [''a'' \<mapsto> ''g'']) ''a'' example_world
       = (Inr ''trunc'', example_world\<lparr>outbound := [\<lparr>rq_Method = ''GET'',
            rq_URL = ''g/.well-known/ohttp-configs'',
            rq_Header = [''Accept'' \<mapsto> [contentTypeOHTTPKeys], ''User-Agent'' \<mapsto> [''ohttp-relay'']],
            rq_Body = []\<rparr>]\<rparr>)"
proof -
  let ?rsp = "\<lparr>rs_StatusCode = 200, rs_Header = Map.empty, rs_Body = ''trunc'',
    rs_BodyErr = Some (LibraryError ''unexpected EOF'')\<rparr>"
  let ?E = "example_externals\<lparr>http_do := (\<lambda>_ _ x. (DoOk ?rsp, x))\<rparr>"
  let ?req = "\<lparr>rq_Method = ''GET'', rq_URL = ''g/.well-known/ohttp-configs'', rq_Header = Map.empty, rq_Body = []\<rparr>"
  have 1: "StaticMapURLSource [''a'' \<mapsto> ''g''] ''a'' example_world = (Inr ''g'', example_world)"
    by (simp add: StaticMapURLSource_def map_get_def)
  have 2: "NewRequest ?E ''GET'' (''g'' @ ohttpConfigsPath) [] = Inr ?req"
    by (simp add: NewRequest_def validMethod_def is_token_char_def ohttpConfigsPath_def example_externals_def)
  have 3: "Do ?E 9 (?req\<lparr>rq_Header := [''Accept'' \<mapsto> [contentTypeOHTTPKeys], ''User-Agent'' \<mapsto> [''ohttp-relay'']]\<rparr>)
      example_world = (DoOk ?rsp, example_world\<lparr>outbound :=
        [?req\<lparr>rq_Header := [''Accept'' \<mapsto> [contentTypeOHTTPKeys], ''User-Agent'' \<mapsto> [''ohttp-relay'']]\<rparr>]\<rparr>)"
    by (simp add: Do_def example_world_def)
  have "NewHttpKeyConfigSource ?E 9 (StaticMapURLSource [''a'' \<mapsto> ''g'']) ''a'' example_world
      = (Inr (rs_Body ?rsp), example_world\<lparr>outbound :=
          [?req\<lparr>rq_Header := [''Accept'' \<mapsto> [contentTypeOHTTPKeys], ''User-Agent'' \<mapsto> [''ohttp-relay'']]\<rparr>]\<rparr>)"
    by (rule key_config_read_error_dropped
        [where src = "StaticMapURLSource [''a'' \<mapsto> ''g'']" and host = "''a''" and w = example_world,
         OF 1 _ 2 3]) simp_all
  then show ?thesis by auto
qed

end
