(* ===== verification/Relayer.thy ===== *)
theory Relayer
  imports Gateway
begin

text \<open>
  \<open>pkg/ohttp-relay/relay/relayer.go\<close>: forwarding one opaque body to the gateway of a host.
  The locale \<open>relayer\<close> is the contract of the interface \<open>Relayer\<close> the stream handler relies
  on: at most one request leaves per call, exactly one when a response comes back, it carries
  the given body and nothing of the client but the content type, and the only metrics are
  those of the gateway request. \<open>HTTPRelayer\<close> keeps it over every URL source that keeps its
  own contract.
\<close>

type_synonym 'x RelayerFn =
  "string \<Rightarrow> bytes \<Rightarrow> string \<Rightarrow> string \<Rightarrow> 'x world \<Rightarrow> http_response result \<times> 'x world"

record 'x HTTPRelayer =
  hr_client :: duration \<comment> \<open>the HTTP client, by its timeout\<close>
  hr_gatewaySource :: "'x URLSource"

definition NewHTTPRelayer :: "duration \<Rightarrow> 'x URLSource \<Rightarrow> 'x HTTPRelayer" where
  "NewHTTPRelayer client gatewaySource = \<lparr>hr_client = client, hr_gatewaySource = gatewaySource\<rparr>"

text \<open>The clean header map of the request to the gateway.\<close>

definition relay_header :: "string \<Rightarrow> header" where
  "relay_header contentType =
     (let h = Map.empty;
          h = (if contentType \<noteq> [] then Header_Set h ''Content-Type'' contentType else h)
      in Header_Set h ''User-Agent'' '''')"

definition do_status :: "do_result \<Rightarrow> int" where
  "do_status r =
     (case r of DoOk rsp \<Rightarrow> rs_StatusCode rsp
      | DoErr _ (Some rsp) \<Rightarrow> rs_StatusCode rsp
      | DoErr _ None \<Rightarrow> 0)"

definition Relay :: "'x externals \<Rightarrow> 'x HTTPRelayer \<Rightarrow> 'x RelayerFn" where
  "Relay E r host body contentType meth w =
     (case Now E w of
        (start, w) \<Rightarrow>
          (case hr_gatewaySource r host w of
             (Inl err, w) \<Rightarrow> (Inl (Errorf ''get gateway mapping for host %q: %w'' [host] (Some err)), w)
           | (Inr gwURL, w) \<Rightarrow>
               if gwURL = [] then (Inl (Errorf ''host  %q: %w'' [host] (Some ErrNoGateway)), w)
               else
                 case NewRequest E meth gwURL body of
                   Inl err \<Rightarrow> (Inl (Errorf ''build relay request: %w'' [] (Some err)), w)
                 | Inr req \<Rightarrow>
                     let req = req\<lparr>rq_Header := relay_header contentType\<rparr>
                     in case Do E (hr_client r) req w of
                          (resp, w) \<Rightarrow>
                            (case Now E w of
                               (t, w) \<Rightarrow>
                                 let w = with_metrics (RecordGatewayRequest (do_status resp) (t - start)) w
                                 in case resp of
                                      DoErr err _ \<Rightarrow>
                                        (Inl (Errorf ''relay request failed: %w'' [] (Some err)), w)
                                    | DoOk rsp \<Rightarrow> (Inr rsp, w))))"


section \<open>The contract\<close>

definition relay_request :: "bytes \<Rightarrow> string \<Rightarrow> string \<Rightarrow> http_request \<Rightarrow> bool" where
  "relay_request body contentType meth req \<longleftrightarrow>
     rq_Body req = body \<and> rq_Method req = (if meth = [] then ''GET'' else meth) \<and>
     rq_Header req = (if contentType = [] then [''User-Agent'' \<mapsto> ['''']]
                      else [''Content-Type'' \<mapsto> [contentType], ''User-Agent'' \<mapsto> ['''']])"

text \<open>What one call may add to the world.\<close>

definition relay_effect ::
  "bytes \<Rightarrow> string \<Rightarrow> string \<Rightarrow> 'x world \<Rightarrow> http_request list \<Rightarrow> 'x world \<Rightarrow> bool" where
  "relay_effect body contentType meth w reqs w' \<longleftrightarrow>
     outbound w' = outbound w @ reqs \<and> length reqs \<le> 1
     \<and> list_all (relay_request body contentType meth) reqs
     \<and> pipelines w' = pipelines w
     \<and> (\<forall>i. counter_value i (metrics_log w') = counter_value i (metrics_log w)
            + (if i = GatewayRequestsTotal then of_nat (length reqs) else 0))"

locale relayer =
  fixes relay :: "'x RelayerFn"
  assumes relay_effect: "\<exists>reqs. relay_effect body ct m w reqs (snd (relay host body ct m w))"
    and relay_answer: "fst (relay host body ct m w) = Inr rsp \<Longrightarrow>
      length (outbound (snd (relay host body ct m w))) = Suc (length (outbound w))"
begin

lemma relay_answer_request:
  assumes "relay host body ct m w = (Inr rsp, w')"
  shows "\<exists>req. outbound w' = outbound w @ [req] \<and> relay_request body ct m req"
proof -
  obtain reqs where r: "relay_effect body ct m w reqs w'"
    using relay_effect [of body ct m w host] assms by auto
  moreover have "length reqs = 1"
    using r relay_answer [of host body ct m w rsp] assms by (simp add: relay_effect_def)
  ultimately show ?thesis
    by (auto simp: relay_effect_def length_Suc_conv)
qed

end

lemma relay_header_request:
  "NewRequest E m url body = Inr req \<Longrightarrow> relay_request body ct m (req\<lparr>rq_Header := relay_header ct\<rparr>)"
  using NewRequest_ok [of E m url body req]
  by (auto simp: relay_request_def relay_header_def Header_Set_def Let_def)

text \<open>Either nothing is sent and the call fails, or one request is sent and its status counted.\<close>

lemma Relay_cases:
  assumes "url_source (hr_gatewaySource r)"
  obtains (failed) err w' where "Relay E r host body ct m w = (Inl err, w')"
      "relay_effect body ct m w [] w'"
  | (sent) req res w' where "relay_effect body ct m w [req] w'"
      "Relay E r host body ct m w =
        ((case res of DoErr err _ \<Rightarrow> Inl (Errorf ''relay request failed: %w'' [] (Some err))
          | DoOk rsp \<Rightarrow> Inr rsp), w')"
proof -
  obtain t0 w0 where n0: "Now E w = (t0, w0)" by fastforce
  obtain u w1 where src: "hr_gatewaySource r host w0 = (u, w1)" by fastforce
  have keep: "metrics_log w1 = metrics_log w" "outbound w1 = outbound w" "pipelines w1 = pipelines w"
    using Now_frame [of E w] url_source.target_case [OF assms src] n0 by simp_all
  show thesis
  proof (cases "\<exists>url req. u = Inr url \<and> url \<noteq> [] \<and> NewRequest E m url body = Inr req")
    case True
    then obtain url req0 where url: "u = Inr url" "url \<noteq> []" and req0: "NewRequest E m url body = Inr req0"
      by blast
    define req where "req = req0\<lparr>rq_Header := relay_header ct\<rparr>"
    obtain res w2 where d: "Do E (hr_client r) req w1 = (res, w2)" by fastforce
    obtain t3 w3 where n3: "Now E w2 = (t3, w3)" by fastforce
    define w4 where "w4 = with_metrics (RecordGatewayRequest (do_status res) (t3 - t0)) w3"
    have "metrics_log w3 = metrics_log w" "outbound w3 = outbound w @ [req]" "pipelines w3 = pipelines w"
      using Do_frame [of E "hr_client r" req w1] Now_frame [of E w2] d n3 keep by simp_all
    moreover have "relay_request body ct m req"
      using relay_header_request [OF req0] by (simp add: req_def)
    ultimately have "relay_effect body ct m w [req] w4"
      by (simp add: relay_effect_def w4_def frame)
    moreover have "Relay E r host body ct m w =
      ((case res of DoErr err _ \<Rightarrow> Inl (Errorf ''relay request failed: %w'' [] (Some err))
        | DoOk rsp \<Rightarrow> Inr rsp), w4)"
      by (simp add: Relay_def n0 src url req0 req_def [symmetric] d n3 w4_def Let_def split: do_result.split)
    ultimately show thesis by (rule sent)
  next
    case False
    then have "\<exists>err. Relay E r host body ct m w = (Inl err, w1)"
      by (cases u; cases "NewRequest E m (projr u) body"; cases "projr u = []") (auto simp: Relay_def n0 src)
    then obtain err where "Relay E r host body ct m w = (Inl err, w1)" ..
    moreover have "relay_effect body ct m w [] w1" by (simp add: relay_effect_def keep)
    ultimately show thesis by (rule failed)
  qed
qed

sublocale url_source \<subseteq> http: relayer "Relay E (NewHTTPRelayer t target)" for E t
proof
  fix body ct m host and w :: "'x world" and rsp
  have src: "url_source (hr_gatewaySource (NewHTTPRelayer t target))"
    using url_source_axioms by (simp add: NewHTTPRelayer_def)
  show "\<exists>reqs. relay_effect body ct m w reqs (snd (Relay E (NewHTTPRelayer t target) host body ct m w))"
    by (rule Relay_cases [OF src, of E host body ct m w]) (metis snd_conv)+
  show "length (outbound (snd (Relay E (NewHTTPRelayer t target) host body ct m w))) = Suc (length (outbound w))"
    if "fst (Relay E (NewHTTPRelayer t target) host body ct m w) = Inr rsp"
    using that by (cases rule: Relay_cases [OF src, of E host body ct m w]) (auto simp: relay_effect_def)
qed


text \<open>A gateway that answers: the response comes back after exactly this request.\<close>

lemma Relay_answered:
  assumes "url_source src" and "\<And>w. fst (src host w) = Inr url" and "url \<noteq> []"
    and "NewRequest E m url body = Inr req"
    and "\<And>x. fst (http_do E t (req\<lparr>rq_Header := relay_header ct\<rparr>) x) = DoOk rsp"
  shows "\<exists>w'. Relay E (NewHTTPRelayer t src) host body ct m w = (Inr rsp, w')
     \<and> outbound w' = outbound w @ [req\<lparr>rq_Header := relay_header ct\<rparr>]"
proof -
  let ?req = "req\<lparr>rq_Header := relay_header ct\<rparr>"
  obtain t0 w0 where n0: "Now E w = (t0, w0)" by fastforce
  obtain w1 where src: "src host w0 = (Inr url, w1)" using assms(2) [of w0] by (metis prod.collapse)
  obtain w2 where d: "Do E t ?req w1 = (DoOk rsp, w2)"
    using assms(5) [of "env w1"] by (cases "http_do E t ?req (env w1)") (simp add: Do_def)
  obtain t3 w3 where n3: "Now E w2 = (t3, w3)" by fastforce
  have "outbound w3 = outbound w @ [?req]"
    using Now_case(2) [OF n3] Do_frame(2) [of E t ?req w1] d Now_case(2) [OF n0]
      url_source.target_case(2) [OF assms(1) src] by simp
  with n0 src assms(3,4) d n3 show ?thesis
    by (simp add: Relay_def NewHTTPRelayer_def Let_def frame)
qed


section \<open>Properties\<close>

text \<open>
  One relayed request. A call sends at most one request; a response means exactly one was
  sent; that request has the given body, the given method and a header with the content type
  and an empty user agent only; the gateway counter rises by the number of requests sent and
  no other counter moves; no pipeline goes to Redis. This holds over the static map and over
  the chain of map and Redis.
\<close>

lemma Relay_one_clean_request:
  assumes "src = StaticMapURLSource m \<or> src = ChainSources [StaticMapURLSource m, RedisTargetURL E r]"
    and "Relay E (NewHTTPRelayer t src) host body ct meth w = (res, w')"
  shows "\<exists>reqs. relay_effect body ct meth w reqs w' \<and> (\<not> is_err res \<longrightarrow> length reqs = 1)"
proof -
  have "relayer (Relay E (NewHTTPRelayer t src))"
    using assms(1) static_src.http.relayer_axioms chain_src.http.relayer_axioms by metis
  then obtain reqs where "relay_effect body ct meth w reqs w'"
    using relayer.relay_effect assms(2) by (metis snd_conv)
  moreover have "length (outbound w') = Suc (length (outbound w))" if "res = Inr rsp" for rsp
    using relayer.relay_answer [OF \<open>relayer _\<close>] assms(2) that by (metis fst_conv snd_conv)
  ultimately show ?thesis
    by (intro exI [of _ reqs]) (cases res; simp add: relay_effect_def)
qed

lemma Relay_one_clean_request_example:
  "\<exists>res w' reqs. Relay example_externals (NewHTTPRelayer 9 (StaticMapURLSource [''a'' \<mapsto> ''https://g'']))
       ''a'' ''opaque'' ''message/ohttp-req'' ''post'' example_world = (res, w')
     \<and> relay_effect ''opaque'' ''message/ohttp-req'' ''post'' example_world reqs w' \<and> length reqs = 1"
proof -
  let ?src = "StaticMapURLSource [''a'' \<mapsto> ''https://g''] :: unit URLSource"
  let ?r = "Relay example_externals (NewHTTPRelayer 9 ?src)
       ''a'' ''opaque'' ''message/ohttp-req'' ''post'' example_world"
  have "\<not> is_err (fst ?r)"
    by (simp add: Relay_def NewHTTPRelayer_def StaticMapURLSource_def map_get_def NewRequest_def
        validMethod_def is_token_char_def example_externals_def example_world_def Do_def Now_def Let_def)
  moreover have "?r = (fst ?r, snd ?r)" by simp
  ultimately show ?thesis
    using Relay_one_clean_request [of ?src "[''a'' \<mapsto> ''https://g'']"] by blast
qed

text \<open>
  A host the static map does not know fails with an error that is \<open>ErrNoGateway\<close> under
  \<open>errors.Is\<close>, and nothing is sent.
\<close>

lemma Relay_unknown_host:
  assumes "m host = None"
  shows "\<exists>err. fst (Relay E (NewHTTPRelayer t (StaticMapURLSource m)) host body ct meth w) = Inl err
     \<and> errors_Is err ErrNoGateway
     \<and> outbound (snd (Relay E (NewHTTPRelayer t (StaticMapURLSource m)) host body ct meth w)) = outbound w"
  using assms Now_frame(2) [of E w]
  by (auto simp: Relay_def NewHTTPRelayer_def StaticMapURLSource_def map_get_def split: prod.split)

lemma Relay_unknown_host_example:
  "\<exists>err. fst (Relay example_externals (NewHTTPRelayer 9 (StaticMapURLSource [''a'' \<mapsto> ''u''])) ''b''
       ''x'' ''message/ohttp-req'' ''post'' example_world) = Inl err \<and> errors_Is err ErrNoGateway"
  using Relay_unknown_host [of "[''a'' \<mapsto> ''u'']" "''b''" example_externals 9 "''x''"
      "''message/ohttp-req''" "''post''" example_world]
  by auto

end
