(* ===== verification/Traffic.thy ===== *)
theory Traffic
  imports World
begin

text \<open>
  \<open>pkg/ohttp-relay/traffic/metrics.go\<close>: traffic counters per host and hour, kept in Redis.
  The key names the UTC hour of the current time; the calendar is computed from the seconds
  since the epoch by cutting 400, 100, 4 and 1 year cycles of years that start in March. The
  locale \<open>traffic_recorder\<close> is the contract of the interface \<open>TrafficMetrics\<close>: recording
  traffic sends no HTTP request and touches no instrument.
\<close>

section \<open>The UTC hour of an instant\<close>

text \<open>Year, month and day of a day number counted from 1 March of the year 0.\<close>

definition civil :: "int \<Rightarrow> int \<times> int \<times> int" where
  "civil z =
     (let era = z div 146097; d = z mod 146097;
          c = d div 36524 - d div 36524 div 4; d = d - 36524 * c;
          q = d div 1461; d = d - 1461 * q;
          a = d div 365 - d div 365 div 4; doy = d - 365 * a;
          y = 400 * era + 100 * c + 4 * q + a;
          mp = (5 * doy + 2) div 153;
          day = doy - (153 * mp + 2) div 5 + 1
      in (if mp < 10 then (y, mp + 3, day) else (y + 1, mp - 9, day)))"

text \<open>1970-01-01 is day 719468 of this count.\<close>

definition utc_hour :: "instant \<Rightarrow> int \<times> int \<times> int \<times> int" where
  "utc_hour t =
     (let secs = t div 1000000000
      in case civil (secs div 86400 + 719468) of (y, m, d) \<Rightarrow> (y, m, d, secs mod 86400 div 3600))"

definition pad2 :: "int \<Rightarrow> string" where
  "pad2 n = [digit_char (n div 10), digit_char n]"

definition pad4 :: "int \<Rightarrow> string" where
  "pad4 n = (if 0 \<le> n \<and> n < 10000
             then [digit_char (n div 1000), digit_char (n div 100), digit_char (n div 10), digit_char n]
             else if n < 0 then ''-'' @ replicate (4 - length (dec_digits (- n))) CHR ''0'' @ dec_digits (- n)
             else dec_digits n)"

text \<open>\<open>Format("2006-01-02-15")\<close> in UTC.\<close>

definition format_hour :: "instant \<Rightarrow> string" where
  "format_hour t =
     (case utc_hour t of (y, m, d, h) \<Rightarrow> pad4 y @ ''-'' @ pad2 m @ ''-'' @ pad2 d @ ''-'' @ pad2 h)"


section \<open>Recording traffic\<close>

type_synonym 'x TrafficFn = "string \<Rightarrow> int64 \<Rightarrow> int64 \<Rightarrow> 'x world \<Rightarrow> go_error option \<times> 'x world"

record RedisTrafficMetrics =
  rtm_rdb :: "redis_options option"
  rtm_ttl :: duration

definition NewRedisTrafficMetrics ::
  "'x externals \<Rightarrow> redis_options option \<Rightarrow> duration \<Rightarrow> 'x world \<Rightarrow> RedisTrafficMetrics result \<times> 'x world" where
  "NewRedisTrafficMetrics E client ttl w =
     (let ttl = (if ttl \<le> 0 then 72 * 3600 * 1000000000 else ttl)
      in case client of
           None \<Rightarrow> (Inr \<lparr>rtm_rdb = client, rtm_ttl = ttl\<rparr>, w)
         | Some rdb \<Rightarrow>
             (case Ping E rdb (2 * 1000000000) w of
                (Some err, w) \<Rightarrow> (Inl (Errorf ''redis ping failed: %w'' [] (Some err)), w)
              | (None, w) \<Rightarrow> (Inr \<lparr>rtm_rdb = client, rtm_ttl = ttl\<rparr>, w)))"

definition generateKey :: "string \<Rightarrow> instant \<Rightarrow> string" where
  "generateKey host t = ''gateway:'' @ host @ '':traffic:'' @ format_hour t"

text \<open>The receiver may be nil, and so may its client.\<close>

definition RecordTraffic :: "'x externals \<Rightarrow> RedisTrafficMetrics option \<Rightarrow> 'x TrafficFn" where
  "RecordTraffic E r host bytesIn bytesOut w =
     (case r of
        None \<Rightarrow> (None, w)
      | Some r \<Rightarrow>
          (case rtm_rdb r of
             None \<Rightarrow> (None, w)
           | Some rdb \<Rightarrow>
               (case Now E w of
                  (t, w) \<Rightarrow>
                    let key = generateKey host t;
                        pipe = [HIncrBy key ''bytes_in'' bytesIn, HIncrBy key ''bytes_out'' bytesOut,
                                Expire key (rtm_ttl r)]
                    in case Pipeline_Exec E rdb pipe w of
                         (Some err, w) \<Rightarrow> (Some (Errorf ''failed to record traffic metrics: %w'' [] (Some err)), w)
                       | (None, w) \<Rightarrow> (None, w))))"

definition NoOpRecordTraffic :: "'x TrafficFn" where
  "NoOpRecordTraffic host bytesIn bytesOut w = (None, w)"


section \<open>The contract\<close>

locale traffic_recorder =
  fixes recordTraffic :: "'x TrafficFn"
  assumes record_metrics: "metrics_log (snd (recordTraffic host i out w)) = metrics_log w"
    and record_outbound: "outbound (snd (recordTraffic host i out w)) = outbound w"

lemma RecordTraffic_world:
  "snd (RecordTraffic E r host i out w) =
     (case r of None \<Rightarrow> w
      | Some r \<Rightarrow> (case rtm_rdb r of None \<Rightarrow> w
         | Some rdb \<Rightarrow> (case Now E w of (t, w) \<Rightarrow>
             snd (Pipeline_Exec E rdb
               [HIncrBy (generateKey host t) ''bytes_in'' i, HIncrBy (generateKey host t) ''bytes_out'' out,
                Expire (generateKey host t) (rtm_ttl r)] w))))"
  by (simp add: RecordTraffic_def Let_def split: option.split prod.split)

interpretation redis_traffic: traffic_recorder "RecordTraffic E r" for E r
proof
  fix host i out and w :: "'a world"
  show "metrics_log (snd (RecordTraffic E r host i out w)) = metrics_log w"
    "outbound (snd (RecordTraffic E r host i out w)) = outbound w"
    by (auto simp: RecordTraffic_world frame Now_case split: option.split prod.split)
qed

interpretation noop_traffic: traffic_recorder NoOpRecordTraffic
  by unfold_locales (simp_all add: NoOpRecordTraffic_def)


section \<open>The calendar\<close>

text \<open>The day number of a civil date.\<close>

definition day_number :: "int \<times> int \<times> int \<Rightarrow> int" where
  "day_number ymd =
     (case ymd of (y, m, d) \<Rightarrow>
        let y = (if m \<le> 2 then y - 1 else y); mp = (if m \<le> 2 then m + 9 else m - 3)
        in 365 * y + y div 4 - y div 100 + y div 400 + (153 * mp + 2) div 5 + d - 1)"

text \<open>
  Cutting whole cycles of \<open>L\<close> days off at most four of them, where the last day of the
  fourth belongs to the fourth.
\<close>

lemma cut_cycle:
  fixes d L :: int
  assumes "0 < L" "0 \<le> d" "d \<le> 4 * L"
  defines "n \<equiv> d div L - d div L div 4"
  shows "0 \<le> n \<and> n \<le> 3 \<and> 0 \<le> d - L * n \<and> d - L * n \<le> L"
proof (cases "d = 4 * L")
  case True
  then have "n = 3" using assms(1) by (simp add: n_def)
  with True show ?thesis using assms(1) by simp
next
  case False
  have "0 \<le> d div L" using assms by (simp add: pos_imp_zdiv_nonneg_iff)
  have "d div L < 4"
  proof (rule ccontr)
    assume "\<not> d div L < 4"
    then have "L * 4 \<le> L * (d div L)" using assms(1) by simp
    moreover have "L * (d div L) + d mod L = d" by simp
    ultimately show False using assms False pos_mod_sign [of L d] by linarith
  qed
  with \<open>0 \<le> d div L\<close> have n: "n = d div L" by (simp add: n_def)
  have "d - L * n = d mod L" by (simp add: n minus_mult_div_eq_mod)
  with assms(1) \<open>d div L < 4\<close> \<open>0 \<le> d div L\<close> show ?thesis by (simp add: n pos_mod_bound less_imp_le)
qed

text \<open>The parts of a day number: the year, counted from March, and the day in that year.\<close>

lemma civil_parts:
  obtains era c q a doy where
    "z = 146097 * era + 36524 * c + 1461 * q + 365 * a + doy"
    "0 \<le> c" "c \<le> 3" "0 \<le> q" "q \<le> 24" "0 \<le> a" "a \<le> 3" "0 \<le> doy" "doy \<le> 365"
    "civil z =
       (let y = 400 * era + 100 * c + 4 * q + a; mp = (5 * doy + 2) div 153;
            day = doy - (153 * mp + 2) div 5 + 1
        in (if mp < 10 then (y, mp + 3, day) else (y + 1, mp - 9, day)))"
proof -
  define d where "d = z mod 146097"
  define c where "c = d div 36524 - d div 36524 div 4"
  define d1 where "d1 = d - 36524 * c"
  define q where "q = d1 div 1461"
  define d2 where "d2 = d1 - 1461 * q"
  define a where "a = d2 div 365 - d2 div 365 div 4"
  have c: "0 \<le> c \<and> c \<le> 3 \<and> 0 \<le> d1 \<and> d1 \<le> 36524"
    unfolding c_def d1_def by (rule cut_cycle) (simp_all add: d_def pos_mod_bound [THEN zless_imp_add1_zle])
  have q: "0 \<le> q" "q \<le> 24" "0 \<le> d2" "d2 \<le> 1460"
    using c unfolding q_def d2_def by linarith+
  have a: "0 \<le> a \<and> a \<le> 3 \<and> 0 \<le> d2 - 365 * a \<and> d2 - 365 * a \<le> 365"
    unfolding a_def by (rule cut_cycle) (use q in simp_all)
  show thesis
  proof (rule that [of "z div 146097" c q a "d2 - 365 * a"])
    show "z = 146097 * (z div 146097) + 36524 * c + 1461 * q + 365 * a + (d2 - 365 * a)"
      by (simp add: d2_def d1_def d_def)
    show "civil z = (let y = 400 * (z div 146097) + 100 * c + 4 * q + a; mp = (5 * (d2 - 365 * a) + 2) div 153;
            day = (d2 - 365 * a) - (153 * mp + 2) div 5 + 1
        in (if mp < 10 then (y, mp + 3, day) else (y + 1, mp - 9, day)))"
      by (simp only: civil_def Let_def d_def [symmetric] c_def [symmetric] d1_def [symmetric]
          q_def [symmetric] d2_def [symmetric] a_def [symmetric])
  qed (use c q a in auto)
qed

text \<open>The calendar is right: the date has a valid month and day and counts back to its day number.\<close>

lemma day_number_civil: "day_number (civil z) = z"
proof (rule civil_parts [of z])
  fix era c q a doy
  assume z: "z = 146097 * era + 36524 * c + 1461 * q + 365 * a + doy"
    and b: "0 \<le> c" "c \<le> 3" "0 \<le> q" "q \<le> 24" "0 \<le> a" "a \<le> 3" "0 \<le> doy" "doy \<le> 365"
    and cz: "civil z =
       (let y = 400 * era + 100 * c + 4 * q + a; mp = (5 * doy + 2) div 153;
            day = doy - (153 * mp + 2) div 5 + 1
        in (if mp < 10 then (y, mp + 3, day) else (y + 1, mp - 9, day)))"
  define y where "y = 400 * era + 100 * c + 4 * q + a"
  define mp where "mp = (5 * doy + 2) div 153"
  have "0 \<le> mp" "mp \<le> 11" using b unfolding mp_def by linarith+
  then have "day_number (civil z) = 365 * y + y div 4 - y div 100 + y div 400 + doy"
    by (auto simp: cz day_number_def Let_def y_def [symmetric] mp_def [symmetric])
  moreover have "y div 4 = 100 * era + 25 * c + q" "y div 100 = 4 * era + c" "y div 400 = era"
    using b unfolding y_def by linarith+
  ultimately show ?thesis by (simp add: z y_def)
qed

lemma civil_bounds:
  assumes "civil z = (y, m, d)"
  shows "1 \<le> m" "m \<le> 12" "1 \<le> d" "d \<le> 31"
proof -
  obtain doy mp where doy: "0 \<le> doy" "doy \<le> 365" and mp: "mp = (5 * doy + 2) div 153"
    and md: "m = (if mp < 10 then mp + 3 else mp - 9)" "d = doy - (153 * mp + 2) div 5 + 1"
    by (rule civil_parts [of z]) (use assms in \<open>auto simp: Let_def split: if_splits\<close>)
  have "0 \<le> mp" "mp \<le> 11" using doy unfolding mp by linarith+
  then show "1 \<le> m" "m \<le> 12" by (auto simp: md)
  have "153 * mp \<le> 5 * doy + 2" "5 * doy + 2 < 153 * mp + 153" unfolding mp by linarith+
  then show "1 \<le> d" "d \<le> 31" unfolding md by linarith+
qed

section \<open>Keys name hours\<close>

abbreviation hour_number :: "instant \<Rightarrow> int" where
  "hour_number t \<equiv> t div 3600000000000"

lemma hour_parts: "hour_number t = 24 * (t div 1000000000 div 86400) + t div 1000000000 mod 86400 div 3600"
proof -
  define s where "s = t div 1000000000"
  have "hour_number t = s div 3600"
    by (simp add: s_def zdiv_zmult2_eq [symmetric])
  also have "\<dots> = (s mod 86400 + 24 * (s div 86400) * 3600) div 3600" by simp
  also have "\<dots> = 24 * (s div 86400) + s mod 86400 div 3600" by (simp only: div_mult_self1)
  finally show ?thesis by (simp add: s_def)
qed

lemma mixed_radix_eq_iff:
  fixes a b h k :: int
  shows "0 \<le> h \<Longrightarrow> h < n \<Longrightarrow> 0 \<le> k \<Longrightarrow> k < n \<Longrightarrow> n * a + h = n * b + k \<longleftrightarrow> a = b \<and> h = k"
proof
  assume h: "0 \<le> h" "h < n" "0 \<le> k" "k < n" and eq: "n * a + h = n * b + k"
  have "(n * a + h) div n = a" "(n * b + k) div n = b" using h by (simp_all add: add.commute)
  with eq have "a = b" by simp
  with eq show "a = b \<and> h = k" by simp
qed simp

lemma utc_hour_eq_iff: "utc_hour t = utc_hour t' \<longleftrightarrow> hour_number t = hour_number t'"
proof -
  define s s' where "s = t div 1000000000" and "s' = t' div 1000000000"
  have inj: "civil z = civil z' \<longleftrightarrow> z = z'" for z z' by (metis day_number_civil)
  have "utc_hour t = utc_hour t' \<longleftrightarrow>
      s div 86400 = s' div 86400 \<and> s mod 86400 div 3600 = s' mod 86400 div 3600"
    using inj [of "s div 86400 + 719468" "s' div 86400 + 719468"]
    by (auto simp: utc_hour_def Let_def s_def s'_def split: prod.splits)
  also have "\<dots> \<longleftrightarrow> 24 * (s div 86400) + s mod 86400 div 3600 = 24 * (s' div 86400) + s' mod 86400 div 3600"
  proof (rule mixed_radix_eq_iff [symmetric])
    show "s mod 86400 div 3600 < 24" "s' mod 86400 div 3600 < 24"
      using pos_mod_bound [of 86400 s] pos_mod_bound [of 86400 s'] by linarith+
  qed (simp_all add: pos_imp_zdiv_nonneg_iff)
  finally show ?thesis by (simp add: hour_parts s_def s'_def)
qed

lemma digit_char_eq_iff: "digit_char a = digit_char b \<longleftrightarrow> a mod 10 = b mod 10"
proof -
  have "distinct ''0123456789''" by simp
  moreover have "nat (a mod 10) < length ''0123456789''" "nat (b mod 10) < length ''0123456789''"
    by (simp_all add: nat_less_iff)
  ultimately have "digit_char a = digit_char b \<longleftrightarrow> nat (a mod 10) = nat (b mod 10)"
    unfolding digit_char_def by (rule nth_eq_iff_index_eq)
  then show ?thesis by (simp add: eq_nat_nat_iff)
qed

lemma last_digit_eq_iff:
  fixes a b :: int
  shows "a div 10 = b div 10 \<and> a mod 10 = b mod 10 \<longleftrightarrow> a = b"
  by (metis div_mult_mod_eq)

lemma pad2_eq_iff: "0 \<le> a \<Longrightarrow> a < 100 \<Longrightarrow> 0 \<le> b \<Longrightarrow> b < 100 \<Longrightarrow> pad2 a = pad2 b \<longleftrightarrow> a = b"
  by (simp add: pad2_def digit_char_eq_iff last_digit_eq_iff)

lemma pad4_eq_iff:
  assumes "0 \<le> a" "a < 10000" "0 \<le> b" "b < 10000"
  shows "pad4 a = pad4 b \<longleftrightarrow> a = b"
proof -
  have cut: "n div 10 div 10 = n div 100" "n div 100 div 10 = n div 1000" for n :: int
    by (simp_all add: zdiv_zmult2_eq [symmetric])
  have "pad4 a = pad4 b \<longleftrightarrow>
      ((a div 1000 = b div 1000 \<and> a div 100 mod 10 = b div 100 mod 10) \<and> a div 10 mod 10 = b div 10 mod 10)
      \<and> a mod 10 = b mod 10"
    using assms by (simp add: pad4_def digit_char_eq_iff)
  then show ?thesis
    using last_digit_eq_iff [of "a div 100" "b div 100"] last_digit_eq_iff [of "a div 10" "b div 10"]
      last_digit_eq_iff [of a b] by (simp only: cut)
qed

definition four_digit_year :: "instant \<Rightarrow> bool" where
  "four_digit_year t \<longleftrightarrow> 0 \<le> fst (utc_hour t) \<and> fst (utc_hour t) < 10000"

lemma utc_hour_bounds:
  assumes "utc_hour t = (y, m, d, h)"
  shows "1 \<le> m" "m \<le> 12" "1 \<le> d" "d \<le> 31" "0 \<le> h" "h \<le> 23"
proof -
  have "civil (t div 1000000000 div 86400 + 719468) = (y, m, d)"
    and h: "h = t div 1000000000 mod 86400 div 3600"
    using assms by (auto simp: utc_hour_def Let_def split: prod.splits)
  then show "1 \<le> m" "m \<le> 12" "1 \<le> d" "d \<le> 31" by (auto dest: civil_bounds)
  show "0 \<le> h" "h \<le> 23" unfolding h by linarith+
qed

lemma format_hour_eq_iff:
  assumes "four_digit_year t" "four_digit_year t'"
  shows "format_hour t = format_hour t' \<longleftrightarrow> hour_number t = hour_number t'"
proof -
  obtain y m d h where t: "utc_hour t = (y, m, d, h)" by (metis prod_cases4)
  obtain y' m' d' h' where t': "utc_hour t' = (y', m', d', h')" by (metis prod_cases4)
  have len: "length (pad4 y) = length (pad4 y')"
    using assms by (simp add: pad4_def four_digit_year_def t t')
  have "format_hour t = format_hour t' \<longleftrightarrow> pad4 y = pad4 y' \<and> pad2 m = pad2 m' \<and> pad2 d = pad2 d' \<and> pad2 h = pad2 h'"
    using len by (auto simp: format_hour_def t t' pad2_def)
  also have "\<dots> \<longleftrightarrow> utc_hour t = utc_hour t'"
    using assms utc_hour_bounds [OF t] utc_hour_bounds [OF t']
    by (simp add: pad4_eq_iff pad2_eq_iff four_digit_year_def t t')
  finally show ?thesis by (simp add: utc_hour_eq_iff)
qed

lemma length_format_hour: "four_digit_year t \<Longrightarrow> length (format_hour t) = 13"
  by (auto simp: format_hour_def four_digit_year_def pad4_def pad2_def split: prod.split)


section \<open>Properties\<close>

lemma generateKey_same:
  assumes "four_digit_year t" "four_digit_year t'"
  shows "generateKey host t = generateKey host' t' \<longleftrightarrow> host = host' \<and> hour_number t = hour_number t'"
proof -
  have "length (format_hour t) = length (format_hour t')"
    using assms by (simp add: length_format_hour)
  then have "generateKey host t = generateKey host' t' \<longleftrightarrow> host = host' \<and> format_hour t = format_hour t'"
    by (auto simp: generateKey_def)
  then show ?thesis using format_hour_eq_iff [OF assms] by simp
qed

text \<open>
  C26: a traffic key names one host and one UTC hour: for years of four digits two keys are
  equal exactly when the hosts are equal and the instants lie in the same hour, whatever
  bytes the hosts hold.
\<close>

theorem generateKey_eq_iff:
  assumes "four_digit_year t" "four_digit_year t'"
  shows "generateKey host t = generateKey host' t' \<longleftrightarrow> host = host' \<and> hour_number t = hour_number t'"
  using assms by (rule generateKey_same)

theorem generateKey_eq_iff_witness:
  "four_digit_year 1710513000000000000 \<and> four_digit_year 1710511200000000000 \<and>
   generateKey ''example.com'' 1710513000000000000 = ''gateway:example.com:traffic:2024-03-15-14'' \<and>
   generateKey ''example.com'' 1710513000000000000 = generateKey ''example.com'' 1710511200000000000"
proof -
  have y: "four_digit_year 1710513000000000000" "four_digit_year 1710511200000000000"
    by code_simp+
  moreover have "generateKey ''example.com'' 1710513000000000000 = ''gateway:example.com:traffic:2024-03-15-14''"
    by code_simp
  moreover have "generateKey ''example.com'' 1710513000000000000 = generateKey ''example.com'' 1710511200000000000"
    using generateKey_eq_iff [OF y] by simp
  ultimately show ?thesis by simp
qed

text \<open>
  C27: recording traffic hands Redis one pipeline: increment bytes_in, increment bytes_out,
  set the expiry, all on the key of the host and the current hour. Every call sets the
  expiry, also when the key exists, so the lifetime of a key starts anew each time.
\<close>

theorem RecordTraffic_pipeline:
  assumes "rtm_rdb r = Some rdb" and "Now E w = (t, w1)"
  shows "pipelines (snd (RecordTraffic E (Some r) host bytesIn bytesOut w)) = pipelines w @
     [[HIncrBy (generateKey host t) ''bytes_in'' bytesIn,
       HIncrBy (generateKey host t) ''bytes_out'' bytesOut,
       Expire (generateKey host t) (rtm_ttl r)]]"
  using assms by (simp add: RecordTraffic_world frame Now_case)

theorem RecordTraffic_pipeline_witness:
  "\<exists>r rdb w1. rtm_rdb r = Some rdb \<and> Now example_externals example_world = (0, w1) \<and>
     pipelines (snd (RecordTraffic example_externals (Some r) ''h'' 100 200 example_world)) =
       [[HIncrBy ''gateway:h:traffic:1970-01-01-00'' ''bytes_in'' 100,
         HIncrBy ''gateway:h:traffic:1970-01-01-00'' ''bytes_out'' 200,
         Expire ''gateway:h:traffic:1970-01-01-00'' 5]]"
proof -
  let ?rdb = "\<lparr>ro_Addr = ''r:6379'', ro_Password = '''', ro_DB = 0, ro_TLS = False\<rparr>"
  let ?r = "\<lparr>rtm_rdb = Some ?rdb, rtm_ttl = 5\<rparr>"
  have n: "Now example_externals example_world = (0, example_world)"
    by (simp add: Now_def example_externals_def example_world_def)
  have k: "generateKey ''h'' 0 = ''gateway:h:traffic:1970-01-01-00''" by code_simp
  have "pipelines example_world = []" by (simp add: example_world_def)
  with RecordTraffic_pipeline [of ?r ?rdb, OF _ n, of "''h''" 100 200] n k show ?thesis
    by (intro exI [of _ ?r] exI [of _ ?rdb]) simp
qed

text \<open>The counters of a Redis store, and what increments do to them.\<close>

type_synonym redis_counters = "string \<times> string \<Rightarrow> int64"

fun apply_cmd :: "redis_cmd \<Rightarrow> redis_counters \<Rightarrow> redis_counters" where
  "apply_cmd (HIncrBy k f n) s = s((k, f) := s (k, f) + n)"
| "apply_cmd (Expire k d) s = s"

text \<open>
  The ledger the store stands for: the bytes in and out of every host in every hour whose year
  has four digits. An hour is its number since the epoch.
\<close>

type_synonym ledger = "string \<times> int \<Rightarrow> int64 \<times> int64"

definition hour_start :: "int \<Rightarrow> instant" where
  "hour_start hr = hr * 3600000000000"

definition ledger_of :: "redis_counters \<Rightarrow> ledger" where
  "ledger_of s = (\<lambda>(host, hr).
     if four_digit_year (hour_start hr)
     then (s (generateKey host (hour_start hr), ''bytes_in''), s (generateKey host (hour_start hr), ''bytes_out''))
     else (0, 0))"

text \<open>Booking an entry: host, hour, bytes in and bytes out.\<close>

fun book :: "string \<times> int \<times> int64 \<times> int64 \<Rightarrow> ledger \<Rightarrow> ledger" where
  "book (host, hr, i, out) l = l((host, hr) := (fst (l (host, hr)) + i, snd (l (host, hr)) + out))"

text \<open>A sequence of calls, and the entries they stand for with the hours the clock shows.\<close>

fun record_calls :: "'x TrafficFn \<Rightarrow> (string \<times> int64 \<times> int64) list \<Rightarrow> 'x world \<Rightarrow> 'x world" where
  "record_calls rec [] w = w"
| "record_calls rec ((host, i, out) # cs) w = record_calls rec cs (snd (rec host i out w))"

fun entries :: "'x externals \<Rightarrow> 'x TrafficFn \<Rightarrow> (string \<times> int64 \<times> int64) list \<Rightarrow> 'x world \<Rightarrow>
    (string \<times> int \<times> int64 \<times> int64) list" where
  "entries E rec [] w = []"
| "entries E rec ((host, i, out) # cs) w =
     (host, hour_number (fst (time_now E (env w))), i, out) # entries E rec cs (snd (rec host i out w))"

lemma utc_hour_of_hour: "hour_number t = hour_number t' \<Longrightarrow> utc_hour t = utc_hour t'"
  by (simp add: utc_hour_eq_iff)

lemma hour_number_start [simp]: "hour_number (hour_start hr) = hr"
  by (simp add: hour_start_def)

lemma four_digit_hour: "four_digit_year (hour_start (hour_number t)) = four_digit_year t"
  by (simp add: four_digit_year_def utc_hour_of_hour [of "hour_start (hour_number t)" t])

lemma ledger_of_increments:
  assumes t: "four_digit_year t"
  shows "ledger_of (s((generateKey host t, ''bytes_in'') := s (generateKey host t, ''bytes_in'') + i,
                      (generateKey host t, ''bytes_out'') := s (generateKey host t, ''bytes_out'') + out)) =
     book (host, hour_number t, i, out) (ledger_of s)"
proof
  fix p :: "string \<times> int"
  obtain host' hr where p: "p = (host', hr)" by fastforce
  have own: "generateKey host (hour_start (hour_number t)) = generateKey host t"
    using generateKey_same [of "hour_start (hour_number t)" t host host] t by (simp add: four_digit_hour)
  show "ledger_of (s((generateKey host t, ''bytes_in'') := s (generateKey host t, ''bytes_in'') + i,
        (generateKey host t, ''bytes_out'') := s (generateKey host t, ''bytes_out'') + out)) p =
      book (host, hour_number t, i, out) (ledger_of s) p"
  proof (cases "four_digit_year (hour_start hr)")
    case True
    from generateKey_same [OF this t, of host' host]
    have "generateKey host' (hour_start hr) = generateKey host t \<longleftrightarrow> host' = host \<and> hr = hour_number t" by simp
    with True own show ?thesis by (auto simp: p ledger_of_def)
  next
    case False
    then have "\<not> (host' = host \<and> hr = hour_number t)" using t by (auto simp: four_digit_hour)
    with False show ?thesis by (auto simp: p ledger_of_def)
  qed
qed

text \<open>One call is one entry.\<close>

lemma RecordTraffic_books:
  assumes "rtm_rdb r = Some rdb" and "\<And>x. store (snd (time_now E x)) = store x"
    and "\<And>cmds x. store (snd (redis_exec E rdb cmds x)) = fold apply_cmd cmds (store x)"
    and "\<And>x. four_digit_year (fst (time_now E x))"
  shows "ledger_of (store (env (snd (RecordTraffic E (Some r) host i out w)))) =
     book (host, hour_number (fst (time_now E (env w))), i, out) (ledger_of (store (env w)))"
proof -
  obtain t x where n: "time_now E (env w) = (t, x)" by fastforce
  then have st: "store x = store (env w)" and t: "four_digit_year t"
    using assms(2,4) [of "env w"] by simp_all
  have "store (env (snd (RecordTraffic E (Some r) host i out w))) =
     (store (env w))((generateKey host t, ''bytes_in'') := store (env w) (generateKey host t, ''bytes_in'') + i,
                     (generateKey host t, ''bytes_out'') := store (env w) (generateKey host t, ''bytes_out'') + out)"
    by (simp add: RecordTraffic_world assms(1,3) Now_def n env_calls st)
  with ledger_of_increments [OF t] n show ?thesis by simp
qed

text \<open>
  The counters in Redis are a ledger of traffic by host and hour. Over a store that
  executes the commands of a pipeline in order, any sequence of calls, for any hosts and over
  any time, leaves the ledger that booking each call under its host and the UTC hour of its
  moment gives: the sums of an entry add up and no other entry changes.
\<close>

lemma RecordTraffic_refines_ledger:
  assumes "rtm_rdb r = Some rdb" and "\<And>x. store (snd (time_now E x)) = store x"
    and "\<And>cmds x. store (snd (redis_exec E rdb cmds x)) = fold apply_cmd cmds (store x)"
    and "\<And>x. four_digit_year (fst (time_now E x))"
  shows "ledger_of (store (env (record_calls (RecordTraffic E (Some r)) cs w))) =
     fold book (entries E (RecordTraffic E (Some r)) cs w) (ledger_of (store (env w)))"
proof (induction cs arbitrary: w)
  case (Cons c cs)
  then show ?case
    by (cases c) (simp add: RecordTraffic_books [where store = store, OF assms] del: book.simps)
qed simp

text \<open>A Redis that is its counters, with a clock that stands at the epoch.\<close>

definition example_redis :: "redis_counters externals" where
  "example_redis =
     \<lparr>uni_lower = id, time_now = (\<lambda>x. (0, x)), parse_url_err = (\<lambda>_. None),
      http_do = (\<lambda>_ _ x. (DoErr EOF None, x)), redis_hget = (\<lambda>_ _ _ _ x. (Inl RedisNil, x)),
      redis_exec = (\<lambda>_ cmds x. (None, fold apply_cmd cmds x)), redis_ping = (\<lambda>_ _ x. (None, x))\<rparr>"

lemma RecordTraffic_refines_ledger_example:
  "\<exists>r w. ledger_of (env (record_calls (RecordTraffic example_redis (Some r))
         [(''h'', 100, 200), (''g'', 7, 8), (''h'', 150, 250)] w)) (''h'', 0) = (250, 450)"
proof -
  let ?rdb = "\<lparr>ro_Addr = ''r:6379'', ro_Password = [], ro_DB = 0, ro_TLS = False\<rparr>"
  let ?r = "\<lparr>rtm_rdb = Some ?rdb, rtm_ttl = 5\<rparr>"
  let ?w = "\<lparr>env = (\<lambda>_. 0), metrics_log = [], outbound = [], pipelines = []\<rparr> :: redis_counters world"
  let ?cs = "[(''h'', 100, 200), (''g'', 7, 8), (''h'', 150, 250)] :: (string \<times> int64 \<times> int64) list"
  have y: "four_digit_year 0" by code_simp
  have "ledger_of (id (env (record_calls (RecordTraffic example_redis (Some ?r)) ?cs ?w))) =
      fold book (entries example_redis (RecordTraffic example_redis (Some ?r)) ?cs ?w) (ledger_of (id (env ?w)))"
    by (rule RecordTraffic_refines_ledger [where rdb = ?rdb and store = id]) (simp_all add: example_redis_def y)
  moreover have "entries example_redis rec ?cs w = [(''h'', 0, 100, 200), (''g'', 0, 7, 8), (''h'', 0, 150, 250)]" for rec w
    by (simp add: example_redis_def)
  moreover have "ledger_of (\<lambda>_. 0) q = (0, 0)" for q by (cases q) (simp add: ledger_of_def)
  ultimately have "ledger_of (env (record_calls (RecordTraffic example_redis (Some ?r)) ?cs ?w)) (''h'', 0) = (250, 450)"
    by (simp del: record_calls.simps entries.simps)
  then show ?thesis by blast
qed

end
