(* ===== verification/Handlers.thy ===== *)
theory Handlers
  imports Relayer Traffic
begin

text \<open>
  \<open>pkg/ohttp-relay/handlers/server.go\<close>: the external processor that handles one Envoy
  stream. A stream is a sequence of events, each what one turn of the loop of \<open>Process\<close>
  meets: the context is done, or \<open>Recv\<close> returns a message or an error. The end of the
  sequence means that \<open>Recv\<close> has not returned yet, so a finite sequence is any point in the
  life of a stream. \<open>send\<close> is the \<open>Send\<close> of the stream. Log output is not modelled; the
  internal message of an error response, which goes to the log only, is kept as an argument.
\<close>

section \<open>Messages\<close>

definition ContentTypeOHTTPReq :: string where "ContentTypeOHTTPReq = ''message/ohttp-req''"
definition ContentTypeOHTTPRes :: string where "ContentTypeOHTTPRes = ''message/ohttp-res''"
definition ContentTypeOHTTPKeys :: string where "ContentTypeOHTTPKeys = ''application/ohttp-keys''"

definition configsPath :: string where "configsPath = ''/.well-known/ohttp-configs''"

record HeaderValue =
  hv_Key :: string
  hv_Value :: string
  hv_RawValue :: bytes

text \<open>\<open>hh_Headers\<close> is \<open>None\<close> for a nil header map.\<close>

record HttpHeaders =
  hh_Headers :: "HeaderValue list option"

record HttpBody =
  hb_Body :: bytes
  hb_EndOfStream :: bool

text \<open>The request of a processing message; \<open>NoRequest\<close> is a message without one.\<close>

datatype ProcessingRequest =
    RequestHeaders "HttpHeaders option"
  | RequestBody HttpBody
  | RequestTrailers
  | ResponseHeaders
  | ResponseBody
  | ResponseTrailers
  | NoRequest

record ImmediateResponse =
  ir_Status :: "int option"
  ir_SetHeaders :: "(string \<times> bytes) list"
  ir_Body :: bytes

datatype ProcessingResponse =
    PR_Immediate ImmediateResponse
  | PR_Other

text \<open>Details of an error that are logged and never sent: a format with arguments, or an error.\<close>

datatype detail = Detail string "string list" | ErrorDetail string go_error


section \<open>State\<close>

record streamState =
  st_host :: string
  st_configRequest :: bool
  st_reqContentType :: string
  st_httpMethod :: string
  st_body :: bytes

record 'x Server =
  sv_streaming :: bool
  sv_relayer :: "'x RelayerFn"
  sv_keyConfigSource :: "'x KeyConfigSource"
  sv_maxRequestBodySize :: int64
  sv_trafficMetrics :: "'x TrafficFn option"

definition NewServer ::
  "'x RelayerFn \<Rightarrow> 'x KeyConfigSource \<Rightarrow> int64 \<Rightarrow> 'x TrafficFn option \<Rightarrow> 'x Server" where
  "NewServer rl ks maxRequestBodySize trafficMetrics =
     \<lparr>sv_streaming = False, sv_relayer = rl, sv_keyConfigSource = ks,
      sv_maxRequestBodySize = maxRequestBodySize, sv_trafficMetrics = trafficMetrics\<rparr>"

text \<open>
  The variables of \<open>Process\<close>; \<open>pr_sent\<close> collects, for the specification, every response
  handed to \<open>Send\<close>.
\<close>

record proc =
  pr_st :: streamState
  pr_reqSize :: int64
  pr_respSize :: int64
  pr_statusCode :: int
  pr_sent :: "ProcessingResponse list"


section \<open>Error responses\<close>

definition status_texts :: "(int \<times> string) list" where
  "status_texts =
    [(100, ''Continue''), (101, ''Switching Protocols''), (102, ''Processing''), (103, ''Early Hints''),
     (200, ''OK''), (201, ''Created''), (202, ''Accepted''), (203, ''Non-Authoritative Information''),
     (204, ''No Content''), (205, ''Reset Content''), (206, ''Partial Content''), (207, ''Multi-Status''),
     (208, ''Already Reported''), (226, ''IM Used''),
     (300, ''Multiple Choices''), (301, ''Moved Permanently''), (302, ''Found''), (303, ''See Other''),
     (304, ''Not Modified''), (305, ''Use Proxy''), (307, ''Temporary Redirect''), (308, ''Permanent Redirect''),
     (400, ''Bad Request''), (401, ''Unauthorized''), (402, ''Payment Required''), (403, ''Forbidden''),
     (404, ''Not Found''), (405, ''Method Not Allowed''), (406, ''Not Acceptable''),
     (407, ''Proxy Authentication Required''), (408, ''Request Timeout''), (409, ''Conflict''), (410, ''Gone''),
     (411, ''Length Required''), (412, ''Precondition Failed''), (413, ''Request Entity Too Large''),
     (414, ''Request URI Too Long''), (415, ''Unsupported Media Type''),
     (416, ''Requested Range Not Satisfiable''), (417, ''Expectation Failed''),
     (418, ''I'' @ [CHR 0x27] @ ''m a teapot''), (421, ''Misdirected Request''),
     (422, ''Unprocessable Entity''), (423, ''Locked''), (424, ''Failed Dependency''), (425, ''Too Early''),
     (426, ''Upgrade Required''), (428, ''Precondition Required''), (429, ''Too Many Requests''),
     (431, ''Request Header Fields Too Large''), (451, ''Unavailable For Legal Reasons''),
     (500, ''Internal Server Error''), (501, ''Not Implemented''), (502, ''Bad Gateway''),
     (503, ''Service Unavailable''), (504, ''Gateway Timeout''), (505, ''HTTP Version Not Supported''),
     (506, ''Variant Also Negotiates''), (507, ''Insufficient Storage''), (508, ''Loop Detected''),
     (510, ''Not Extended''), (511, ''Network Authentication Required'')]"

text \<open>\<open>http.StatusText\<close>\<close>

definition StatusText :: "int \<Rightarrow> string" where
  "StatusText code = (case map_of status_texts code of None \<Rightarrow> [] | Some t \<Rightarrow> t)"

text \<open>The switch from HTTP codes to Envoy's status codes, whose values are the HTTP codes.\<close>

definition envoy_status :: "int \<Rightarrow> int" where
  "envoy_status code =
     (if code = 400 then 400 else if code = 401 then 401 else if code = 403 then 403
      else if code = 404 then 404 else if code = 405 then 405 else if code = 413 then 413
      else if code = 429 then 429 else if code = 502 then 502 else if code = 503 then 503
      else if code = 504 then 504 else 500)"

definition immediateErrorResponse :: "int \<Rightarrow> detail \<Rightarrow> ProcessingResponse list" where
  "immediateErrorResponse code internalMsg =
     (let statusCode = envoy_status code;
          clientMsg = StatusText code;
          clientMsg = (if clientMsg = [] then ''Error'' else clientMsg)
      in [PR_Immediate \<lparr>ir_Status = Some statusCode, ir_SetHeaders = [(''content-type'', ''text/plain'')],
                        ir_Body = clientMsg\<rparr>])"


section \<open>Headers\<close>

definition extractHeaderValue :: "(rune \<Rightarrow> rune) \<Rightarrow> HttpHeaders option \<Rightarrow> string \<Rightarrow> bytes" where
  "extractHeaderValue lc req headerKey =
     (let headerKeyInLower = ToLower lc headerKey
      in case req of
           None \<Rightarrow> []
         | Some hs \<Rightarrow>
             (case hh_Headers hs of
                None \<Rightarrow> []
              | Some kvs \<Rightarrow>
                  (case find (\<lambda>kv. ToLower lc (hv_Key kv) = headerKeyInLower) kvs of
                     None \<Rightarrow> []
                   | Some kv \<Rightarrow> hv_RawValue kv)))"

definition respondKeyConfig ::
  "(rune \<Rightarrow> rune) \<Rightarrow> 'x Server \<Rightarrow> HttpHeaders option \<Rightarrow> streamState \<Rightarrow> 'x world \<Rightarrow>
   ProcessingResponse list result \<times> 'x world" where
  "respondKeyConfig lc s headers st w =
     (if st_httpMethod st \<noteq> ''get'' then
        (Inr (immediateErrorResponse 405
           (Detail ''GET method required for OHTTP configs but was %q'' [st_httpMethod st])), w)
      else
        let acceptHeader = ToLower lc (extractHeaderValue lc headers ''accept'')
        in if acceptHeader \<noteq> ContentTypeOHTTPKeys then
             (Inr (immediateErrorResponse 400
                (Detail ''Accept header must be application/ohttp-keys for OHTTP configs'' [])), w)
           else
             case sv_keyConfigSource s (st_host st) w of
               (Inl err, w) \<Rightarrow>
                 (Inr (immediateErrorResponse 500 (ErrorDetail ''failed to get key config: %v'' err)), w)
             | (Inr respBytes, w) \<Rightarrow>
                 (Inr [PR_Immediate \<lparr>ir_Status = Some 200,
                        ir_SetHeaders = [(''content-type'', ContentTypeOHTTPKeys)],
                        ir_Body = respBytes\<rparr>], w))"


section \<open>Forwarding\<close>

definition forwardAndRespond ::
  "'x Server \<Rightarrow> streamState \<Rightarrow> 'x world \<Rightarrow> ProcessingResponse list result \<times> 'x world" where
  "forwardAndRespond s st w =
     (if st_configRequest st then (Inl (ErrorsNew ''config request not allowed''), w)
      else
        let contentType =
              (if st_reqContentType st \<noteq> [] \<and> \<not> EqualFold (st_reqContentType st) ContentTypeOHTTPReq
               then st_reqContentType st else ContentTypeOHTTPReq)
        in case sv_relayer s (st_host st) (st_body st) contentType (st_httpMethod st) w of
             (Inl err, w) \<Rightarrow>
               if errors_Is err ErrNoGateway
               then (Inr (immediateErrorResponse 502 (ErrorDetail ''%v'' err)), w)
               else (Inr (immediateErrorResponse 502 (ErrorDetail ''relay request failed: %v'' err)), w)
           | (Inr resp, w) \<Rightarrow>
               (case ReadAll resp of
                  (_, Some readErr) \<Rightarrow>
                    (Inr (immediateErrorResponse 502 (ErrorDetail ''failed reading relay response: %v'' readErr)), w)
                | (respBytes, None) \<Rightarrow>
                    if go_div (rs_StatusCode resp) 100 \<noteq> 2 then
                      (Inr (immediateErrorResponse 502 (Detail ''gateway status %d'' [fmt_d (rs_StatusCode resp)])), w)
                    else
                      let bytesIn = len64 (st_body st);
                          bytesOut = len64 respBytes;
                          w = with_metrics (RecordTrafficIO (st_host st) bytesIn bytesOut) w;
                          w = (case sv_trafficMetrics s of
                                 None \<Rightarrow> w
                               | Some record \<Rightarrow> snd (record (st_host st) bytesIn bytesOut w))
                      in (Inr [PR_Immediate \<lparr>ir_Status = Some 200,
                                ir_SetHeaders = [(''content-type'', ContentTypeOHTTPRes)],
                                ir_Body = respBytes\<rparr>], w)))"


section \<open>Process\<close>

text \<open>
  The branch for request headers. The code also reads the header \<open>x-request-id\<close> first, and
  only to name it in the log, which is not modelled.
\<close>

definition on_request_headers ::
  "(rune \<Rightarrow> rune) \<Rightarrow> 'x Server \<Rightarrow> HttpHeaders option \<Rightarrow> streamState \<Rightarrow> 'x world \<Rightarrow>
   ProcessingResponse list result \<times> streamState \<times> 'x world" where
  "on_request_headers lc s v st w =
     (let httpMethod = ToLower lc (extractHeaderValue lc v '':method'');
          httpMethod = (if httpMethod = [] then ToLower lc (extractHeaderValue lc v ''method'') else httpMethod);
          host = ToLower lc (extractHeaderValue lc v '':authority'');
          host = (if host = [] then ToLower lc (extractHeaderValue lc v ''host'') else host);
          st = st\<lparr>st_httpMethod := httpMethod, st_host := host,
                  st_reqContentType := extractHeaderValue lc v ''content-type''\<rparr>
      in if extractHeaderValue lc v '':path'' = configsPath then
           (case respondKeyConfig lc s v st w of (r, w) \<Rightarrow> (r, st\<lparr>st_configRequest := True\<rparr>, w))
         else if st_httpMethod st \<noteq> ''post'' then
           (Inr (immediateErrorResponse 405
              (Detail ''POST method required for OHTTP configs but was %q'' [st_httpMethod st])), st, w)
         else if st_reqContentType st \<noteq> [] \<and> \<not> EqualFold (st_reqContentType st) ContentTypeOHTTPReq then
           (Inr (immediateErrorResponse 415
              (Detail ''unsupported content-type %q'' [st_reqContentType st])), st, w)
         else
           let contentLen = extractHeaderValue lc v ''content-length''
           in if contentLen = [] \<or> contentLen = ''0'' then
                (Inr (immediateErrorResponse 411
                   (Detail ''content-length header must be present and greater than 0'' [])), st, w)
              else (Inr [], st, w))"

text \<open>The branch for a piece of the request body. The sum of the sizes is an \<open>int64\<close>.\<close>

definition on_request_body ::
  "'x Server \<Rightarrow> HttpBody \<Rightarrow> streamState \<Rightarrow> 'x world \<Rightarrow>
   ProcessingResponse list result \<times> streamState \<times> 'x world" where
  "on_request_body s v st w =
     (let bodyLen = len64 (hb_Body v)
      in if sint (sv_maxRequestBodySize s) < sint (len64 (st_body st) + bodyLen) then
           (Inr (immediateErrorResponse 413 (Detail ''request body too large'' [])), st\<lparr>st_body := []\<rparr>, w)
         else
           let st = st\<lparr>st_body := st_body st @ hb_Body v\<rparr>
           in if hb_EndOfStream v
              then (case forwardAndRespond s st w of (r, w) \<Rightarrow> (r, st, w))
              else (Inr [], st, w))"

datatype control = Continue | Return "go_error option"

text \<open>\<open>status.Errorf\<close> gives no error for the code OK.\<close>

definition status_Errorf :: "grpc_code \<Rightarrow> string \<Rightarrow> go_error option" where
  "status_Errorf c f = (if c = OK then None else Some (StatusError c f []))"

text \<open>Status code and size taken from a response before it is sent.\<close>

definition note_response :: "ProcessingResponse \<Rightarrow> proc \<Rightarrow> proc" where
  "note_response resp p =
     (let p = (case resp of
                 PR_Immediate ir \<Rightarrow>
                   p\<lparr>pr_statusCode := (case ir_Status ir of Some c \<Rightarrow> c | None \<Rightarrow> pr_statusCode p),
                     pr_respSize := pr_respSize p + len64 (ir_Body ir)\<rparr>
               | PR_Other \<Rightarrow> p)
      in p\<lparr>pr_sent := pr_sent p @ [resp]\<rparr>)"

text \<open>The loop that sends the responses of one message.\<close>

fun send_responses ::
  "(ProcessingResponse \<Rightarrow> 'x \<Rightarrow> go_error option \<times> 'x) \<Rightarrow> ProcessingResponse list \<Rightarrow> proc \<Rightarrow> 'x world \<Rightarrow>
   control \<times> proc \<times> 'x world" where
  "send_responses send [] p w = (Continue, p, w)"
| "send_responses send (resp # responses) p w =
     (let p = note_response resp p
      in case send resp (env w) of
           (Some err, x) \<Rightarrow>
             (Return (status_Errorf Unknown ''failed to send response back to Envoy: %v''), p,
              with_metrics (RecordError ''send_error'') (w\<lparr>env := x\<rparr>))
         | (None, x) \<Rightarrow> send_responses send responses p (w\<lparr>env := x\<rparr>))"

text \<open>The type switch on a received message: \<open>None\<close> for a message of unknown type.\<close>

definition dispatch ::
  "(rune \<Rightarrow> rune) \<Rightarrow> 'x Server \<Rightarrow> ProcessingRequest \<Rightarrow> proc \<Rightarrow> 'x world \<Rightarrow>
   ProcessingResponse list result option \<times> proc \<times> 'x world" where
  "dispatch lc s req p w =
     (case req of
        RequestHeaders v \<Rightarrow>
          (case on_request_headers lc s v (pr_st p) w of (r, st, w) \<Rightarrow> (Some r, p\<lparr>pr_st := st\<rparr>, w))
      | RequestBody v \<Rightarrow>
          (let p = p\<lparr>pr_reqSize := pr_reqSize p + len64 (hb_Body v)\<rparr>
           in case on_request_body s v (pr_st p) w of (r, st, w) \<Rightarrow> (Some r, p\<lparr>pr_st := st\<rparr>, w))
      | RequestTrailers \<Rightarrow> (Some (Inr []), p, w)
      | ResponseHeaders \<Rightarrow> (Some (Inr []), p, w)
      | ResponseBody \<Rightarrow> (Some (Inr []), p, w)
      | _ \<Rightarrow> (None, p, w))"

datatype stream_event = CtxDone go_error | Recv "ProcessingRequest result"

text \<open>One turn of the loop.\<close>

definition process_step ::
  "'x externals \<Rightarrow> (ProcessingResponse \<Rightarrow> 'x \<Rightarrow> go_error option \<times> 'x) \<Rightarrow> 'x Server \<Rightarrow> stream_event \<Rightarrow>
   proc \<Rightarrow> 'x world \<Rightarrow> control \<times> proc \<times> 'x world" where
  "process_step E send s ev p w =
     (case ev of
        CtxDone err \<Rightarrow> (Return (Some err), p, w)
      | Recv (Inl recvErr) \<Rightarrow>
          if recvErr = EOF \<or> errors_Is recvErr CtxCanceled then (Return None, p, w)
          else (Return (status_Errorf Unknown ''cannot receive stream request: %v''), p,
                with_metrics (RecordError ''recv_error'') w)
      | Recv (Inr req) \<Rightarrow>
          (case dispatch (uni_lower E) s req p w of
             (None, p, w) \<Rightarrow>
               (Return (status_Errorf Unknown ''unknown request type''), p,
                with_metrics (RecordError ''unknown_request_type'') w)
           | (Some (Inl err), p, w) \<Rightarrow>
               (Return (status_Errorf (status_Code err) ''failed to handle request: %v''), p,
                with_metrics (RecordError ''process_error'') w)
           | (Some (Inr responses), p, w) \<Rightarrow> send_responses send responses p w))"

text \<open>The loop: \<open>None\<close> while \<open>Recv\<close> has not returned, else what \<open>Process\<close> returns.\<close>

fun process_loop ::
  "'x externals \<Rightarrow> (ProcessingResponse \<Rightarrow> 'x \<Rightarrow> go_error option \<times> 'x) \<Rightarrow> 'x Server \<Rightarrow> stream_event list \<Rightarrow>
   proc \<Rightarrow> 'x world \<Rightarrow> go_error option option \<times> proc \<times> 'x world" where
  "process_loop E send s [] p w = (None, p, w)"
| "process_loop E send s (ev # evs) p w =
     (case process_step E send s ev p w of
        (Continue, p, w) \<Rightarrow> process_loop E send s evs p w
      | (Return r, p, w) \<Rightarrow> (Some r, p, w))"

definition proc_init :: proc where
  "proc_init =
     \<lparr>pr_st = \<lparr>st_host = [], st_configRequest = False, st_reqContentType = [], st_httpMethod = [], st_body = []\<rparr>,
      pr_reqSize = 0, pr_respSize = 0, pr_statusCode = 200, pr_sent = []\<rparr>"

text \<open>The deferred functions run, last first, when the loop returns.\<close>

definition Process ::
  "'x externals \<Rightarrow> (ProcessingResponse \<Rightarrow> 'x \<Rightarrow> go_error option \<times> 'x) \<Rightarrow> 'x Server \<Rightarrow> stream_event list \<Rightarrow>
   'x world \<Rightarrow> go_error option option \<times> proc \<times> 'x world" where
  "Process E send s evs w =
     (case Now E (with_metrics (\<lambda>l. l @ [AddInt64 ActiveRequests 1 []]) w) of
        (start, w) \<Rightarrow>
          (case process_loop E send s evs proc_init w of
             (None, p, w) \<Rightarrow> (None, p, w)
           | (Some r, p, w) \<Rightarrow>
               (case Now E w of
                  (t, w) \<Rightarrow>
                    let httpMethod = st_httpMethod (pr_st p);
                        httpMethod = (if httpMethod = [] then ''UNKNOWN'' else httpMethod);
                        w = with_metrics (RecordRequest httpMethod (status_class (pr_statusCode p))
                              (t - start) (pr_reqSize p) (pr_respSize p)) w;
                        w = with_metrics (\<lambda>l. l @ [AddInt64 ActiveRequests (-1) []]) w
                    in (Some r, p, w))))"


section \<open>A concrete server and stream for examples\<close>

definition raw_header :: "string \<Rightarrow> bytes \<Rightarrow> HeaderValue" where
  "raw_header k v = \<lparr>hv_Key = k, hv_Value = [], hv_RawValue = v\<rparr>"

definition example_headers :: "string \<Rightarrow> HeaderValue list \<Rightarrow> stream_event" where
  "example_headers m hs =
     Recv (Inr (RequestHeaders (Some \<lparr>hh_Headers = Some
       ([raw_header '':method'' m, raw_header '':authority'' ''Example.test'',
         raw_header ''content-length'' ''6''] @ hs)\<rparr>)))"

definition body_event :: "bytes \<Rightarrow> bool \<Rightarrow> stream_event" where
  "body_event b eos = Recv (Inr (RequestBody \<lparr>hb_Body = b, hb_EndOfStream = eos\<rparr>))"

definition example_server :: "unit Server" where
  "example_server =
     (let src = StaticMapURLSource [''example.test'' \<mapsto> ''https://g'']
      in NewServer (Relay example_externals (NewHTTPRelayer 9 src))
           (NewHttpKeyConfigSource example_externals 9 src) 10 (Some NoOpRecordTraffic))"

definition example_send :: "ProcessingResponse \<Rightarrow> unit \<Rightarrow> go_error option \<times> unit" where
  "example_send r x = (None, x)"

end
