(* ===== verification/Stream.thy ===== *)
theory Stream
  imports Handlers
begin

text \<open>
  Properties of whole streams (\<open>Server.Process\<close>). The locale \<open>stream_server\<close> puts the
  handler on top of the contracts of the relayer, the key configuration source and the traffic
  recorder it is given; what follows from these contracts for every stream is proved once in
  it. \<open>reachable\<close> is the state machine of the loop: the states the handler can be in between
  two turns, for any events that satisfy a given condition.
\<close>

section \<open>One turn of the loop\<close>

text \<open>Responses of the handler.\<close>

definition error_response :: "ProcessingResponse \<Rightarrow> bool" where
  "error_response resp \<longleftrightarrow>
     (\<exists>code \<in> {400, 405, 411, 413, 415, 500, 502}.
        resp = PR_Immediate \<lparr>ir_Status = Some (envoy_status code),
                             ir_SetHeaders = [(''content-type'', ''text/plain'')],
                             ir_Body = StatusText code\<rparr>)"

definition ok_response :: "ProcessingResponse \<Rightarrow> bool" where
  "ok_response resp \<longleftrightarrow>
     (\<exists>ct \<in> {ContentTypeOHTTPRes, ContentTypeOHTTPKeys}. \<exists>body.
        resp = PR_Immediate \<lparr>ir_Status = Some 200, ir_SetHeaders = [(''content-type'', ct)],
                             ir_Body = body\<rparr>)"

definition client_responses :: "ProcessingResponse list \<Rightarrow> bool" where
  "client_responses rs \<longleftrightarrow> length rs \<le> 1 \<and> list_all (\<lambda>r. error_response r \<or> ok_response r) rs"

lemma StatusText_used:
  "StatusText 400 = ''Bad Request''" "StatusText 405 = ''Method Not Allowed''"
  "StatusText 411 = ''Length Required''" "StatusText 413 = ''Request Entity Too Large''"
  "StatusText 415 = ''Unsupported Media Type''" "StatusText 500 = ''Internal Server Error''"
  "StatusText 502 = ''Bad Gateway''"
  by (simp_all add: StatusText_def status_texts_def)

lemma immediateErrorResponse_used:
  "code \<in> {400, 405, 411, 413, 415, 500, 502} \<Longrightarrow> client_responses (immediateErrorResponse code d)"
  by (auto simp: immediateErrorResponse_def client_responses_def error_response_def StatusText_used)

lemma client_responses_simps [simp]:
  "client_responses []"
  "client_responses [PR_Immediate \<lparr>ir_Status = Some 200, ir_SetHeaders = [(''content-type'', ContentTypeOHTTPRes)], ir_Body = b\<rparr>]"
  "client_responses [PR_Immediate \<lparr>ir_Status = Some 200, ir_SetHeaders = [(''content-type'', ContentTypeOHTTPKeys)], ir_Body = b\<rparr>]"
  by (auto simp: client_responses_def ok_response_def)

text \<open>Whatever the relayer, the key source and the recorder do, the responses have this form.\<close>

lemma respondKeyConfig_responses:
  "respondKeyConfig lc s v st w = (Inr rs, w') \<Longrightarrow> client_responses rs"
  by (auto simp: respondKeyConfig_def Let_def immediateErrorResponse_used split: if_splits prod.splits sum.splits)

lemma forwardAndRespond_responses:
  "forwardAndRespond s st w = (Inr rs, w') \<Longrightarrow> client_responses rs"
  by (auto simp: forwardAndRespond_def Let_def ReadAll_def immediateErrorResponse_used
      split: if_splits prod.splits sum.splits option.splits)

lemma on_request_headers_responses:
  "on_request_headers lc s v st w = (Inr rs, st', w') \<Longrightarrow> client_responses rs"
  by (auto simp: on_request_headers_def Let_def immediateErrorResponse_used
      split: if_splits prod.splits dest: respondKeyConfig_responses)

lemma on_request_body_responses:
  "on_request_body s v st w = (Inr rs, st', w') \<Longrightarrow> client_responses rs"
  by (auto simp: on_request_body_def Let_def immediateErrorResponse_used
      split: if_splits prod.splits dest: forwardAndRespond_responses)

lemma dispatch_responses:
  "dispatch lc s req p w = (Some (Inr rs), p', w') \<Longrightarrow> client_responses rs"
  by (cases req) (auto simp: dispatch_def Let_def split: prod.splits
      dest: on_request_headers_responses on_request_body_responses)

text \<open>With at most one response to send, the sending loop is one call.\<close>

lemma send_responses_one:
  "send_responses send [resp] p w =
     (case send resp (env w) of
        (None, x) \<Rightarrow> (Continue, note_response resp p, w\<lparr>env := x\<rparr>)
      | (Some _, x) \<Rightarrow>
          (Return (Some (StatusError Unknown ''failed to send response back to Envoy: %v'' [])),
           note_response resp p, with_metrics (RecordError ''send_error'') (w\<lparr>env := x\<rparr>)))"
  by (simp add: Let_def status_Errorf_def split: prod.split option.split)

lemma note_response_frame [simp]:
  "pr_st (note_response resp p) = pr_st p" "pr_reqSize (note_response resp p) = pr_reqSize p"
  "pr_sent (note_response resp p) = pr_sent p @ [resp]"
  by (cases resp; simp add: note_response_def)+

lemma send_responses_frame:
  assumes "send_responses send rs p w = (c, p', w')"
  shows "pr_st p' = pr_st p" "pr_reqSize p' = pr_reqSize p" "outbound w' = outbound w"
    "pipelines w' = pipelines w" "\<exists>rs'. prefix rs' rs \<and> pr_sent p' = pr_sent p @ rs'"
proof -
  have "pr_st p' = pr_st p \<and> pr_reqSize p' = pr_reqSize p \<and> outbound w' = outbound w
      \<and> pipelines w' = pipelines w \<and> (\<exists>rs'. prefix rs' rs \<and> pr_sent p' = pr_sent p @ rs')"
    using assms
  proof (induction rs arbitrary: p w)
    case (Cons resp rs)
    obtain err x where s: "send resp (env w) = (err, x)" by fastforce
    show ?case
    proof (cases err)
      case None
      with Cons.prems s have "send_responses send rs (note_response resp p) (w\<lparr>env := x\<rparr>) = (c, p', w')"
        by (simp add: Let_def)
      from Cons.IH [OF this] show ?thesis by (auto simp: prefix_Cons)
    next
      case (Some e)
      with Cons.prems s show ?thesis by (auto simp: Let_def frame prefix_Cons)
    qed
  qed simp
  then show "pr_st p' = pr_st p" "pr_reqSize p' = pr_reqSize p" "outbound w' = outbound w"
    "pipelines w' = pipelines w" "\<exists>rs'. prefix rs' rs \<and> pr_sent p' = pr_sent p @ rs'"
    by blast+
qed

section \<open>What the handler sees of the request headers\<close>

definition header_names :: "string list" where
  "header_names = ['':method'', ''method'', '':authority'', ''host'', ''content-type'', '':path'',
                   ''content-length'', ''accept'']"

definition header_view :: "(rune \<Rightarrow> rune) \<Rightarrow> HttpHeaders option \<Rightarrow> bytes list" where
  "header_view lc v = map (extractHeaderValue lc v) header_names"

lemma on_request_headers_view:
  assumes "header_view lc v = header_view lc v'"
  shows "on_request_headers lc s v st w = on_request_headers lc s v' st w"
proof -
  have eq: "extractHeaderValue lc v n = extractHeaderValue lc v' n" if "n \<in> set header_names" for n
    using assms that by (simp add: header_view_def)
  have eqs: "extractHeaderValue lc v '':method'' = extractHeaderValue lc v' '':method''"
    "extractHeaderValue lc v ''method'' = extractHeaderValue lc v' ''method''"
    "extractHeaderValue lc v '':authority'' = extractHeaderValue lc v' '':authority''"
    "extractHeaderValue lc v ''host'' = extractHeaderValue lc v' ''host''"
    "extractHeaderValue lc v ''content-type'' = extractHeaderValue lc v' ''content-type''"
    "extractHeaderValue lc v '':path'' = extractHeaderValue lc v' '':path''"
    "extractHeaderValue lc v ''content-length'' = extractHeaderValue lc v' ''content-length''"
    "extractHeaderValue lc v ''accept'' = extractHeaderValue lc v' ''accept''"
    by (rule eq; simp add: header_names_def)+
  have key: "respondKeyConfig lc s v st w = respondKeyConfig lc s v' st w" for st w
    by (simp only: respondKeyConfig_def eqs)
  show ?thesis by (simp only: on_request_headers_def Let_def eqs key)
qed

text \<open>An event without the headers the handler does not read.\<close>

definition strip_headers :: "(rune \<Rightarrow> rune) \<Rightarrow> HttpHeaders option \<Rightarrow> HttpHeaders option" where
  "strip_headers lc v =
     map_option (\<lambda>hs. \<lparr>hh_Headers =
       map_option (filter (\<lambda>kv. ToLower lc (hv_Key kv) \<in> set header_names)) (hh_Headers hs)\<rparr>) v"

definition strip_event :: "(rune \<Rightarrow> rune) \<Rightarrow> stream_event \<Rightarrow> stream_event" where
  "strip_event lc ev =
     (case ev of
        Recv (Inr (RequestHeaders v)) \<Rightarrow> Recv (Inr (RequestHeaders (strip_headers lc v)))
      | _ \<Rightarrow> ev)"

lemma find_filter: "(\<And>x. P x \<Longrightarrow> Q x) \<Longrightarrow> find P (filter Q xs) = find P xs"
  by (induction xs) auto

lemma header_names_lower: "n \<in> set header_names \<Longrightarrow> ToLower lc n = n"
proof -
  assume n: "n \<in> set header_names"
  have "list_all (\<lambda>n. is_ascii n \<and> map lower_byte n = n) header_names" by code_simp
  with n show ?thesis by (simp add: list_all_iff ToLower_ascii)
qed

lemma extractHeaderValue_strip:
  assumes "n \<in> set header_names"
  shows "extractHeaderValue lc (strip_headers lc v) n = extractHeaderValue lc v n"
proof -
  have eq: "find (\<lambda>kv. ToLower lc (hv_Key kv) = ToLower lc n)
        (filter (\<lambda>kv. ToLower lc (hv_Key kv) \<in> set header_names) kvs)
      = find (\<lambda>kv. ToLower lc (hv_Key kv) = ToLower lc n) kvs" for kvs
    using assms by (intro find_filter) (simp add: header_names_lower)
  show ?thesis
  proof (cases v)
    case (Some hs)
    then show ?thesis
      by (cases "hh_Headers hs") (simp_all add: extractHeaderValue_def strip_headers_def eq)
  qed (simp add: strip_headers_def)
qed

lemma header_view_strip: "header_view lc (strip_headers lc v) = header_view lc v"
  by (simp add: header_view_def extractHeaderValue_strip)

lemma process_step_strip:
  "process_step E send s (strip_event (uni_lower E) ev) p w = process_step E send s ev p w"
proof -
  have "dispatch (uni_lower E) s (RequestHeaders (strip_headers (uni_lower E) v)) p w =
      dispatch (uni_lower E) s (RequestHeaders v) p w" for v
    by (simp add: dispatch_def on_request_headers_view [OF header_view_strip])
  then show ?thesis
    by (simp add: strip_event_def process_step_def split: stream_event.split sum.split ProcessingRequest.split)
qed

lemma process_loop_strip:
  "process_loop E send s (map (strip_event (uni_lower E)) evs) p w = process_loop E send s evs p w"
  by (induction evs arbitrary: p w) (auto simp: process_step_strip split: prod.split control.split)

text \<open>
  C3: the relay is blind to every request header but eight. Removing from the header messages
  of a stream every header other than method, authority, host, content type, path, content
  length and accept changes nothing: the same return value, the same responses, the same
  requests to gateways, the same metrics and the same Redis traffic, whatever cookies,
  forwarding or identification headers the client sent. (The identification header
  \<open>x-request-id\<close> goes to the log, which is not modelled.)
\<close>

theorem Process_ignores_other_headers:
  "Process E send s (map (strip_event (uni_lower E)) evs) w = Process E send s evs w"
  by (simp add: Process_def process_loop_strip)


section \<open>Returning\<close>

definition ends_stream :: "stream_event \<Rightarrow> bool" where
  "ends_stream ev \<longleftrightarrow> (case ev of CtxDone _ \<Rightarrow> True | Recv (Inl _) \<Rightarrow> True | _ \<Rightarrow> False)"

lemma process_step_ends:
  "ends_stream ev \<Longrightarrow> \<exists>r p' w'. process_step E send s ev p w = (Return r, p', w')"
  by (auto simp: ends_stream_def process_step_def split: stream_event.splits sum.splits)

lemma process_loop_returns:
  "list_ex ends_stream evs \<Longrightarrow> fst (process_loop E send s evs p w) \<noteq> None"
proof (induction evs arbitrary: p w)
  case (Cons ev evs)
  show ?case
  proof (cases "ends_stream ev")
    case True
    with process_step_ends [OF True, of E send s p w] show ?thesis by auto
  next
    case False
    with Cons show ?thesis by (auto split: prod.split control.split)
  qed
qed simp

lemma process_loop_append:
  "process_loop E send s (evs @ evs') p w =
     (case process_loop E send s evs p w of
        (None, p, w) \<Rightarrow> process_loop E send s evs' p w
      | (Some r, p, w) \<Rightarrow> (Some r, p, w))"
  by (induction evs arbitrary: p w) (auto split: prod.split control.split)

text \<open>
  \<open>Process\<close> returns on every stream that ends, by a done context, by the end of the input
  or by a receive error, whatever came before; and what it returns and does depends on the
  events up to that point only.
\<close>

lemma Process_ends:
  assumes "list_ex ends_stream evs"
  shows "fst (Process E send s evs w) \<noteq> None
     \<and> Process E send s (evs @ evs') w = Process E send s evs w"
proof -
  obtain t w1 where n: "Now E (with_metrics (\<lambda>l. l @ [AddInt64 ActiveRequests 1 []]) w) = (t, w1)"
    by fastforce
  obtain r p w2 where l: "process_loop E send s evs proc_init w1 = (Some r, p, w2)"
    using process_loop_returns [OF assms, of E send s proc_init w1]
    by (cases "process_loop E send s evs proc_init w1") auto
  have "process_loop E send s (evs @ evs') proc_init w1 = (Some r, p, w2)"
    by (simp add: process_loop_append l)
  with n l show ?thesis by (simp add: Process_def Let_def split: prod.split)
qed

lemma Process_some:
  assumes "list_ex ends_stream evs"
  obtains r p w' where "Process E send s evs w = (Some r, p, w')"
  using Process_ends [OF assms, of E send s w] by (cases "Process E send s evs w") auto

lemma Process_ends_example:
  "fst (Process example_externals example_send example_server
          [example_headers ''POST'' [], CtxDone CtxCanceled] example_world) \<noteq> None
   \<and> Process example_externals example_send example_server
          ([example_headers ''POST'' [], CtxDone CtxCanceled] @ [body_event ''late'' True]) example_world
     = Process example_externals example_send example_server
          [example_headers ''POST'' [], CtxDone CtxCanceled] example_world"
  by (rule Process_ends) (simp add: ends_stream_def)

section \<open>Sizes\<close>

lemma fits_iff:
  assumes "int (length (b @ c)) < 2 ^ 63"
  shows "sint (mx :: int64) < sint (len64 b + len64 c) \<longleftrightarrow> sint mx < int (length (b @ c))"
  using sint_len64 [OF assms] by (simp add: len64_append)

lemma sint_int64_bound: "sint (x :: int64) < 2 ^ 63"
  using sint_lt [of x] by simp

lemma accepted:
  assumes "int (length (b @ c)) \<le> sint (mx :: int64)"
  shows "\<not> sint mx < sint (len64 b + len64 c)"
proof -
  have "int (length (b @ c)) < 2 ^ 63" using assms sint_int64_bound [of mx] by linarith
  with fits_iff [OF this, of mx] assms show ?thesis by linarith
qed

lemma on_request_body_accepted:
  assumes "int (length (st_body st @ hb_Body v)) \<le> sint (sv_maxRequestBodySize s)"
  shows "on_request_body s v st w =
     (let st = st\<lparr>st_body := st_body st @ hb_Body v\<rparr>
      in if hb_EndOfStream v then (case forwardAndRespond s st w of (r, w) \<Rightarrow> (r, st, w)) else (Inr [], st, w))"
  using accepted [OF assms] by (simp add: on_request_body_def)

lemma process_step_body_piece:
  assumes "int (length (st_body (pr_st p) @ b)) \<le> sint (sv_maxRequestBodySize s)"
  shows "process_step E send s (body_event b False) p w =
     (Continue, p\<lparr>pr_reqSize := pr_reqSize p + len64 b, pr_st := (pr_st p)\<lparr>st_body := st_body (pr_st p) @ b\<rparr>\<rparr>, w)"
  using on_request_body_accepted [of "pr_st p" "\<lparr>hb_Body = b, hb_EndOfStream = False\<rparr>" s w] assms
  by (simp add: process_step_def dispatch_def body_event_def Let_def)

lemma process_step_body_last:
  assumes "int (length (st_body (pr_st p) @ b)) \<le> sint (sv_maxRequestBodySize s)"
  shows "process_step E send s (body_event b True) p w =
     (case forwardAndRespond s ((pr_st p)\<lparr>st_body := st_body (pr_st p) @ b\<rparr>) w of
        (r, w) \<Rightarrow>
          let p = p\<lparr>pr_reqSize := pr_reqSize p + len64 b, pr_st := (pr_st p)\<lparr>st_body := st_body (pr_st p) @ b\<rparr>\<rparr>
          in case r of
               Inl err \<Rightarrow> (Return (status_Errorf (status_Code err) ''failed to handle request: %v''), p,
                           with_metrics (RecordError ''process_error'') w)
             | Inr responses \<Rightarrow> send_responses send responses p w)"
  using on_request_body_accepted [of "pr_st p" "\<lparr>hb_Body = b, hb_EndOfStream = True\<rparr>" s w] assms
  by (simp add: process_step_def dispatch_def body_event_def Let_def split: prod.split sum.split)

lemma chunked_transparent:
  assumes "int (length (st_body (pr_st p) @ concat cs @ c)) \<le> sint (sv_maxRequestBodySize s)"
  shows "process_loop E send s (map (\<lambda>b. body_event b False) cs @ body_event c True # evs) p w =
     process_loop E send s (body_event (concat cs @ c) True # evs) p w"
  using assms
proof (induction cs arbitrary: p)
  case (Cons b cs)
  let ?p = "p\<lparr>pr_reqSize := pr_reqSize p + len64 b, pr_st := (pr_st p)\<lparr>st_body := st_body (pr_st p) @ b\<rparr>\<rparr>"
  have "process_step E send s (body_event b False) p w = (Continue, ?p, w)"
    using Cons.prems by (intro process_step_body_piece) simp
  moreover have "process_loop E send s (map (\<lambda>b. body_event b False) cs @ body_event c True # evs) ?p w =
      process_loop E send s (body_event (concat cs @ c) True # evs) ?p w"
    using Cons.prems by (intro Cons.IH) simp
  moreover have "process_step E send s (body_event (concat cs @ c) True) ?p w =
      process_step E send s (body_event (concat (b # cs) @ c) True) p w"
    using Cons.prems by (subst (1 2) process_step_body_last) (simp_all add: len64_append add.assoc)
  ultimately show ?case by simp
qed simp

text \<open>
  C18: a body that arrives in pieces is handled as if it came at once. While the body fits the
  limit, any number of pieces followed by the last one lead to the same run as a single
  message with all the bytes: the same relay call, response, sizes and metrics.
\<close>

theorem chunked_body_transparent:
  assumes "int (length (st_body (pr_st p) @ concat cs @ c)) \<le> sint (sv_maxRequestBodySize s)"
  shows "process_loop E send s (map (\<lambda>b. body_event b False) cs @ body_event c True # evs) p w =
     process_loop E send s (body_event (concat cs @ c) True # evs) p w"
  using assms by (rule chunked_transparent)

theorem chunked_body_transparent_witness:
  "process_loop example_externals example_send example_server
     (map (\<lambda>b. body_event b False) [''ab'', [], ''cd''] @ body_event ''ef'' True # [Recv (Inl EOF)])
     proc_init example_world =
   process_loop example_externals example_send example_server
     (body_event (concat [''ab'', [], ''cd''] @ ''ef'') True # [Recv (Inl EOF)]) proc_init example_world"
  by (rule chunked_body_transparent) (simp add: proc_init_def example_server_def NewServer_def Let_def)

section \<open>The loop as a state machine\<close>

text \<open>
  The states between two turns of the loop, from the start in world \<open>w0\<close> over events that
  satisfy \<open>ok\<close>.
\<close>

inductive reachable ::
  "'x externals \<Rightarrow> (ProcessingResponse \<Rightarrow> 'x \<Rightarrow> go_error option \<times> 'x) \<Rightarrow> 'x Server \<Rightarrow>
   (stream_event \<Rightarrow> bool) \<Rightarrow> 'x world \<Rightarrow> proc \<Rightarrow> 'x world \<Rightarrow> bool"
  for E send s ok w0 where
  start: "reachable E send s ok w0 proc_init w0"
| turn: "reachable E send s ok w0 p w \<Longrightarrow> ok ev \<Longrightarrow> process_step E send s ev p w = (Continue, p', w') \<Longrightarrow>
     reachable E send s ok w0 p' w'"

text \<open>While the loop goes on, its state is a reachable one.\<close>

lemma process_loop_reachable_from:
  assumes "reachable E send s ok w0 p w" and "list_all ok evs"
    and "process_loop E send s evs p w = (None, p', w')"
  shows "reachable E send s ok w0 p' w'"
  using assms
proof (induction evs arbitrary: p w)
  case (Cons ev evs)
  obtain c p1 w1 where st: "process_step E send s ev p w = (c, p1, w1)" by (metis prod_cases3)
  with Cons.prems have c: "c = Continue" by (cases c) auto
  then have "reachable E send s ok w0 p1 w1"
    using Cons.prems st by (auto intro: reachable.turn)
  with Cons st c show ?case by simp
qed simp

text \<open>A body message whose size leaves room for the limit in an \<open>int64\<close>.\<close>

definition size_ok :: "'x Server \<Rightarrow> stream_event \<Rightarrow> bool" where
  "size_ok s ev \<longleftrightarrow>
     (case ev of Recv (Inr (RequestBody b)) \<Rightarrow> int (length (hb_Body b)) + sint (sv_maxRequestBodySize s) < 2 ^ 63
      | _ \<Rightarrow> True)"

definition body_bounded :: "'x Server \<Rightarrow> streamState \<Rightarrow> bool" where
  "body_bounded s st \<longleftrightarrow> int (length (st_body st)) \<le> sint (sv_maxRequestBodySize s)"

lemma on_request_headers_body:
  "on_request_headers lc s v st w = (r, st', w') \<Longrightarrow> st_body st' = st_body st"
  by (auto simp: on_request_headers_def Let_def split: if_splits prod.splits)

lemma on_request_body_bounded:
  assumes "on_request_body s v st w = (r, st', w')" and "body_bounded s st"
    and "0 \<le> sint (sv_maxRequestBodySize s)"
    and "int (length (hb_Body v)) + sint (sv_maxRequestBodySize s) < 2 ^ 63"
  shows "body_bounded s st'"
proof (cases "sint (sv_maxRequestBodySize s) < sint (len64 (st_body st) + len64 (hb_Body v))")
  case True
  then have "st_body st' = []" using assms(1) by (auto simp: on_request_body_def)
  with assms(3) show ?thesis by (simp add: body_bounded_def)
next
  case False
  have "int (length (st_body st @ hb_Body v)) < 2 ^ 63"
    using assms(2,4) by (simp add: body_bounded_def)
  with False have "int (length (st_body st @ hb_Body v)) \<le> sint (sv_maxRequestBodySize s)"
    using fits_iff by (metis linorder_not_le)
  moreover have "st_body st' = st_body st @ hb_Body v"
    using assms(1) False by (auto simp: on_request_body_def Let_def split: if_splits prod.splits)
  ultimately show ?thesis by (simp add: body_bounded_def)
qed

lemma dispatch_body_bounded:
  assumes "dispatch lc s req p w = (r, p', w')" and "body_bounded s (pr_st p)"
    and "0 \<le> sint (sv_maxRequestBodySize s)" and "size_ok s (Recv (Inr req))"
  shows "body_bounded s (pr_st p')"
proof (cases req)
  case (RequestHeaders v)
  obtain r1 st1 w1 where h: "on_request_headers lc s v (pr_st p) w = (r1, st1, w1)" by (metis prod_cases3)
  from on_request_headers_body [OF h] h assms(1,2) RequestHeaders show ?thesis
    by (auto simp: dispatch_def body_bounded_def)
next
  case (RequestBody v)
  obtain r1 st1 w1 where b: "on_request_body s v (pr_st p) w = (r1, st1, w1)" by (metis prod_cases3)
  from on_request_body_bounded [OF b assms(2,3)] b assms(1,4) RequestBody show ?thesis
    by (auto simp: dispatch_def Let_def size_ok_def)
qed (use assms(1,2) in \<open>auto simp: dispatch_def\<close>)

lemma process_step_body_bounded:
  assumes "process_step E send s ev p w = (c, p', w')" and "body_bounded s (pr_st p)"
    and "0 \<le> sint (sv_maxRequestBodySize s)" and "size_ok s ev"
  shows "body_bounded s (pr_st p')"
proof (cases "\<exists>req. ev = Recv (Inr req)")
  case True
  then obtain req where ev: "ev = Recv (Inr req)" ..
  obtain r p1 w1 where d: "dispatch (uni_lower E) s req p w = (r, p1, w1)" by (metis prod_cases3)
  have "pr_st p' = pr_st p1"
    using assms(1) d by (auto simp: ev process_step_def split: option.splits sum.splits dest: send_responses_frame(1))
  with dispatch_body_bounded [OF d assms(2,3)] assms(4) ev show ?thesis by simp
next
  case False
  then have "pr_st p' = pr_st p"
    using assms(1) by (auto simp: process_step_def split: stream_event.splits sum.splits if_splits)
  with assms(2) show ?thesis by simp
qed

text \<open>
  C15: the relay never holds a request body above the limit. In every state the loop can
  reach, the collected body is at most the configured maximum, for every limit that is not
  negative and all message sizes that, added to the limit, stay within an \<open>int64\<close>.
\<close>

theorem body_never_above_limit:
  assumes "reachable E send s (size_ok s) w0 p w" and "0 \<le> sint (sv_maxRequestBodySize s)"
  shows "int (length (st_body (pr_st p))) \<le> sint (sv_maxRequestBodySize s)"
proof -
  have "body_bounded s (pr_st p)"
    using assms(1)
  proof (induction rule: reachable.induct)
    case start
    then show ?case using assms(2) by (simp add: body_bounded_def proc_init_def)
  next
    case (turn p w ev p' w')
    then show ?case using assms(2) process_step_body_bounded by blast
  qed
  then show ?thesis by (simp add: body_bounded_def)
qed

theorem body_never_above_limit_witness:
  "\<exists>p w. reachable example_externals example_send example_server (size_ok example_server) example_world p w
     \<and> st_body (pr_st p) = ''opaque'' \<and> int (length (st_body (pr_st p))) \<le> sint (sv_maxRequestBodySize example_server)"
proof -
  let ?evs = "[body_event ''opaque'' False]"
  have ok: "list_all (size_ok example_server) ?evs" and mx: "sint (sv_maxRequestBodySize example_server) = 10"
    by (simp_all add: size_ok_def body_event_def example_server_def NewServer_def Let_def)
  obtain res p w where l: "process_loop example_externals example_send example_server ?evs proc_init example_world
      = (res, p, w)" by (metis prod_cases3)
  then have "res = None" and b: "st_body (pr_st p) = ''opaque''"
    using mx by (auto simp: process_step_body_piece proc_init_def)
  with l have "reachable example_externals example_send example_server (size_ok example_server) example_world p w"
    using process_loop_reachable_from [OF reachable.start ok] by simp
  with body_never_above_limit [OF this] b mx show ?thesis by auto
qed

section \<open>What a stream does to the world\<close>

text \<open>
  A request that gives nothing of the client away: a key configuration request, or a relayed
  body with a content type and an empty user agent. \<open>fits\<close> is a condition on the body.
\<close>

definition clean_request :: "(bytes \<Rightarrow> bool) \<Rightarrow> http_request \<Rightarrow> bool" where
  "clean_request fits req \<longleftrightarrow>
     key_request req \<or> (\<exists>body ct m. ct \<noteq> [] \<and> relay_request body ct m req \<and> fits body)"

lemma clean_request_no_body [simp]: "clean_request (\<lambda>_. False) = key_request"
  by (simp add: fun_eq_iff clean_request_def)

text \<open>The counters only \<open>Process\<close> itself moves.\<close>

definition stream_counters :: "'x world \<Rightarrow> int64 \<times> int64 \<times> int64" where
  "stream_counters w =
     (counter_value ActiveRequests (metrics_log w), counter_value RequestsTotal (metrics_log w),
      counter_value ErrorsTotal (metrics_log w))"

text \<open>What one message may do: at most one request, clean, and no stream counter moved.\<close>

definition message_effect :: "(bytes \<Rightarrow> bool) \<Rightarrow> 'x world \<Rightarrow> 'x world \<Rightarrow> bool" where
  "message_effect fits w w' \<longleftrightarrow>
     (\<exists>reqs. outbound w' = outbound w @ reqs \<and> length reqs \<le> 1 \<and> list_all (clean_request fits) reqs)
     \<and> stream_counters w' = stream_counters w"

lemma message_effect_refl [simp]: "message_effect fits w w"
  by (simp add: message_effect_def)

lemma ContentTypeOHTTPReq_ne [simp]: "ContentTypeOHTTPReq \<noteq> []"
  by (simp add: ContentTypeOHTTPReq_def)

lemma send_responses_counters:
  assumes "send_responses send rs p w = (c, p', w')"
  shows "c = Continue \<and> metrics_log w' = metrics_log w
     \<or> c = Return (Some (StatusError Unknown ''failed to send response back to Envoy: %v'' []))
       \<and> metrics_log w' = RecordError ''send_error'' (metrics_log w)"
  using assms
proof (induction rs arbitrary: p w)
  case (Cons resp rs)
  obtain err x where s: "send resp (env w) = (err, x)" by fastforce
  show ?case
  proof (cases err)
    case None
    with Cons.prems s have "send_responses send rs (note_response resp p) (w\<lparr>env := x\<rparr>) = (c, p', w')"
      by (simp add: Let_def)
    from Cons.IH [OF this] show ?thesis by simp
  next
    case (Some e)
    with Cons.prems s show ?thesis by (auto simp: Let_def frame status_Errorf_def)
  qed
qed simp

text \<open>The only error a handler returns is that of a body on a configuration request.\<close>

lemma forwardAndRespond_error:
  "forwardAndRespond s st w = (Inl err, w') \<Longrightarrow>
     err = ErrorsNew ''config request not allowed'' \<and> st_configRequest st \<and> w' = w"
  by (auto simp: forwardAndRespond_def Let_def split: if_splits prod.splits sum.splits option.splits)

lemma dispatch_error:
  "dispatch lc s req p w = (Some (Inl err), p', w') \<Longrightarrow> err = ErrorsNew ''config request not allowed''"
proof (cases req)
  case (RequestHeaders v)
  assume "dispatch lc s req p w = (Some (Inl err), p', w')"
  with RequestHeaders obtain st' where "on_request_headers lc s v (pr_st p) w = (Inl err, st', w')"
    by (auto simp: dispatch_def split: prod.splits)
  then have False
    by (auto simp: on_request_headers_def respondKeyConfig_def Let_def split: if_splits prod.splits sum.splits)
  then show ?thesis ..
next
  case (RequestBody v)
  assume "dispatch lc s req p w = (Some (Inl err), p', w')"
  with RequestBody obtain st' where "on_request_body s v (pr_st p) w = (Inl err, st', w')"
    by (auto simp: dispatch_def Let_def split: prod.splits)
  then show ?thesis
    by (auto simp: on_request_body_def Let_def split: if_splits prod.splits dest: forwardAndRespond_error)
qed (simp_all add: dispatch_def)

text \<open>One error is counted when a turn returns a gRPC error.\<close>

definition counted :: "control \<Rightarrow> int64" where
  "counted c = (case c of Return (Some (StatusError _ _ _)) \<Rightarrow> 1 | _ \<Rightarrow> 0)"

definition add_errors :: "int64 \<Rightarrow> int64 \<times> int64 \<times> int64 \<Rightarrow> int64 \<times> int64 \<times> int64" where
  "add_errors n cs = (case cs of (a, r, e) \<Rightarrow> (a, r, e + n))"

lemma add_errors_simps [simp]:
  "add_errors 0 cs = cs" "add_errors n (add_errors m cs) = add_errors (m + n) cs"
  by (auto simp: add_errors_def split: prod.split)

lemma stream_counters_frame:
  "metrics_log w' = metrics_log w \<Longrightarrow> stream_counters w' = stream_counters w"
  "metrics_log w' = RecordError t (metrics_log w) \<Longrightarrow> stream_counters w' = add_errors 1 (stream_counters w)"
  by (simp_all add: stream_counters_def add_errors_def frame)

lemma stream_counters_RecordError [simp]:
  "stream_counters (with_metrics (RecordError t) w) = add_errors 1 (stream_counters w)"
  by (rule stream_counters_frame(2)) (simp add: frame)

text \<open>A done context carries one of the two context errors.\<close>

definition ctx_ok :: "stream_event \<Rightarrow> bool" where
  "ctx_ok ev \<longleftrightarrow> (case ev of CtxDone e \<Rightarrow> e = CtxCanceled \<or> e = CtxDeadlineExceeded | _ \<Rightarrow> True)"

text \<open>A stream that asked for the key configuration stays one.\<close>

lemma on_request_headers_config:
  "on_request_headers lc s v st w = (r, st', w') \<Longrightarrow> st_configRequest st \<Longrightarrow> st_configRequest st'"
  by (auto simp: on_request_headers_def Let_def split: if_splits prod.splits)

lemma dispatch_config:
  assumes "dispatch lc s req p w = (r, p', w')" and "st_configRequest (pr_st p)"
  shows "st_configRequest (pr_st p')"
proof (cases req)
  case (RequestHeaders v)
  obtain r1 st1 w1 where h: "on_request_headers lc s v (pr_st p) w = (r1, st1, w1)" by (metis prod_cases3)
  from on_request_headers_config [OF h] h assms RequestHeaders show ?thesis by (auto simp: dispatch_def)
next
  case (RequestBody v)
  with assms show ?thesis
    by (auto simp: dispatch_def on_request_body_def Let_def split: if_splits prod.splits)
qed (use assms in \<open>auto simp: dispatch_def\<close>)

lemma process_step_config:
  assumes "process_step E send s ev p w = (c, p', w')" and "st_configRequest (pr_st p)"
  shows "st_configRequest (pr_st p')"
proof (cases "\<exists>req. ev = Recv (Inr req)")
  case True
  then obtain req where ev: "ev = Recv (Inr req)" ..
  obtain r p1 w1 where d: "dispatch (uni_lower E) s req p w = (r, p1, w1)" by (metis prod_cases3)
  have "pr_st p' = pr_st p1"
    using assms(1) d by (auto simp: ev process_step_def split: option.splits sum.splits dest: send_responses_frame(1))
  with dispatch_config [OF d assms(2)] show ?thesis by simp
next
  case False
  then have "p' = p"
    using assms(1) by (auto simp: process_step_def split: stream_event.splits sum.splits if_splits)
  with assms(2) show ?thesis by simp
qed

lemma process_step_config_headers:
  assumes "process_step E send s (Recv (Inr (RequestHeaders v))) p w = (c, p', w')"
    and "extractHeaderValue (uni_lower E) v '':path'' = configsPath"
  shows "st_configRequest (pr_st p')"
proof -
  obtain r p1 w1 where d: "dispatch (uni_lower E) s (RequestHeaders v) p w = (r, p1, w1)" by (metis prod_cases3)
  then have "st_configRequest (pr_st p1)"
    using assms(2) by (auto simp: dispatch_def on_request_headers_def Let_def split: prod.splits)
  moreover have "pr_st p' = pr_st p1"
    using assms(1) d by (auto simp: process_step_def split: option.splits sum.splits dest: send_responses_frame(1))
  ultimately show ?thesis by simp
qed

locale stream_server =
  rl: relayer relay + kc: key_config_source keyConfig + tr: traffic_recorder recordTraffic
  for relay :: "'x RelayerFn" and keyConfig :: "'x KeyConfigSource" and recordTraffic :: "'x TrafficFn"
begin

lemma respondKeyConfig_effect:
  "respondKeyConfig lc (NewServer relay keyConfig mx (Some recordTraffic)) v st w = (r, w') \<Longrightarrow>
     message_effect fits w w'"
proof -
  assume r: "respondKeyConfig lc (NewServer relay keyConfig mx (Some recordTraffic)) v st w = (r, w')"
  have "w' = w \<or> w' = snd (keyConfig (st_host st) w)"
    using r by (auto simp: respondKeyConfig_def NewServer_def Let_def split: if_splits prod.splits sum.splits)
  then show ?thesis
  proof
    assume w': "w' = snd (keyConfig (st_host st) w)"
    obtain reqs where "outbound w' = outbound w @ reqs" "length reqs \<le> 1" "list_all key_request reqs"
      using kc.kc_outbound [of "st_host st" w] w' by auto
    moreover from this(3) have "list_all (clean_request fits) reqs"
      by (auto simp: clean_request_def elim: list.pred_mono_strong)
    ultimately show ?thesis
      using kc.kc_metrics [of "st_host st" w] w' by (auto simp: message_effect_def stream_counters_def)
  qed simp
qed

lemma forwardAndRespond_effect:
  assumes "forwardAndRespond (NewServer relay keyConfig mx (Some recordTraffic)) st w = (r, w')"
    and "st_configRequest st \<or> fits (st_body st)"
  shows "message_effect fits w w'"
proof (cases "st_configRequest st")
  case True
  with assms(1) show ?thesis by (simp add: forwardAndRespond_def)
next
  case False
  define ct where "ct = (if st_reqContentType st \<noteq> [] \<and> \<not> EqualFold (st_reqContentType st) ContentTypeOHTTPReq
    then st_reqContentType st else ContentTypeOHTTPReq)"
  have ct: "ct \<noteq> []" by (simp add: ct_def)
  obtain q w1 where q: "relay (st_host st) (st_body st) ct (st_httpMethod st) w = (q, w1)" by fastforce
  obtain reqs where reqs: "relay_effect (st_body st) ct (st_httpMethod st) w reqs w1"
    using rl.relay_effect [of "st_body st" ct "st_httpMethod st" w "st_host st"] q by auto
  have "list_all (clean_request fits) reqs"
    using reqs ct assms(2) False unfolding relay_effect_def clean_request_def list_all_iff by blast
  then have w1: "message_effect fits w w1"
    using reqs by (auto simp: message_effect_def relay_effect_def stream_counters_def)
  have "w' = w1 \<or> (\<exists>i out. w' = snd (recordTraffic (st_host st) i out
      (with_metrics (RecordTrafficIO (st_host st) i out) w1)))"
    using assms(1) False q
    by (auto simp: forwardAndRespond_def NewServer_def Let_def ct_def [symmetric] split: if_splits prod.splits sum.splits option.splits)
  then show ?thesis
  proof
    assume "\<exists>i out. w' = snd (recordTraffic (st_host st) i out
      (with_metrics (RecordTrafficIO (st_host st) i out) w1))"
    then obtain i out where w': "w' = snd (recordTraffic (st_host st) i out
      (with_metrics (RecordTrafficIO (st_host st) i out) w1))" by blast
    then have "outbound w' = outbound w1" "stream_counters w' = stream_counters w1"
      by (simp_all add: tr.record_metrics tr.record_outbound stream_counters_def frame)
    with w1 show ?thesis by (simp add: message_effect_def)
  qed (use w1 in simp)
qed

lemma on_request_headers_effect:
  assumes "on_request_headers lc (NewServer relay keyConfig mx (Some recordTraffic)) v st w = (r, st', w')"
  shows "message_effect fits w w'"
  using assms by (auto simp: on_request_headers_def Let_def split: if_splits prod.splits dest: respondKeyConfig_effect)

lemma on_request_body_effect:
  assumes "on_request_body (NewServer relay keyConfig mx (Some recordTraffic)) v st w = (r, st', w')"
    and "st_configRequest st' \<or> fits (st_body st')"
  shows "message_effect fits w w'"
  using assms by (auto simp: on_request_body_def Let_def split: if_splits prod.splits intro: forwardAndRespond_effect)

lemma dispatch_effect:
  assumes "dispatch lc (NewServer relay keyConfig mx (Some recordTraffic)) req p w = (r, p', w')"
    and "st_configRequest (pr_st p') \<or> fits (st_body (pr_st p'))"
  shows "message_effect fits w w'"
  using assms
  by (cases req)
     (auto simp: dispatch_def Let_def split: prod.splits dest: on_request_headers_effect intro: on_request_body_effect)

text \<open>One turn: at most one clean request; the error counter follows what is returned.\<close>

lemma process_step_effect:
  assumes st: "process_step E send (NewServer relay keyConfig mx (Some recordTraffic)) ev p w = (c, p', w')"
    and fits: "st_configRequest (pr_st p') \<or> fits (st_body (pr_st p'))"
  shows "\<exists>reqs. outbound w' = outbound w @ reqs \<and> length reqs \<le> 1 \<and> list_all (clean_request fits) reqs"
    and "ctx_ok ev \<Longrightarrow> stream_counters w' = add_errors (counted c) (stream_counters w)"
proof -
  let ?s = "NewServer relay keyConfig mx (Some recordTraffic)"
  have "(\<exists>reqs. outbound w' = outbound w @ reqs \<and> length reqs \<le> 1 \<and> list_all (clean_request fits) reqs)
      \<and> (ctx_ok ev \<longrightarrow> stream_counters w' = add_errors (counted c) (stream_counters w))"
  proof (cases "\<exists>req. ev = Recv (Inr req)")
    case True
    then obtain req where ev: "ev = Recv (Inr req)" ..
    obtain r p1 w1 where d: "dispatch (uni_lower E) ?s req p w = (r, p1, w1)" by (metis prod_cases3)
    show ?thesis
    proof (cases "\<exists>rs. r = Some (Inr rs)")
      case True
      then obtain rs where snd: "send_responses send rs p1 w1 = (c, p', w')"
        using st d by (auto simp: ev process_step_def)
      have "message_effect fits w w1"
        using dispatch_effect [OF d] fits send_responses_frame(1) [OF snd] by simp
      moreover have "stream_counters w' = add_errors (counted c) (stream_counters w1)"
        using send_responses_counters [OF snd] by (auto simp: counted_def dest: stream_counters_frame)
      ultimately show ?thesis
        using send_responses_frame(3) [OF snd] by (simp add: message_effect_def)
    next
      case False
      with st d have p': "p' = p1" and w': "\<exists>t. w' = with_metrics (RecordError t) w1"
        and "\<exists>f. c = Return (Some (StatusError Unknown f []))"
        by (auto simp: ev process_step_def status_Errorf_def split: option.splits sum.splits dest: dispatch_error)
      moreover have "message_effect fits w w1"
        using dispatch_effect [OF d] fits p' by simp
      ultimately show ?thesis
        by (auto simp: message_effect_def counted_def frame)
    qed
  next
    case False
    with st show ?thesis
      by (auto simp: process_step_def ctx_ok_def counted_def status_Errorf_def frame
          split: stream_event.splits sum.splits if_splits)
  qed
  then show "\<exists>reqs. outbound w' = outbound w @ reqs \<and> length reqs \<le> 1 \<and> list_all (clean_request fits) reqs"
    "ctx_ok ev \<Longrightarrow> stream_counters w' = add_errors (counted c) (stream_counters w)" by blast+
qed

text \<open>Every request of a run is clean; there is at most one per event.\<close>

lemma process_loop_requests:
  assumes "process_loop E send (NewServer relay keyConfig mx (Some recordTraffic)) evs p w = (res, p', w')"
    and "body_bounded (NewServer relay keyConfig mx (Some recordTraffic)) (pr_st p)" and "0 \<le> sint mx"
    and "list_all (size_ok (NewServer relay keyConfig mx (Some recordTraffic))) evs"
  shows "\<exists>reqs. outbound w' = outbound w @ reqs \<and> length reqs \<le> length evs
     \<and> list_all (clean_request (\<lambda>b. int (length b) \<le> sint mx)) reqs"
  using assms
proof (induction evs arbitrary: p w)
  case (Cons ev evs)
  let ?s = "NewServer relay keyConfig mx (Some recordTraffic)"
  let ?fits = "\<lambda>b. int (length b) \<le> sint mx"
  have mx: "sv_maxRequestBodySize ?s = mx" by (simp add: NewServer_def)
  obtain c p1 w1 where st: "process_step E send ?s ev p w = (c, p1, w1)" by (metis prod_cases3)
  have b1: "body_bounded ?s (pr_st p1)"
    using process_step_body_bounded [OF st Cons.prems(2)] Cons.prems(3,4) mx by simp
  then have "st_configRequest (pr_st p1) \<or> ?fits (st_body (pr_st p1))" by (simp add: body_bounded_def mx)
  from process_step_effect(1) [where fits = ?fits, OF st this]
  obtain r1 where r1: "outbound w1 = outbound w @ r1" "length r1 \<le> 1" "list_all (clean_request ?fits) r1"
    by blast
  show ?case
  proof (cases c)
    case Continue
    with Cons.prems st have "process_loop E send ?s evs p1 w1 = (res, p', w')" by simp
    from Cons.IH [OF this b1 Cons.prems(3)] Cons.prems(4)
    obtain r2 where "outbound w' = outbound w1 @ r2" "length r2 \<le> length evs" "list_all (clean_request ?fits) r2"
      by auto
    with r1 show ?thesis by (intro exI [of _ "r1 @ r2"]) simp
  next
    case (Return r)
    with Cons.prems st r1 show ?thesis by (intro exI [of _ r1]) auto
  qed
qed simp

lemma Process_requests:
  assumes "Process E send (NewServer relay keyConfig mx (Some recordTraffic)) evs w = (res, p, w')"
    and "0 \<le> sint mx" and "list_all (size_ok (NewServer relay keyConfig mx (Some recordTraffic))) evs"
  shows "\<exists>reqs. outbound w' = outbound w @ reqs \<and> length reqs \<le> length evs
     \<and> list_all (clean_request (\<lambda>b. int (length b) \<le> sint mx)) reqs"
proof -
  let ?s = "NewServer relay keyConfig mx (Some recordTraffic)"
  obtain t0 w0 where n0: "Now E (with_metrics (\<lambda>l. l @ [AddInt64 ActiveRequests 1 []]) w) = (t0, w0)" by fastforce
  obtain p1 w1 where l: "process_loop E send ?s evs proc_init w0 = (res, p1, w1)" and w': "outbound w' = outbound w1"
    using assms(1) n0 Now_frame(2) [of E]
    by (auto simp: Process_def Let_def frame dest: Now_case(2) split: prod.splits option.splits)
  have "body_bounded ?s (pr_st proc_init)"
    using assms(2) by (simp add: body_bounded_def proc_init_def NewServer_def)
  from process_loop_requests [OF l this assms(2,3)] show ?thesis
    using w' Now_case(2) [OF n0] by (simp add: frame)
qed

text \<open>After a key configuration request nothing is relayed any more.\<close>

lemma process_loop_config:
  assumes "process_loop E send (NewServer relay keyConfig mx (Some recordTraffic)) evs p w = (res, p', w')"
    and "st_configRequest (pr_st p)"
  shows "\<exists>reqs. outbound w' = outbound w @ reqs \<and> list_all key_request reqs"
  using assms
proof (induction evs arbitrary: p w)
  case (Cons ev evs)
  let ?s = "NewServer relay keyConfig mx (Some recordTraffic)"
  obtain c p1 w1 where st: "process_step E send ?s ev p w = (c, p1, w1)" by (metis prod_cases3)
  have c1: "st_configRequest (pr_st p1)" using process_step_config [OF st] Cons.prems(2) by simp
  obtain r1 where r1: "outbound w1 = outbound w @ r1" "list_all key_request r1"
    using process_step_effect(1) [where fits = "\<lambda>_. False", OF st] c1 by auto
  show ?case
  proof (cases c)
    case Continue
    with Cons.prems st have "process_loop E send ?s evs p1 w1 = (res, p', w')" by simp
    from Cons.IH [OF this c1] r1 show ?thesis by (auto intro: exI [of _ "r1 @ _"])
  next
    case (Return r)
    with Cons.prems st r1 show ?thesis by auto
  qed
qed simp

lemma process_loop_counters:
  "process_loop E send (NewServer relay keyConfig mx (Some recordTraffic)) evs p w = (res, p', w') \<Longrightarrow>
   list_all ctx_ok evs \<Longrightarrow>
   stream_counters w' = add_errors (case res of None \<Rightarrow> 0 | Some r \<Rightarrow> counted (Return r)) (stream_counters w)"
proof (induction evs arbitrary: p w)
  case (Cons ev evs)
  obtain c p1 w1 where st: "process_step E send (NewServer relay keyConfig mx (Some recordTraffic)) ev p w = (c, p1, w1)"
    by (metis prod_cases3)
  have eff: "stream_counters w1 = add_errors (counted c) (stream_counters w)"
    using process_step_effect(2) [OF st, of "\<lambda>_. True"] Cons.prems(2) by simp
  show ?case
  proof (cases c)
    case Continue
    with Cons st eff show ?thesis by (simp add: counted_def)
  next
    case (Return r)
    with Cons.prems st eff show ?thesis by auto
  qed
qed auto

lemma Process_config:
  assumes "Process E send (NewServer relay keyConfig mx (Some recordTraffic)) (Recv (Inr (RequestHeaders v)) # evs) w
      = (res, p, w')"
    and "extractHeaderValue (uni_lower E) v '':path'' = configsPath"
  shows "\<exists>reqs. outbound w' = outbound w @ reqs \<and> list_all key_request reqs"
proof -
  let ?s = "NewServer relay keyConfig mx (Some recordTraffic)" and ?ev = "Recv (Inr (RequestHeaders v))"
  obtain t0 w0 where n0: "Now E (with_metrics (\<lambda>l. l @ [AddInt64 ActiveRequests 1 []]) w) = (t0, w0)" by fastforce
  obtain p1 w1 where l: "process_loop E send ?s (?ev # evs) proc_init w0 = (res, p1, w1)"
    and w': "outbound w' = outbound w1"
    using assms(1) n0 Now_frame(2) [of E]
    by (auto simp: Process_def Let_def frame dest: Now_case(2) split: prod.splits option.splits)
  obtain c p2 w2 where st: "process_step E send ?s ?ev proc_init w0 = (c, p2, w2)" by (metis prod_cases3)
  have c2: "st_configRequest (pr_st p2)" using process_step_config_headers [OF st assms(2)] .
  obtain r1 where r1: "outbound w2 = outbound w0 @ r1" "list_all key_request r1"
    using process_step_effect(1) [where fits = "\<lambda>_. False", OF st] c2 by auto
  have "\<exists>reqs. outbound w1 = outbound w0 @ reqs \<and> list_all key_request reqs"
  proof (cases c)
    case Continue
    with l st have "process_loop E send ?s evs p2 w2 = (res, p1, w1)" by simp
    from process_loop_config [OF this c2] r1 show ?thesis by (auto intro: exI [of _ "r1 @ _"])
  next
    case (Return r)
    with l st r1 show ?thesis by auto
  qed
  then show ?thesis using w' Now_case(2) [OF n0] by (simp add: frame)
qed

lemma Process_counters:
  assumes "Process E send (NewServer relay keyConfig mx (Some recordTraffic)) evs w = (Some r, p, w')"
    and "list_all ctx_ok evs"
  shows "counter_value ActiveRequests (metrics_log w') = counter_value ActiveRequests (metrics_log w)
     \<and> counter_value RequestsTotal (metrics_log w') = counter_value RequestsTotal (metrics_log w) + 1
     \<and> counter_value ErrorsTotal (metrics_log w') = counter_value ErrorsTotal (metrics_log w) + counted (Return r)"
proof -
  let ?s = "NewServer relay keyConfig mx (Some recordTraffic)"
  obtain t0 w0 where n0: "Now E (with_metrics (\<lambda>l. l @ [AddInt64 ActiveRequests 1 []]) w) = (t0, w0)" by fastforce
  obtain w1 where l: "process_loop E send ?s evs proc_init w0 = (Some r, p, w1)"
    using assms(1) n0 by (auto simp: Process_def Let_def split: prod.splits option.splits)
  obtain t2 w2 where n2: "Now E w1 = (t2, w2)" by fastforce
  have "stream_counters w1 = add_errors (counted (Return r)) (stream_counters w0)"
    using process_loop_counters [OF l assms(2)] by simp
  moreover have "metrics_log w2 = metrics_log w1" "metrics_log w0 = metrics_log w @ [AddInt64 ActiveRequests 1 []]"
    using Now_case(1) [OF n2] Now_case(1) [OF n0] by (simp_all add: frame)
  ultimately show ?thesis
    using assms(1) n0 l n2
    by (auto simp: Process_def Let_def stream_counters_def add_errors_def frame)
qed

end

end
