(* ===== verification/Outcomes.thy ===== *)
theory Outcomes
  imports Stream
begin

text \<open>
  What a stream gives back: the responses it sends, the decision on a header message, the
  answer to a failing gateway, and the complete run of a relayed request.
\<close>

section \<open>Responses\<close>

definition received :: "stream_event \<Rightarrow> bool" where
  "received ev \<longleftrightarrow> (case ev of Recv (Inr _) \<Rightarrow> True | _ \<Rightarrow> False)"

lemma client_responses_prefix: "client_responses rs \<Longrightarrow> prefix rs' rs \<Longrightarrow> client_responses rs'"
  by (auto simp: client_responses_def prefix_def)

lemma process_step_responses:
  assumes "process_step E send s ev p w = (c, p', w')"
  shows "\<exists>rs. pr_sent p' = pr_sent p @ rs \<and> client_responses rs \<and> (\<not> received ev \<longrightarrow> rs = [])"
proof (cases "\<exists>req. ev = Recv (Inr req)")
  case True
  then obtain req where ev: "ev = Recv (Inr req)" ..
  obtain r p1 w1 where d: "dispatch (uni_lower E) s req p w = (r, p1, w1)" by (metis prod_cases3)
  have p1: "pr_sent p1 = pr_sent p"
    using d by (cases req) (auto simp: dispatch_def Let_def split: prod.splits)
  show ?thesis
  proof (cases "\<exists>rs. r = Some (Inr rs)")
    case True
    then obtain rs where rs: "r = Some (Inr rs)" ..
    have "send_responses send rs p1 w1 = (c, p', w')" using assms d rs by (simp add: ev process_step_def)
    from send_responses_frame(5) [OF this] dispatch_responses [of "uni_lower E" s req p w rs] d rs p1
    show ?thesis by (auto simp: ev received_def dest: client_responses_prefix)
  next
    case False
    with assms d p1 show ?thesis
      by (auto simp: ev process_step_def split: option.splits sum.splits)
  qed
next
  case False
  with assms show ?thesis
    by (auto simp: process_step_def split: stream_event.splits sum.splits if_splits)
qed

lemma process_loop_responses:
  assumes "process_loop E send s evs p w = (res, p', w')"
  shows "\<exists>rs. pr_sent p' = pr_sent p @ rs \<and> length rs \<le> length (filter received evs)
     \<and> list_all (\<lambda>r. error_response r \<or> ok_response r) rs"
  using assms
proof (induction evs arbitrary: p w)
  case (Cons ev evs)
  obtain c p1 w1 where st: "process_step E send s ev p w = (c, p1, w1)" by (metis prod_cases3)
  obtain r1 where r1: "pr_sent p1 = pr_sent p @ r1" "client_responses r1" "\<not> received ev \<longrightarrow> r1 = []"
    using process_step_responses [OF st] by blast
  have len: "length r1 \<le> (if received ev then 1 else 0)" using r1 by (auto simp: client_responses_def)
  show ?case
  proof (cases c)
    case Continue
    with Cons.prems st have "process_loop E send s evs p1 w1 = (res, p', w')" by simp
    from Cons.IH [OF this] obtain r2 where "pr_sent p' = pr_sent p1 @ r2"
      "length r2 \<le> length (filter received evs)" "list_all (\<lambda>r. error_response r \<or> ok_response r) r2" by blast
    with r1 len show ?thesis
      by (intro exI [of _ "r1 @ r2"]) (auto simp: client_responses_def split: if_splits)
  next
    case (Return r)
    with Cons.prems st r1 len show ?thesis
      by (intro exI [of _ r1]) (auto simp: client_responses_def split: if_splits)
  qed
qed simp

text \<open>
  C4: what clients can see. Whatever the gateway, the key source or Redis answer, every
  response of a stream is either a 200 whose only header is one of the two OHTTP media types,
  or an error whose body is the standard text of a fixed list of codes, without any internal
  detail; and a stream sends at most one response per message it received.
\<close>

theorem Process_responses:
  "case Process E send s evs w of (res, p, w') \<Rightarrow>
     length (pr_sent p) \<le> length (filter received evs)
     \<and> list_all (\<lambda>r. error_response r \<or> ok_response r) (pr_sent p)"
proof -
  obtain t0 w0 where n0: "Now E (with_metrics (\<lambda>l. l @ [AddInt64 ActiveRequests 1 []]) w) = (t0, w0)" by fastforce
  obtain res p w1 where l: "process_loop E send s evs proc_init w0 = (res, p, w1)" by (metis prod_cases3)
  from process_loop_responses [OF l]
  have "length (pr_sent p) \<le> length (filter received evs)"
    "list_all (\<lambda>r. error_response r \<or> ok_response r) (pr_sent p)"
    by (auto simp: proc_init_def)
  then show ?thesis by (simp add: Process_def n0 l Let_def split: option.split prod.split)
qed

section \<open>The decision on the headers\<close>

definition request_method :: "(rune \<Rightarrow> rune) \<Rightarrow> HttpHeaders option \<Rightarrow> string" where
  "request_method lc v =
     (if extractHeaderValue lc v '':method'' \<noteq> [] then ToLower lc (extractHeaderValue lc v '':method'')
      else ToLower lc (extractHeaderValue lc v ''method''))"

definition request_host :: "(rune \<Rightarrow> rune) \<Rightarrow> HttpHeaders option \<Rightarrow> string" where
  "request_host lc v =
     (if extractHeaderValue lc v '':authority'' \<noteq> [] then ToLower lc (extractHeaderValue lc v '':authority'')
      else ToLower lc (extractHeaderValue lc v ''host''))"

text \<open>The media type is absent or that of an encapsulated request.\<close>

definition ohttp_request_type :: "string \<Rightarrow> bool" where
  "ohttp_request_type ct \<longleftrightarrow> ct = [] \<or> EqualFold ct ContentTypeOHTTPReq"

definition accepted_headers :: "(rune \<Rightarrow> rune) \<Rightarrow> HttpHeaders option \<Rightarrow> bool" where
  "accepted_headers lc v \<longleftrightarrow>
     extractHeaderValue lc v '':path'' \<noteq> configsPath \<and> request_method lc v = ''post''
     \<and> ohttp_request_type (extractHeaderValue lc v ''content-type'')
     \<and> extractHeaderValue lc v ''content-length'' \<notin> {[], ''0''}"

lemma respondKeyConfig_one:
  "\<exists>r. fst (respondKeyConfig lc s v st w) = Inr [r]"
  by (auto simp: respondKeyConfig_def immediateErrorResponse_def Let_def split: prod.split sum.split)

text \<open>The state after the fields of the header message are noted.\<close>

definition noted :: "(rune \<Rightarrow> rune) \<Rightarrow> HttpHeaders option \<Rightarrow> streamState \<Rightarrow> streamState" where
  "noted lc v st = st\<lparr>st_httpMethod := request_method lc v, st_host := request_host lc v,
                      st_reqContentType := extractHeaderValue lc v ''content-type''\<rparr>"

text \<open>The response of an error, whatever is logged with it.\<close>

definition plain_error :: "int \<Rightarrow> ProcessingResponse list" where
  "plain_error code = immediateErrorResponse code (Detail [] [])"

lemma immediateErrorResponse_plain: "immediateErrorResponse code d = plain_error code"
  by (simp add: plain_error_def immediateErrorResponse_def)

lemma plain_error_one: "\<exists>r. plain_error code = [r]"
  by (simp add: plain_error_def immediateErrorResponse_def Let_def)

lemma on_request_headers_alt:
  "on_request_headers lc s v st w =
     (if extractHeaderValue lc v '':path'' = configsPath
      then (fst (respondKeyConfig lc s v (noted lc v st) w), (noted lc v st)\<lparr>st_configRequest := True\<rparr>,
            snd (respondKeyConfig lc s v (noted lc v st) w))
      else if accepted_headers lc v then (Inr [], noted lc v st, w)
      else (Inr (plain_error
              (if request_method lc v \<noteq> ''post'' then 405
               else if \<not> ohttp_request_type (extractHeaderValue lc v ''content-type'') then 415 else 411)),
            noted lc v st, w))"
proof -
  have m: "(if ToLower lc (extractHeaderValue lc v '':method'') = []
       then ToLower lc (extractHeaderValue lc v ''method'')
       else ToLower lc (extractHeaderValue lc v '':method'')) = request_method lc v"
    and h: "(if ToLower lc (extractHeaderValue lc v '':authority'') = []
       then ToLower lc (extractHeaderValue lc v ''host'')
       else ToLower lc (extractHeaderValue lc v '':authority'')) = request_host lc v"
    by (auto simp: request_method_def request_host_def)
  show ?thesis
    unfolding on_request_headers_def Let_def m h immediateErrorResponse_plain noted_def [symmetric]
    by (simp add: accepted_headers_def ohttp_request_type_def noted_def split: prod.split)
qed

lemma on_request_headers_state:
  "fst (snd (on_request_headers lc s v st w)) =
     \<lparr>st_host = request_host lc v,
      st_configRequest = (st_configRequest st \<or> extractHeaderValue lc v '':path'' = configsPath),
      st_reqContentType = extractHeaderValue lc v ''content-type'',
      st_httpMethod = request_method lc v, st_body = st_body st\<rparr>"
  by (simp add: on_request_headers_alt noted_def)

lemma on_request_headers_accepts:
  "fst (on_request_headers lc s v st w) = Inr [] \<longleftrightarrow> accepted_headers lc v"
  using respondKeyConfig_one [of lc s v "noted lc v st" w]
    plain_error_one
  by (auto simp: on_request_headers_alt accepted_headers_def) (metis list.distinct(1))+

lemma on_request_headers_answers:
  "\<not> accepted_headers lc v \<Longrightarrow> \<exists>r. fst (on_request_headers lc s v st w) = Inr [r]"
  using respondKeyConfig_one [of lc s v "noted lc v st" w]
    plain_error_one
  by (simp add: on_request_headers_alt)

lemma on_request_headers_accepted:
  assumes "accepted_headers lc v"
  shows "on_request_headers lc s v st w =
     (Inr [], \<lparr>st_host = request_host lc v, st_configRequest = st_configRequest st,
               st_reqContentType = extractHeaderValue lc v ''content-type'',
               st_httpMethod = ''post'', st_body = st_body st\<rparr>, w)"
  using assms by (simp add: on_request_headers_alt noted_def accepted_headers_def)

text \<open>
  C20: a header message is let through without a response exactly when its path is not that of
  the key configuration, the method is POST, the media type is absent or that of an
  encapsulated request and the content length is present and not zero. Every other header
  message is answered at once with one response; the host, method and media type are noted
  in all cases and the body is left alone.
\<close>

theorem on_request_headers_decision:
  "(fst (on_request_headers lc s v st w) = Inr [] \<longleftrightarrow> accepted_headers lc v)
   \<and> (accepted_headers lc v \<or> (\<exists>r. fst (on_request_headers lc s v st w) = Inr [r]))
   \<and> fst (snd (on_request_headers lc s v st w)) =
     \<lparr>st_host = request_host lc v,
      st_configRequest = (st_configRequest st \<or> extractHeaderValue lc v '':path'' = configsPath),
      st_reqContentType = extractHeaderValue lc v ''content-type'',
      st_httpMethod = request_method lc v, st_body = st_body st\<rparr>"
  using on_request_headers_accepts on_request_headers_answers on_request_headers_state by metis


text \<open>
  C21: how a header message of another path is refused. The first check that fails decides:
  a method other than POST gets 405; a wrong media type and a missing or zero content length
  both get the status 500, although the text of the body is that of 415 and of 411.
\<close>

theorem header_refusals:
  assumes "\<not> accepted_headers lc v" and "extractHeaderValue lc v '':path'' \<noteq> configsPath"
  shows "fst (on_request_headers lc s v st w) = Inr [PR_Immediate
    (if request_method lc v \<noteq> ''post'' then
       \<lparr>ir_Status = Some 405, ir_SetHeaders = [(''content-type'', ''text/plain'')], ir_Body = ''Method Not Allowed''\<rparr>
     else if \<not> ohttp_request_type (extractHeaderValue lc v ''content-type'') then
       \<lparr>ir_Status = Some 500, ir_SetHeaders = [(''content-type'', ''text/plain'')], ir_Body = ''Unsupported Media Type''\<rparr>
     else
       \<lparr>ir_Status = Some 500, ir_SetHeaders = [(''content-type'', ''text/plain'')], ir_Body = ''Length Required''\<rparr>)]"
  using assms
  by (simp add: on_request_headers_alt plain_error_def immediateErrorResponse_def envoy_status_def StatusText_used)

theorem header_refusals_witness:
  "fst (on_request_headers id example_server (Some \<lparr>hh_Headers = Some [raw_header '':method'' ''POST'']\<rparr>)
      (pr_st proc_init) example_world) = Inr [PR_Immediate \<lparr>ir_Status = Some 500,
        ir_SetHeaders = [(''content-type'', ''text/plain'')], ir_Body = ''Length Required''\<rparr>]"
proof -
  let ?v = "Some \<lparr>hh_Headers = Some [raw_header '':method'' ''POST'']\<rparr>"
  have 1: "\<not> accepted_headers id ?v" and 2: "extractHeaderValue id ?v '':path'' \<noteq> configsPath"
    and 3: "request_method id ?v = ''post''" and 4: "extractHeaderValue id ?v ''content-type'' = []"
    by code_simp+
  from header_refusals [OF 1 2] 3 4 show ?thesis by (simp add: ohttp_request_type_def)
qed

section \<open>Failing gateways\<close>

definition bad_gateway :: ProcessingResponse where
  "bad_gateway = PR_Immediate \<lparr>ir_Status = Some 502, ir_SetHeaders = [(''content-type'', ''text/plain'')],
                               ir_Body = ''Bad Gateway''\<rparr>"

definition relayed_response :: "bytes \<Rightarrow> ProcessingResponse" where
  "relayed_response b = PR_Immediate \<lparr>ir_Status = Some 200,
     ir_SetHeaders = [(''content-type'', ''message/ohttp-res'')], ir_Body = b\<rparr>"

text \<open>No answer, an answer that breaks off, or one that is not a success.\<close>

definition gateway_failed :: "http_response result \<Rightarrow> bool" where
  "gateway_failed r \<longleftrightarrow>
     (case r of Inl _ \<Rightarrow> True
      | Inr rsp \<Rightarrow> rs_BodyErr rsp \<noteq> None \<or> \<not> (200 \<le> rs_StatusCode rsp \<and> rs_StatusCode rsp < 300))"

lemma go_div_class: "go_div n 100 = 2 \<longleftrightarrow> 200 \<le> n \<and> n < 300"
  by (auto simp: go_div_def sgn_if)

text \<open>The content type the handler hands to the relayer.\<close>

definition forwarded_type :: "string \<Rightarrow> string" where
  "forwarded_type ct = (if ohttp_request_type ct then ContentTypeOHTTPReq else ct)"

text \<open>The accounting after a relayed response.\<close>

definition account :: "'x Server \<Rightarrow> string \<Rightarrow> int64 \<Rightarrow> int64 \<Rightarrow> 'x world \<Rightarrow> 'x world" where
  "account s host i out w =
     (let w = with_metrics (RecordTrafficIO host i out) w
      in case sv_trafficMetrics s of None \<Rightarrow> w | Some record \<Rightarrow> snd (record host i out w))"

lemma forwardAndRespond_out:
  assumes "\<not> st_configRequest st"
    and "sv_relayer s (st_host st) (st_body st) (forwarded_type (st_reqContentType st)) (st_httpMethod st) w = (r, w1)"
  shows "forwardAndRespond s st w =
    (if gateway_failed r then (Inr [bad_gateway], w1)
     else (Inr [relayed_response (rs_Body (projr r))],
           account s (st_host st) (len64 (st_body st)) (len64 (rs_Body (projr r))) w1))"
proof -
  have ct: "(if st_reqContentType st \<noteq> [] \<and> \<not> EqualFold (st_reqContentType st) ContentTypeOHTTPReq
     then st_reqContentType st else ContentTypeOHTTPReq) = forwarded_type (st_reqContentType st)"
    by (simp add: forwarded_type_def ohttp_request_type_def)
  have bg: "immediateErrorResponse 502 d = [bad_gateway]" for d
    by (simp add: immediateErrorResponse_def envoy_status_def bad_gateway_def StatusText_used)
  show ?thesis
    using assms
    by (cases r)
       (auto simp: forwardAndRespond_def ct bg gateway_failed_def go_div_class ReadAll_def account_def
          relayed_response_def ContentTypeOHTTPRes_def Let_def split: option.split)
qed

text \<open>
  C19: a forwarded body has two outcomes. When the relay call fails, the answer breaks off or
  its status is not 2xx, the client gets the same 502 with the same body in all cases and
  no traffic is accounted; otherwise it gets a 200 with exactly the gateway's bytes and the
  sizes of the request and the response are accounted once to the host.
\<close>

theorem forwardAndRespond_outcome:
  assumes "\<not> st_configRequest st"
    and "sv_relayer s (st_host st) (st_body st) (forwarded_type (st_reqContentType st)) (st_httpMethod st) w = (r, w1)"
  shows "forwardAndRespond s st w =
    (if gateway_failed r then (Inr [bad_gateway], w1)
     else (Inr [relayed_response (rs_Body (projr r))],
           account s (st_host st) (len64 (st_body st)) (len64 (rs_Body (projr r))) w1))"
  using assms by (rule forwardAndRespond_out)

theorem forwardAndRespond_outcome_witness:
  "forwardAndRespond (NewServer (\<lambda>_ _ _ _ w. (Inr \<lparr>rs_StatusCode = 204, rs_Header = Map.empty,
        rs_Body = ''r'', rs_BodyErr = None\<rparr>, w)) (\<lambda>_ w. (Inr [], w)) 10 None) (pr_st proc_init) example_world =
     (Inr [relayed_response ''r''], with_metrics (RecordTrafficIO [] 0 1) example_world)"
proof -
  let ?rsp = "\<lparr>rs_StatusCode = 204, rs_Header = Map.empty, rs_Body = ''r'', rs_BodyErr = None\<rparr>"
  let ?s = "NewServer (\<lambda>_ _ _ _ w. (Inr ?rsp, w)) (\<lambda>_ w. (Inr [], w)) 10 None :: unit Server"
  have 1: "\<not> st_configRequest (pr_st proc_init)" by (simp add: proc_init_def)
  have 2: "sv_relayer ?s (st_host (pr_st proc_init)) (st_body (pr_st proc_init))
      (forwarded_type (st_reqContentType (pr_st proc_init))) (st_httpMethod (pr_st proc_init)) example_world
    = (Inr ?rsp, example_world)" by (simp add: NewServer_def)
  have 3: "\<not> gateway_failed (Inr ?rsp)" by (simp add: gateway_failed_def)
  from forwardAndRespond_outcome [OF 1 2] 3 show ?thesis
    by (simp add: account_def NewServer_def proc_init_def len64_def)
qed

section \<open>A relayed request\<close>

definition headers_event :: "HttpHeaders option \<Rightarrow> stream_event" where
  "headers_event v = Recv (Inr (RequestHeaders v))"

text \<open>The events of a request whose body comes in the pieces \<open>cs\<close> and a last piece \<open>c\<close>.\<close>

definition request_events :: "HttpHeaders option \<Rightarrow> bytes list \<Rightarrow> bytes \<Rightarrow> stream_event list" where
  "request_events v cs c =
     headers_event v # map (\<lambda>b. body_event b False) cs @ [body_event c True, Recv (Inl EOF)]"

lemma process_step_headers_accepted:
  assumes "accepted_headers (uni_lower E) v"
  shows "process_step E send s (headers_event v) p w =
     (Continue, p\<lparr>pr_st := \<lparr>st_host = request_host (uni_lower E) v, st_configRequest = st_configRequest (pr_st p),
         st_reqContentType = extractHeaderValue (uni_lower E) v ''content-type'',
         st_httpMethod = ''post'', st_body = st_body (pr_st p)\<rparr>\<rparr>, w)"
  by (simp add: process_step_def headers_event_def dispatch_def on_request_headers_accepted [OF assms])

lemma account_outbound:
  assumes "\<And>record. sv_trafficMetrics s = Some record \<Longrightarrow> traffic_recorder record"
  shows "outbound (account s host i out w) = outbound w"
  by (auto simp: account_def Let_def frame traffic_recorder.record_outbound [OF assms] split: option.split)

text \<open>Relaying a body over any relayer that answers, from any state that holds no body yet.\<close>

lemma body_relayed:
  assumes st: "\<not> st_configRequest (pr_st p)" "st_body (pr_st p) = []"
    and fit: "int (length (concat cs @ c)) \<le> sint (sv_maxRequestBodySize s)"
    and answer: "\<exists>w'. sv_relayer s (st_host (pr_st p)) (concat cs @ c) (forwarded_type (st_reqContentType (pr_st p)))
        (st_httpMethod (pr_st p)) w = (Inr rsp, w') \<and> outbound w' = outbound w @ [req]"
    and ok: "\<not> gateway_failed (Inr rsp)"
    and rec: "\<And>record. sv_trafficMetrics s = Some record \<Longrightarrow> traffic_recorder record"
    and send: "\<And>r x. fst (send r x) = None"
  shows "\<exists>p' w'. process_loop E send s (map (\<lambda>b. body_event b False) cs @ [body_event c True, Recv (Inl EOF)]) p w
       = (Some None, p', w')
     \<and> pr_sent p' = pr_sent p @ [relayed_response (rs_Body rsp)] \<and> outbound w' = outbound w @ [req]"
proof -
  let ?st = "(pr_st p)\<lparr>st_body := concat cs @ c\<rparr>"
  obtain w1 where w1: "sv_relayer s (st_host ?st) (st_body ?st) (forwarded_type (st_reqContentType ?st)) (st_httpMethod ?st) w
      = (Inr rsp, w1)" "outbound w1 = outbound w @ [req]" using answer by auto
  define w2 where "w2 = account s (st_host ?st) (len64 (concat cs @ c)) (len64 (rs_Body rsp)) w1"
  have fwd: "forwardAndRespond s ?st w = (Inr [relayed_response (rs_Body rsp)], w2)"
    using forwardAndRespond_out [OF _ w1(1)] st(1) ok by (simp add: w2_def)
  obtain x where x: "send (relayed_response (rs_Body rsp)) (env w2) = (None, x)"
    using send by (metis prod.collapse)
  have "process_loop E send s (map (\<lambda>b. body_event b False) cs @ [body_event c True, Recv (Inl EOF)]) p w =
      process_loop E send s [body_event (concat cs @ c) True, Recv (Inl EOF)] p w"
    using fit st(2) by (intro chunked_transparent) simp
  also have "\<dots> = process_loop E send s [Recv (Inl EOF)]
      (note_response (relayed_response (rs_Body rsp))
        (p\<lparr>pr_reqSize := pr_reqSize p + len64 (concat cs @ c), pr_st := ?st\<rparr>)) (w2\<lparr>env := x\<rparr>)"
    using fit fwd x st(2) by (simp add: process_step_body_last send_responses_one)
  finally show ?thesis
    using w1(2) account_outbound [OF rec, of s] by (simp add: process_step_def w2_def)
qed

lemma process_loop_relays:
  assumes hdr: "accepted_headers (uni_lower E) v"
    and fit: "int (length (concat cs @ c)) \<le> sint (sv_maxRequestBodySize s)"
    and answer: "\<exists>w'. sv_relayer s (request_host (uni_lower E) v) (concat cs @ c) ContentTypeOHTTPReq ''post'' w
        = (Inr rsp, w') \<and> outbound w' = outbound w @ [req]"
    and ok: "\<not> gateway_failed (Inr rsp)"
    and rec: "\<And>record. sv_trafficMetrics s = Some record \<Longrightarrow> traffic_recorder record"
    and send: "\<And>r x. fst (send r x) = None"
  shows "\<exists>p w'. process_loop E send s (request_events v cs c) proc_init w = (Some None, p, w')
     \<and> pr_sent p = [relayed_response (rs_Body rsp)] \<and> outbound w' = outbound w @ [req]"
proof -
  let ?lc = "uni_lower E"
  let ?p = "proc_init\<lparr>pr_st := \<lparr>st_host = request_host ?lc v, st_configRequest = False,
    st_reqContentType = extractHeaderValue ?lc v ''content-type'', st_httpMethod = ''post'', st_body = []\<rparr>\<rparr>"
  have "forwarded_type (extractHeaderValue ?lc v ''content-type'') = ContentTypeOHTTPReq"
    using hdr by (simp add: accepted_headers_def forwarded_type_def)
  with answer have "\<exists>p' w'. process_loop E send s (map (\<lambda>b. body_event b False) cs @ [body_event c True, Recv (Inl EOF)]) ?p w
       = (Some None, p', w') \<and> pr_sent p' = pr_sent ?p @ [relayed_response (rs_Body rsp)] \<and> outbound w' = outbound w @ [req]"
    by (intro body_relayed [OF _ _ fit _ ok rec send]) simp_all
  then show ?thesis
    by (simp add: request_events_def process_step_headers_accepted [OF hdr]) (simp add: proc_init_def)
qed

text \<open>A relayer that fails: the client gets one 502.\<close>

lemma process_loop_fails:
  assumes hdr: "accepted_headers (uni_lower E) v"
    and fit: "int (length (concat cs @ c)) \<le> sint (sv_maxRequestBodySize s)"
    and fails: "\<exists>err w'. sv_relayer s (request_host (uni_lower E) v) (concat cs @ c) ContentTypeOHTTPReq ''post'' w
        = (Inl err, w') \<and> outbound w' = outbound w"
    and send: "\<And>r x. fst (send r x) = None"
  shows "\<exists>p w'. process_loop E send s (request_events v cs c) proc_init w = (Some None, p, w')
     \<and> pr_sent p = [bad_gateway] \<and> outbound w' = outbound w"
proof -
  let ?lc = "uni_lower E"
  let ?p = "proc_init\<lparr>pr_st := \<lparr>st_host = request_host ?lc v, st_configRequest = False,
    st_reqContentType = extractHeaderValue ?lc v ''content-type'', st_httpMethod = ''post'', st_body = []\<rparr>\<rparr>"
  let ?st = "(pr_st ?p)\<lparr>st_body := concat cs @ c\<rparr>"
  have ct: "forwarded_type (extractHeaderValue ?lc v ''content-type'') = ContentTypeOHTTPReq"
    using hdr by (simp add: accepted_headers_def forwarded_type_def)
  obtain err w1 where w1: "sv_relayer s (st_host ?st) (st_body ?st) (forwarded_type (st_reqContentType ?st)) (st_httpMethod ?st) w
      = (Inl err, w1)" "outbound w1 = outbound w" using fails by (auto simp: ct)
  have fwd: "forwardAndRespond s ?st w = (Inr [bad_gateway], w1)"
    using forwardAndRespond_out [OF _ w1(1)] by (simp add: gateway_failed_def)
  obtain x where x: "send bad_gateway (env w1) = (None, x)" using send by (metis prod.collapse)
  have "process_loop E send s (map (\<lambda>b. body_event b False) cs @ [body_event c True, Recv (Inl EOF)]) ?p w =
      process_loop E send s [body_event (concat cs @ c) True, Recv (Inl EOF)] ?p w"
    using fit by (intro chunked_transparent) simp
  also have "\<dots> = process_loop E send s [Recv (Inl EOF)]
      (note_response bad_gateway (?p\<lparr>pr_reqSize := pr_reqSize ?p + len64 (concat cs @ c), pr_st := ?st\<rparr>)) (w1\<lparr>env := x\<rparr>)"
    using fit fwd x by (simp add: process_step_body_last send_responses_one)
  finally show ?thesis
    using w1(2) by (simp add: request_events_def process_step_headers_accepted [OF hdr])
      (simp add: process_step_def proc_init_def)
qed

text \<open>A refused header message that does not ask for the key configuration: one error, and the fields are noted.\<close>

definition refusal_code :: "(rune \<Rightarrow> rune) \<Rightarrow> HttpHeaders option \<Rightarrow> int" where
  "refusal_code lc v =
     (if request_method lc v \<noteq> ''post'' then 405
      else if \<not> ohttp_request_type (extractHeaderValue lc v ''content-type'') then 415 else 411)"

lemma process_step_headers_refused:
  assumes "extractHeaderValue (uni_lower E) v '':path'' \<noteq> configsPath" and "\<not> accepted_headers (uni_lower E) v"
    and send: "\<And>r x. fst (send r x) = None"
  obtains x p' where "process_step E send s (headers_event v) p w = (Continue, p', w\<lparr>env := x\<rparr>)"
    "pr_sent p' = pr_sent p @ plain_error (refusal_code (uni_lower E) v)" "pr_st p' = noted (uni_lower E) v (pr_st p)"
proof -
  obtain r where r: "plain_error (refusal_code (uni_lower E) v) = [r]" using plain_error_one by blast
  obtain x where x: "send r (env w) = (None, x)" using send by (metis prod.collapse)
  have h: "on_request_headers (uni_lower E) s v (pr_st p) w = (Inr [r], noted (uni_lower E) v (pr_st p), w)"
    using assms(1,2) by (simp add: on_request_headers_alt flip: r) (simp add: refusal_code_def)
  have "process_step E send s (headers_event v) p w =
      (Continue, note_response r (p\<lparr>pr_st := noted (uni_lower E) v (pr_st p)\<rparr>), w\<lparr>env := x\<rparr>)"
    using x h by (simp add: process_step_def headers_event_def dispatch_def send_responses_one)
  then show thesis by (rule that) (simp_all add: r)
qed

text \<open>A piece of body that exceeds the limit: a 413, and what was collected is dropped.\<close>

lemma process_step_body_over:
  assumes "sint (sv_maxRequestBodySize s) < int (length (st_body (pr_st p) @ b))"
    and "int (length (st_body (pr_st p) @ b)) < 2 ^ 63" and send: "\<And>r x. fst (send r x) = None"
  obtains x p' where "process_step E send s (body_event b False) p w = (Continue, p', w\<lparr>env := x\<rparr>)"
    "pr_sent p' = pr_sent p @ plain_error 413" "pr_st p' = (pr_st p)\<lparr>st_body := []\<rparr>"
proof -
  obtain r where r: "plain_error 413 = [r]" using plain_error_one by blast
  obtain x where x: "send r (env w) = (None, x)" using send by (metis prod.collapse)
  have "sint (sv_maxRequestBodySize s) < sint (len64 (st_body (pr_st p)) + len64 b)"
    using fits_iff [OF assms(2), of "sv_maxRequestBodySize s"] assms(1) by linarith
  then have "process_step E send s (body_event b False) p w =
      (Continue, note_response r (p\<lparr>pr_reqSize := pr_reqSize p + len64 b, pr_st := (pr_st p)\<lparr>st_body := []\<rparr>\<rparr>), w\<lparr>env := x\<rparr>)"
    using x by (simp add: process_step_def body_event_def dispatch_def on_request_body_def immediateErrorResponse_plain r
        send_responses_one)
  then show thesis by (rule that) (simp_all add: r)
qed

text \<open>Pieces within the limit are collected.\<close>

lemma body_collected:
  assumes "int (length (st_body (pr_st p) @ concat cs)) \<le> sint (sv_maxRequestBodySize s)"
  shows "\<exists>p'. process_loop E send s (map (\<lambda>b. body_event b False) cs @ evs) p w = process_loop E send s evs p' w
     \<and> pr_sent p' = pr_sent p \<and> pr_st p' = (pr_st p)\<lparr>st_body := st_body (pr_st p) @ concat cs\<rparr>"
  using assms
proof (induction cs arbitrary: p)
  case Nil
  show ?case by (intro exI [of _ p]) simp
next
  case (Cons b cs)
  let ?p = "p\<lparr>pr_reqSize := pr_reqSize p + len64 b, pr_st := (pr_st p)\<lparr>st_body := st_body (pr_st p) @ b\<rparr>\<rparr>"
  have "process_step E send s (body_event b False) p w = (Continue, ?p, w)"
    using Cons.prems by (intro process_step_body_piece) simp
  moreover obtain p' where "process_loop E send s (map (\<lambda>b. body_event b False) cs @ evs) ?p w = process_loop E send s evs p' w"
    "pr_sent p' = pr_sent ?p" "pr_st p' = (pr_st ?p)\<lparr>st_body := st_body (pr_st ?p) @ concat cs\<rparr>"
    using Cons.IH [of ?p] Cons.prems by auto
  ultimately show ?case by (intro exI [of _ p']) simp
qed

section \<open>Streams that go on after a refusal\<close>

text \<open>
  C36: a request that ends in trailers is lost: trailers are ignored, and only a body piece marked as
  the end of the stream is forwarded. After accepted headers and any pieces of body within the
  limit, a trailer message and the end of the stream, nothing has been relayed, no response
  has been sent and \<open>Process\<close> returns without error.
\<close>

theorem trailers_after_body_answer_nothing:
  assumes "accepted_headers (uni_lower E) v" and "int (length (concat cs)) \<le> sint (sv_maxRequestBodySize s)"
  shows "\<exists>p. process_loop E send s
      (headers_event v # map (\<lambda>b. body_event b False) cs @ [Recv (Inr RequestTrailers), Recv (Inl EOF)]) proc_init w
    = (Some None, p, w) \<and> pr_sent p = []"
proof -
  let ?p = "proc_init\<lparr>pr_st := \<lparr>st_host = request_host (uni_lower E) v, st_configRequest = False,
         st_reqContentType = extractHeaderValue (uni_lower E) v ''content-type'', st_httpMethod = ''post'', st_body = []\<rparr>\<rparr>"
  obtain p' where "process_loop E send s (map (\<lambda>b. body_event b False) cs @ [Recv (Inr RequestTrailers), Recv (Inl EOF)]) ?p w
      = process_loop E send s [Recv (Inr RequestTrailers), Recv (Inl EOF)] p' w" "pr_sent p' = []"
    using body_collected [of ?p cs s E send "[Recv (Inr RequestTrailers), Recv (Inl EOF)]" w] assms(2)
    by (auto simp: proc_init_def)
  then show ?thesis
    by (simp add: process_step_headers_accepted [OF assms(1)]) (simp add: proc_init_def process_step_def dispatch_def)
qed

theorem trailers_after_body_answer_nothing_witness:
  "\<exists>p. process_loop example_externals example_send example_server
      (headers_event (Some \<lparr>hh_Headers = Some [raw_header '':method'' ''POST'', raw_header '':authority'' ''example.test'',
         raw_header ''content-length'' ''6'']\<rparr>)
       # map (\<lambda>b. body_event b False) [''opa'', ''que''] @ [Recv (Inr RequestTrailers), Recv (Inl EOF)])
      proc_init example_world = (Some None, p, example_world) \<and> pr_sent p = []"
proof (rule trailers_after_body_answer_nothing)
  show "accepted_headers (uni_lower example_externals)
      (Some \<lparr>hh_Headers = Some [raw_header '':method'' ''POST'', raw_header '':authority'' ''example.test'',
         raw_header ''content-length'' ''6'']\<rparr>)" by code_simp
  show "int (length (concat [''opa'', ''que''])) \<le> sint (sv_maxRequestBodySize example_server)"
    by (simp add: example_server_def NewServer_def Let_def)
qed

end
