(* ===== verification/Config.thy ===== *)
theory Config
  imports Go_Strings
begin

text \<open>
  \<open>pkg/ohttp-relay/config/config.go\<close>: the configuration record, \<open>Load\<close> over the flag
  values and the environment, and the parser of the static gateway map
  (\<open>parseDomainMap\<close>). \<open>DomainMap\<close> is a partial map; a Go lookup of a missing key gives
  the empty string, which the readers of the map write out.
\<close>

record ConfigT =
  GRPCPort :: int
  GRPCHealthPort :: int
  MetricsPort :: int
  MetricsAddr :: string
  GatewayURLs :: string
  RedisEnable :: bool
  RedisAddr :: string
  RedisPassword :: string
  RedisDB :: int
  RedisTLS :: bool
  Timeout :: duration
  MaxRequestBodySize :: int64
  LogVerbosity :: int
  DomainMap :: "string \<rightharpoonup> string"

text \<open>The values given on the command line; \<open>None\<close> where a flag is absent.\<close>

record flag_values =
  fl_grpc_port :: "int option"
  fl_grpc_health_port :: "int option"
  fl_metrics_port :: "int option"
  fl_metrics_addr :: "string option"
  fl_gateway_urls :: "string option"
  fl_redis_enable :: "bool option"
  fl_redis_addr :: "string option"
  fl_redis_password :: "string option"
  fl_redis_db :: "int option"
  fl_redis_tls :: "bool option"
  fl_timeout :: "duration option"
  fl_max_request_body_size :: "int64 option"
  fl_v :: "int option"

definition flag_or :: "'a option \<Rightarrow> 'a \<Rightarrow> 'a" where
  "flag_or v d = (case v of None \<Rightarrow> d | Some x \<Rightarrow> x)"

text \<open>\<open>logging.DEFAULT\<close> and its siblings.\<close>

definition logging_DEFAULT :: int where "logging_DEFAULT = 2"
definition logging_VERBOSE :: int where "logging_VERBOSE = 3"
definition logging_DEBUG :: int where "logging_DEBUG = 4"
definition logging_TRACE :: int where "logging_TRACE = 5"


section \<open>The static gateway map\<close>

definition errNoSeparator :: "string \<Rightarrow> go_error" where
  "errNoSeparator p = Errorf ''invalid mapping %q, expected domain:url or domain=url'' [p] None"

definition errEmptySide :: "string \<Rightarrow> go_error" where
  "errEmptySide p = Errorf ''invalid mapping %q, empty domain or url'' [p] None"

text \<open>The loop body for a piece that is not blank.\<close>

definition parse_pair :: "(rune \<Rightarrow> rune) \<Rightarrow> string \<Rightarrow> (string \<times> string) result" where
  "parse_pair lc p =
     (let kv = (if Contains p CHR ''='' then SplitN2 CHR ''='' p else SplitN2 CHR '':'' p)
      in case kv of
           [k, v] \<Rightarrow>
             (let domain = ToLower lc (TrimSpace k); url = TrimSpace v
              in if domain = [] \<or> url = [] then Inl (errEmptySide p) else Inr (domain, url))
         | _ \<Rightarrow> Inl (errNoSeparator p))"

fun parse_pairs :: "(rune \<Rightarrow> rune) \<Rightarrow> string list \<Rightarrow> (string \<rightharpoonup> string) \<Rightarrow> (string \<rightharpoonup> string) result" where
  "parse_pairs lc [] m = Inr m"
| "parse_pairs lc (p0 # ps) m =
     (let p = TrimSpace p0
      in if p = [] then parse_pairs lc ps m
         else (case parse_pair lc p of
                 Inl e \<Rightarrow> Inl e
               | Inr (domain, url) \<Rightarrow> parse_pairs lc ps (m(domain \<mapsto> url))))"

definition parseDomainMap :: "(rune \<Rightarrow> rune) \<Rightarrow> string \<Rightarrow> (string \<rightharpoonup> string) result" where
  "parseDomainMap lc spec =
     (if TrimSpace spec = [] then Inr Map.empty
      else parse_pairs lc (Split CHR '','' spec) Map.empty)"


section \<open>Load\<close>

definition Load :: "(rune \<Rightarrow> rune) \<Rightarrow> flag_values \<Rightarrow> (string \<Rightarrow> string) \<Rightarrow> ConfigT result" where
  "Load lc fl getenv =
     (let c = \<lparr>GRPCPort = flag_or (fl_grpc_port fl) 9006,
               GRPCHealthPort = flag_or (fl_grpc_health_port fl) 9007,
               MetricsPort = flag_or (fl_metrics_port fl) 9090,
               MetricsAddr = flag_or (fl_metrics_addr fl) '''',
               GatewayURLs = flag_or (fl_gateway_urls fl) '''',
               RedisEnable = flag_or (fl_redis_enable fl) False,
               RedisAddr = flag_or (fl_redis_addr fl) '''',
               RedisPassword = flag_or (fl_redis_password fl) '''',
               RedisDB = flag_or (fl_redis_db fl) 0,
               RedisTLS = flag_or (fl_redis_tls fl) False,
               Timeout = flag_or (fl_timeout fl) (9 * 1000000000),
               MaxRequestBodySize = flag_or (fl_max_request_body_size fl) (10 * 1024 * 1024),
               LogVerbosity = flag_or (fl_v fl) logging_DEFAULT,
               DomainMap = Map.empty\<rparr>;
          envPass = getenv ''REDIS_PASSWORD'';
          c = (if envPass \<noteq> '''' then c\<lparr>RedisPassword := envPass\<rparr> else c)
      in case parseDomainMap lc (GatewayURLs c) of
           Inl e \<Rightarrow> Inl (Errorf ''parse domain map: %w'' [] (Some e))
         | Inr m \<Rightarrow> Inr (c\<lparr>DomainMap := m\<rparr>))"


section \<open>Properties\<close>

text \<open>What every entry of a parsed map satisfies.\<close>

definition wf_domain_map :: "(rune \<Rightarrow> rune) \<Rightarrow> (string \<rightharpoonup> string) \<Rightarrow> bool" where
  "wf_domain_map lc m \<longleftrightarrow>
     (\<forall>d u. m d = Some u \<longrightarrow>
        u \<noteq> [] \<and> TrimSpace u = u \<and> d \<noteq> [] \<and> (\<exists>k. TrimSpace k = k \<and> d = ToLower lc k))"

lemma parse_pair_wf:
  assumes "parse_pair lc p = Inr (d, u)"
  shows "u \<noteq> []" "TrimSpace u = u" "d \<noteq> []" "\<exists>k. TrimSpace k = k \<and> d = ToLower lc k"
proof -
  obtain k v where "d = ToLower lc (TrimSpace k)" "u = TrimSpace v" "d \<noteq> []" "u \<noteq> []"
    using assms by (auto simp: parse_pair_def Let_def split: list.splits if_splits)
  then show "u \<noteq> []" "TrimSpace u = u" "d \<noteq> []" "\<exists>k. TrimSpace k = k \<and> d = ToLower lc k"
    using TrimSpace_idem by blast+
qed

lemma parse_pairs_wf:
  "parse_pairs lc ps m = Inr m' \<Longrightarrow> wf_domain_map lc m \<Longrightarrow> wf_domain_map lc m'"
proof (induction lc ps m rule: parse_pairs.induct)
  case (2 lc p0 ps m)
  show ?case
  proof (cases "TrimSpace p0 = []")
    case False
    then obtain d u where du: "parse_pair lc (TrimSpace p0) = Inr (d, u)"
      and rest: "parse_pairs lc ps (m(d \<mapsto> u)) = Inr m'"
      using "2.prems"(1) by (auto simp: Let_def split: sum.splits)
    have "wf_domain_map lc (m(d \<mapsto> u))"
      using "2.prems"(2) parse_pair_wf [OF du] by (auto simp: wf_domain_map_def)
    then show ?thesis using "2.IH"(2) [OF refl False du refl] rest by blast
  qed (use 2 in \<open>simp add: Let_def\<close>)
qed simp

text \<open>A later mapping of the same domain replaces an earlier one; blank pieces are skipped.\<close>

lemma parse_pairs_mappings:
  assumes "list_all2 (\<lambda>p kv. TrimSpace p \<noteq> [] \<and> parse_pair lc (TrimSpace p) = Inr kv) ps kvs"
  shows "parse_pairs lc ps m = Inr (m ++ map_of (rev kvs))"
  using assms
proof (induction arbitrary: m rule: list_all2_induct)
  case (Cons p ps kv kvs)
  then show ?case
    by (cases kv) (auto simp: Let_def map_add_def fun_eq_iff split: option.splits)
qed simp


lemma parse_pairs_is_err:
  "is_err (parse_pairs lc ps m) \<longleftrightarrow>
     (\<exists>p \<in> set ps. TrimSpace p \<noteq> [] \<and> is_err (parse_pair lc (TrimSpace p)))"
proof (induction ps arbitrary: m)
  case (Cons p0 ps)
  then show ?case
    by (cases "parse_pair lc (TrimSpace p0)") (auto simp: Let_def)
qed simp

text \<open>A piece without a separator, or with a blank domain or URL.\<close>

definition malformed_mapping :: "string \<Rightarrow> bool" where
  "malformed_mapping p \<longleftrightarrow>
     (let sep = (if CHR ''='' \<in> set p then CHR ''='' else CHR '':'')
      in sep \<notin> set p
       \<or> TrimSpace (takeWhile (\<lambda>c. c \<noteq> sep) p) = []
       \<or> TrimSpace (tl (dropWhile (\<lambda>c. c \<noteq> sep) p)) = [])"

lemma is_err_parse_pair_sep:
  "is_err (case SplitN2 sep p of
             [k, v] \<Rightarrow>
               (let domain = ToLower lc (TrimSpace k); url = TrimSpace v
                in if domain = [] \<or> url = [] then Inl (errEmptySide q) else Inr (domain, url))
           | _ \<Rightarrow> Inl (errNoSeparator q))
   \<longleftrightarrow> sep \<notin> set p \<or> TrimSpace (takeWhile (\<lambda>c. c \<noteq> sep) p) = []
     \<or> TrimSpace (tl (dropWhile (\<lambda>c. c \<noteq> sep) p)) = []"
proof (cases sep p rule: SplitN2_cases)
  case (two a b)
  then show ?thesis by (auto simp: Let_def takeWhile_cut dropWhile_cut)
qed (simp add: Let_def)

lemma is_err_parse_pair: "is_err (parse_pair lc p) \<longleftrightarrow> malformed_mapping p"
  unfolding parse_pair_def malformed_mapping_def Contains_def Let_def [of "if _ then SplitN2 _ _ else _"]
  by (cases "CHR ''='' \<in> set p") (simp_all add: is_err_parse_pair_sep Let_def [of "CHR ''=''"] Let_def [of "CHR '':''"])

lemma blank_spec_pieces:
  assumes "TrimSpace s = []" shows "Split CHR '','' s = [s]"
proof (rule Split_no_sep)
  show "CHR '','' \<notin> set s"
    using TrimSpace_keeps [of "CHR '',''" s] space_encodings_bytes assms by auto
qed

text \<open>Writing a list of mappings in the form the flag takes.\<close>

definition show_domain_map :: "char \<Rightarrow> (string \<times> string) list \<Rightarrow> string" where
  "show_domain_map sep kvs = join_with CHR '','' (map (\<lambda>(d, u). d @ sep # u) kvs)"

definition plain_mapping :: "(rune \<Rightarrow> rune) \<Rightarrow> char \<Rightarrow> string \<times> string \<Rightarrow> bool" where
  "plain_mapping lc sep kv \<longleftrightarrow>
     (case kv of (d, u) \<Rightarrow>
        d \<noteq> [] \<and> u \<noteq> [] \<and> TrimSpace d = d \<and> TrimSpace u = u \<and> ToLower lc d = d \<and>
        CHR '','' \<notin> set d \<and> CHR '','' \<notin> set u \<and> CHR ''='' \<notin> set d \<and>
        (sep = CHR ''='' \<or> sep = CHR '':'' \<and> CHR '':'' \<notin> set d \<and> CHR ''='' \<notin> set u))"

lemma parse_pair_show:
  assumes "plain_mapping lc sep (d, u)"
  shows "TrimSpace (d @ sep # u) = d @ sep # u" "parse_pair lc (d @ sep # u) = Inr (d, u)"
    "CHR '','' \<notin> set (d @ sep # u)"
proof -
  show "TrimSpace (d @ sep # u) = d @ sep # u"
    using assms space_encodings_bytes by (intro TrimSpace_join) (auto simp: plain_mapping_def)
  have "(if Contains (d @ sep # u) CHR ''='' then SplitN2 CHR ''='' (d @ sep # u)
         else SplitN2 CHR '':'' (d @ sep # u)) = [d, u]"
    using assms by (auto simp: plain_mapping_def Contains_def SplitN2_cut)
  then show "parse_pair lc (d @ sep # u) = Inr (d, u)"
    using assms by (simp add: parse_pair_def plain_mapping_def)
qed (use assms in \<open>auto simp: plain_mapping_def\<close>)

text \<open>A written list of pieces, each of which parses to one entry.\<close>

lemma parseDomainMap_pieces:
  assumes "\<And>kv. kv \<in> set kvs \<Longrightarrow> TrimSpace (f kv) = f kv \<and> f kv \<noteq> [] \<and> CHR '','' \<notin> set (f kv) \<and> parse_pair lc (f kv) = Inr (g kv)"
  shows "parseDomainMap lc (join_with CHR '','' (map f kvs)) = Inr (map_of (rev (map g kvs)))"
proof (cases "kvs = []")
  case False
  let ?ps = "map f kvs" and ?s = "join_with CHR '','' (map f kvs)"
  have pieces: "Split CHR '','' ?s = ?ps"
    using assms False by (intro Split_join) auto
  have "list_all2 (\<lambda>p kv. TrimSpace p \<noteq> [] \<and> parse_pair lc (TrimSpace p) = Inr kv) ?ps (map g kvs)"
    using assms by (auto simp: list_all2_map1 list_all2_map2 intro!: list_all2_same [THEN iffD2])
  then have "parse_pairs lc ?ps Map.empty = Inr (map_of (rev (map g kvs)))"
    by (simp only: parse_pairs_mappings) simp
  moreover have "TrimSpace ?s \<noteq> []"
  proof
    assume blank: "TrimSpace ?s = []"
    then have "?ps = [?s]" using pieces blank_spec_pieces by metis
    then show False using assms [of "hd kvs"] False blank by (cases kvs) auto
  qed
  ultimately show ?thesis by (simp add: parseDomainMap_def pieces)
qed (simp add: parseDomainMap_def)

text \<open>
  A mapping as the flag help and the README write it, \<open>domain:url\<close>, for any URL; when the URL
  holds an equals sign, what follows the first one must not be blank.
\<close>

definition documented_mapping :: "(rune \<Rightarrow> rune) \<Rightarrow> string \<times> string \<Rightarrow> bool" where
  "documented_mapping lc kv \<longleftrightarrow>
     (case kv of (d, u) \<Rightarrow>
        d \<noteq> [] \<and> u \<noteq> [] \<and> TrimSpace d = d \<and> TrimSpace u = u \<and> ToLower lc d = d \<and>
        CHR '','' \<notin> set d \<and> CHR '','' \<notin> set u \<and> CHR ''='' \<notin> set d \<and> CHR '':'' \<notin> set d \<and>
        (CHR ''='' \<in> set u \<longrightarrow> TrimSpace (tl (dropWhile (\<lambda>c. c \<noteq> CHR ''='') u)) \<noteq> []))"

text \<open>The entry the parser makes of it.\<close>

definition as_read :: "(rune \<Rightarrow> rune) \<Rightarrow> string \<times> string \<Rightarrow> string \<times> string" where
  "as_read lc kv =
     (case kv of (d, u) \<Rightarrow>
        if CHR ''='' \<in> set u
        then (ToLower lc (TrimSpace (d @ CHR '':'' # takeWhile (\<lambda>c. c \<noteq> CHR ''='') u)),
              TrimSpace (tl (dropWhile (\<lambda>c. c \<noteq> CHR ''='') u)))
        else (d, u))"

lemma colon_kept: "CHR '':'' \<in> set s \<Longrightarrow> CHR '':'' \<in> set (ToLower lc (TrimSpace s))"
  using space_encodings_bytes by (intro ToLower_keeps TrimSpace_keeps) auto

lemma parse_pair_documented:
  assumes "documented_mapping lc (d, u)"
  shows "TrimSpace (d @ CHR '':'' # u) = d @ CHR '':'' # u" "CHR '','' \<notin> set (d @ CHR '':'' # u)"
    "parse_pair lc (d @ CHR '':'' # u) = Inr (as_read lc (d, u))"
proof -
  show "TrimSpace (d @ CHR '':'' # u) = d @ CHR '':'' # u"
    using assms space_encodings_bytes by (intro TrimSpace_join) (auto simp: documented_mapping_def)
  show "parse_pair lc (d @ CHR '':'' # u) = Inr (as_read lc (d, u))"
  proof (cases "CHR ''='' \<in> set u")
    case True
    then obtain a b where u: "u = a @ CHR ''='' # b" "CHR ''='' \<notin> set a" by (meson split_list_first)
    have "SplitN2 CHR ''='' (d @ CHR '':'' # u) = [d @ CHR '':'' # a, b]"
      using SplitN2_cut [of "CHR ''=''" "d @ CHR '':'' # a" b] u assms by (simp add: documented_mapping_def)
    moreover have "ToLower lc (TrimSpace (d @ CHR '':'' # a)) \<noteq> []"
      using colon_kept [of "d @ CHR '':'' # a" lc] by auto
    ultimately show ?thesis
      using True assms u by (simp add: parse_pair_def as_read_def documented_mapping_def Contains_def takeWhile_cut dropWhile_cut)
  next
    case False
    with assms show ?thesis
      by (simp add: parse_pair_def as_read_def documented_mapping_def Contains_def SplitN2_cut)
  qed
qed (use assms in \<open>auto simp: documented_mapping_def\<close>)

text \<open>
  C25: every entry of a parsed gateway map has a non-empty URL without surrounding white
  space and a non-empty domain that is the lower-case form of a trimmed string.
\<close>

theorem parseDomainMap_wf: "parseDomainMap lc spec = Inr m \<Longrightarrow> wf_domain_map lc m"
  using parse_pairs_wf [of lc "Split CHR '','' spec" Map.empty m]
  by (auto simp: parseDomainMap_def wf_domain_map_def split: if_splits)

theorem parseDomainMap_wf_witness:
  "\<exists>m. parseDomainMap id '' Example.com:https://gw/relay, t = u '' = Inr m \<and> wf_domain_map id m
     \<and> m ''example.com'' = Some ''https://gw/relay'' \<and> m ''t'' = Some ''u''"
proof -
  have "case parseDomainMap id '' Example.com:https://gw/relay, t = u '' of
          Inl _ \<Rightarrow> False
        | Inr m \<Rightarrow> m ''example.com'' = Some ''https://gw/relay'' \<and> m ''t'' = Some ''u''"
    by code_simp
  then show ?thesis
    using parseDomainMap_wf [of id "'' Example.com:https://gw/relay, t = u ''"]
    by (auto split: sum.splits)
qed

text \<open>
  C24: parsing fails exactly when one of the comma-separated pieces that is not blank has no
  separator (an equals sign, or a colon when there is no equals sign) or has a blank domain
  or a blank URL.
\<close>

theorem parseDomainMap_error_iff:
  "is_err (parseDomainMap lc spec) \<longleftrightarrow>
     (\<exists>p \<in> set (Split CHR '','' spec). TrimSpace p \<noteq> [] \<and> malformed_mapping (TrimSpace p))"
  by (auto simp: parseDomainMap_def parse_pairs_is_err is_err_parse_pair blank_spec_pieces)

text \<open>
  C23: writing mappings as domain=url or domain:url, joined by commas, and parsing the text
  gives back the map of these mappings, a later mapping of a domain replacing an earlier one.
  With the equals sign the URL may hold any byte but a comma; with the colon neither side may
  hold an equals sign.
\<close>

theorem parseDomainMap_roundtrip:
  assumes "list_all (plain_mapping lc sep) kvs"
  shows "parseDomainMap lc (show_domain_map sep kvs) = Inr (map_of (rev kvs))"
proof -
  have "TrimSpace (case kv of (d, u) \<Rightarrow> d @ sep # u) = (case kv of (d, u) \<Rightarrow> d @ sep # u)
      \<and> (case kv of (d, u) \<Rightarrow> d @ sep # u) \<noteq> [] \<and> CHR '','' \<notin> set (case kv of (d, u) \<Rightarrow> d @ sep # u)
      \<and> parse_pair lc (case kv of (d, u) \<Rightarrow> d @ sep # u) = Inr (id kv)" if "kv \<in> set kvs" for kv
    using assms that parse_pair_show [of lc sep "fst kv" "snd kv"] by (cases kv) (auto simp: list_all_iff)
  from parseDomainMap_pieces [of kvs, OF this] show ?thesis by (simp add: show_domain_map_def)
qed

theorem parseDomainMap_roundtrip_witness:
  "parseDomainMap id (show_domain_map CHR ''='' [(''a'', ''https://g?x=1''), (''b'', ''u''), (''a'', ''v'')])
     = Inr (map_of [(''a'', ''v''), (''b'', ''u''), (''a'', ''https://g?x=1'')])"
proof -
  have "list_all (plain_mapping id CHR ''='') [(''a'', ''https://g?x=1''), (''b'', ''u''), (''a'', ''v'')]"
    by code_simp
  from parseDomainMap_roundtrip [OF this] show ?thesis by simp
qed

text \<open>
  C38: the colon form of the documentation is not read as such when a URL holds an equals sign,
  as in a query string. In any list of documented mappings, one whose URL holds an equals sign
  is cut there: what precedes the sign, domain and colon included, becomes the domain of an
  entry, and what follows it the URL. A documented domain all of whose URLs hold an equals sign has
  no gateway in the parsed map, and parsing reports no error.
\<close>

theorem parseDomainMap_colon_url_with_equals:
  assumes "list_all (documented_mapping lc) kvs"
    and "CHR '':'' \<notin> set d" and "\<forall>u. (d, u) \<in> set kvs \<longrightarrow> CHR ''='' \<in> set u"
  shows "\<exists>m. parseDomainMap lc (show_domain_map CHR '':'' kvs) = Inr m
     \<and> m = map_of (rev (map (as_read lc) kvs)) \<and> m d = None"
proof -
  have "TrimSpace (case kv of (d, u) \<Rightarrow> d @ CHR '':'' # u) = (case kv of (d, u) \<Rightarrow> d @ CHR '':'' # u)
      \<and> (case kv of (d, u) \<Rightarrow> d @ CHR '':'' # u) \<noteq> [] \<and> CHR '','' \<notin> set (case kv of (d, u) \<Rightarrow> d @ CHR '':'' # u)
      \<and> parse_pair lc (case kv of (d, u) \<Rightarrow> d @ CHR '':'' # u) = Inr (as_read lc kv)" if "kv \<in> set kvs" for kv
    using assms(1) that parse_pair_documented [of lc "fst kv" "snd kv"] by (cases kv) (auto simp: list_all_iff)
  from parseDomainMap_pieces [of kvs, OF this]
  have "parseDomainMap lc (show_domain_map CHR '':'' kvs) = Inr (map_of (rev (map (as_read lc) kvs)))"
    by (simp add: show_domain_map_def)
  moreover have "d \<noteq> fst (as_read lc kv)" if "kv \<in> set kvs" for kv
    using assms(2,3) that colon_kept [of "fst kv @ CHR '':'' # takeWhile (\<lambda>c. c \<noteq> CHR ''='') (snd kv)" lc]
    by (cases kv) (auto simp: as_read_def)
  then have "map_of (rev (map (as_read lc) kvs)) d = None" by (force simp: map_of_eq_None_iff)
  ultimately show ?thesis by blast
qed

theorem parseDomainMap_colon_url_with_equals_witness:
  "show_domain_map CHR '':'' [(''example.com'', ''https://gw/relay?k=v''), (''b'', ''u'')] = ''example.com:https://gw/relay?k=v,b:u''
     \<and> (\<exists>m. parseDomainMap id ''example.com:https://gw/relay?k=v,b:u'' = Inr m
     \<and> m = map_of [(''b'', ''u''), (''example.com:https://gw/relay?k'', ''v'')] \<and> m ''example.com'' = None)"
proof -
  let ?kvs = "[(''example.com'', ''https://gw/relay?k=v''), (''b'', ''u'')]"
  have t: "show_domain_map CHR '':'' ?kvs = ''example.com:https://gw/relay?k=v,b:u''"
    and r: "rev (map (as_read id) ?kvs) = [(''b'', ''u''), (''example.com:https://gw/relay?k'', ''v'')]"
    and d: "list_all (documented_mapping id) ?kvs" by code_simp+
  show ?thesis
    using parseDomainMap_colon_url_with_equals [OF d, of "''example.com''"] unfolding t r by simp
qed

text \<open>A loaded configuration holds the parsed gateway map; the environment's Redis password wins.\<close>

lemma Load_ok:
  assumes "Load lc fl getenv = Inr c"
  shows "parseDomainMap lc (GatewayURLs c) = Inr (DomainMap c)"
    and "getenv ''REDIS_PASSWORD'' \<noteq> '''' \<Longrightarrow> RedisPassword c = getenv ''REDIS_PASSWORD''"
  using assms by (auto simp: Load_def Let_def split: sum.splits if_splits)

end
