(* ===== verification/Wiring.thy ===== *)
theory Wiring
  imports Outcomes Config
begin

text \<open>
  How the relay server is put together from its configuration:
  \<open>App.runRelayServer\<close> (\<open>pkg/ohttp-relay/app/app.go\<close>) up to the call that starts serving,
  and the runner record of \<open>pkg/ohttp-relay/server/runserver.go\<close>. The locale
  \<open>stream_server\<close> is interpreted on the two wirings the code can produce, so what is proved
  in it holds for every stream of a relay started from any configuration.
\<close>

section \<open>The runner\<close>

record 'x ExtProcServerRunner =
  esr_GrpcPort :: int
  esr_SecureServing :: bool
  esr_Timeout :: duration
  esr_MaxRequestBodySize :: int64
  esr_Relayer :: "'x RelayerFn"
  esr_keyConfigSource :: "'x KeyConfigSource"
  esr_trafficMetrics :: "'x TrafficFn option"

definition NewExtProcServerRunner ::
  "int \<Rightarrow> 'x RelayerFn \<Rightarrow> 'x KeyConfigSource \<Rightarrow> int64 \<Rightarrow> 'x TrafficFn option \<Rightarrow> 'x ExtProcServerRunner" where
  "NewExtProcServerRunner port rl ks maxBodySize trafficMetrics =
     \<lparr>esr_GrpcPort = port, esr_SecureServing = True, esr_Timeout = 0, esr_MaxRequestBodySize = maxBodySize,
      esr_Relayer = rl, esr_keyConfigSource = ks, esr_trafficMetrics = trafficMetrics\<rparr>"

text \<open>The handler the runner registers.\<close>

definition runner_handler :: "'x ExtProcServerRunner \<Rightarrow> 'x Server" where
  "runner_handler r =
     NewServer (esr_Relayer r) (esr_keyConfigSource r) (esr_MaxRequestBodySize r) (esr_trafficMetrics r)"


section \<open>runRelayServer\<close>

definition redis_client_options :: "ConfigT \<Rightarrow> redis_options" where
  "redis_client_options cfg =
     \<lparr>ro_Addr = RedisAddr cfg, ro_Password = RedisPassword cfg, ro_DB = RedisDB cfg, ro_TLS = RedisTLS cfg\<rparr>"

text \<open>The gateway source and the traffic recorder.\<close>

definition gateway_sources ::
  "'x externals \<Rightarrow> ConfigT \<Rightarrow> 'x world \<Rightarrow> ('x URLSource \<times> 'x TrafficFn) result \<times> 'x world" where
  "gateway_sources E cfg w =
     (let staticSource = StaticMapURLSource (DomainMap cfg)
      in if RedisEnable cfg \<and> TrimSpace (RedisAddr cfg) \<noteq> [] then
           let ro = redis_client_options cfg
           in case Ping E ro (3 * 1000000000) w of
                (Some err, w) \<Rightarrow> (Inl (Errorf ''redis ping failed: %w'' [] (Some err)), w)
              | (None, w) \<Rightarrow>
                  (case NewRedisGatewaySource ro (Timeout cfg) of
                     Inl err \<Rightarrow> (Inl (Errorf ''initialize Redis gateway source: %w'' [] (Some err)), w)
                   | Inr redisSource \<Rightarrow>
                       let gwSource = ChainSources [staticSource, RedisTargetURL E redisSource]
                       in case NewRedisTrafficMetrics E (Some ro) (72 * 3600 * 1000000000) w of
                            (Inl err, w) \<Rightarrow>
                              (Inl (Errorf ''initialize Redis traffic metrics: %w'' [] (Some err)), w)
                          | (Inr tm, w) \<Rightarrow> (Inr (gwSource, RecordTraffic E (Some tm)), w))
         else (Inr (staticSource, NoOpRecordTraffic), w))"

definition setup_relay ::
  "'x externals \<Rightarrow> ConfigT \<Rightarrow> 'x world \<Rightarrow> 'x ExtProcServerRunner result \<times> 'x world" where
  "setup_relay E cfg w =
     (case gateway_sources E cfg w of
        (Inl err, w) \<Rightarrow> (Inl err, w)
      | (Inr (gwSource, trafficMetrics), w) \<Rightarrow>
          let httpClient = Timeout cfg;
              rl = Relay E (NewHTTPRelayer httpClient gwSource);
              ks = NewHttpKeyConfigSource E httpClient gwSource
          in (Inr (NewExtProcServerRunner (GRPCPort cfg) rl ks (MaxRequestBodySize cfg) (Some trafficMetrics)), w))"


section \<open>The two wirings\<close>

interpretation static_stream: stream_server
  "Relay E (NewHTTPRelayer t (StaticMapURLSource m))" "NewHttpKeyConfigSource E t (StaticMapURLSource m)"
  NoOpRecordTraffic for E t m
  by (simp add: stream_server_def static_src.http.relayer_axioms static_src.key_config_source_axioms
      noop_traffic.traffic_recorder_axioms)

interpretation redis_stream: stream_server
  "Relay E (NewHTTPRelayer t (ChainSources [StaticMapURLSource m, RedisTargetURL E r]))"
  "NewHttpKeyConfigSource E t (ChainSources [StaticMapURLSource m, RedisTargetURL E r])"
  "RecordTraffic E (Some tm)" for E t m r tm
  by (simp add: stream_server_def chain_src.http.relayer_axioms chain_src.key_config_source_axioms
      redis_traffic.traffic_recorder_axioms)

text \<open>Every runner the code sets up has one of the two.\<close>

lemma gateway_sources_cases:
  assumes "gateway_sources E cfg w = (Inr (src, rec), w')"
  obtains (static) "src = StaticMapURLSource (DomainMap cfg)" "rec = NoOpRecordTraffic" "w' = w"
    "\<not> (RedisEnable cfg \<and> TrimSpace (RedisAddr cfg) \<noteq> [])"
  | (redis) r tm where "src = ChainSources [StaticMapURLSource (DomainMap cfg), RedisTargetURL E r]"
    "rec = RecordTraffic E (Some tm)" "RedisEnable cfg" "TrimSpace (RedisAddr cfg) \<noteq> []"
    "rgs_rdb r = redis_client_options cfg" "rtm_rdb tm = Some (redis_client_options cfg)"
    "rtm_ttl tm = 72 * 3600 * 1000000000"
proof (cases "RedisEnable cfg \<and> TrimSpace (RedisAddr cfg) \<noteq> []")
  case True
  then show thesis
    using assms redis
    by (auto simp: gateway_sources_def NewRedisGatewaySource_def NewRedisTrafficMetrics_def Let_def
        split: prod.splits option.splits)
next
  case False
  with assms have "src = StaticMapURLSource (DomainMap cfg)" "rec = NoOpRecordTraffic" "w' = w"
    by (auto simp: gateway_sources_def)
  then show thesis using static False by blast
qed

lemma setup_relay_wired:
  assumes "setup_relay E cfg w = (Inr runner, w')"
  obtains relay kc rec where "stream_server relay kc rec"
    "runner_handler runner = NewServer relay kc (MaxRequestBodySize cfg) (Some rec)"
proof -
  obtain src rec w1 where g: "gateway_sources E cfg w = (Inr (src, rec), w1)"
    using assms by (auto simp: setup_relay_def split: prod.splits sum.splits)
  let ?rl = "Relay E (NewHTTPRelayer (Timeout cfg) src)" and ?kc = "NewHttpKeyConfigSource E (Timeout cfg) src"
  have h: "runner_handler runner = NewServer ?rl ?kc (MaxRequestBodySize cfg) (Some rec)"
    using assms g by (auto simp: setup_relay_def runner_handler_def NewExtProcServerRunner_def Let_def)
  have "stream_server ?rl ?kc rec"
    using g by (cases rule: gateway_sources_cases)
      (simp_all add: static_stream.stream_server_axioms redis_stream.stream_server_axioms)
  then show thesis using h by (rule that)
qed


section \<open>Streams of a configured relay\<close>

text \<open>A configuration and its relay, for examples.\<close>

definition example_config :: ConfigT where
  "example_config =
     \<lparr>GRPCPort = 9006, GRPCHealthPort = 9007, MetricsPort = 9090, MetricsAddr = [], GatewayURLs = [],
      RedisEnable = True, RedisAddr = ''redis:6379'', RedisPassword = [], RedisDB = 0, RedisTLS = False,
      Timeout = 9, MaxRequestBodySize = 10, LogVerbosity = 2, DomainMap = [''example.test'' \<mapsto> ''https://g'']\<rparr>"

text \<open>A relay can be set up whenever Redis answers its pings.\<close>

lemma setup_relay_up:
  assumes "\<And>ro t x. fst (redis_ping E ro t x) = None"
  shows "\<exists>runner w'. setup_relay E cfg w = (Inr runner, w')"
proof -
  have "\<exists>w'. Ping E ro t w = (None, w')" for ro t w
    using assms [of ro t "env w"] by (cases "redis_ping E ro t (env w)") (simp add: Ping_def)
  then obtain w1 w2 where "Ping E (redis_client_options cfg) (3 * 1000000000) w = (None, w1)"
    "Ping E (redis_client_options cfg) (2 * 1000000000) w1 = (None, w2)" by metis
  then show ?thesis
    by (simp add: setup_relay_def gateway_sources_def NewRedisGatewaySource_def NewRedisTrafficMetrics_def Let_def)
qed

lemma example_setup: "\<exists>runner w. setup_relay example_externals example_config example_world = (Inr runner, w)"
  by (rule setup_relay_up) (simp add: example_externals_def)

text \<open>
  C2: what leaves the relay. For every configuration with a body limit that is not negative,
  over any stream, every request to a gateway is either a key configuration request or carries
  a body within the limit under a header that holds a content type and an empty user agent and
  nothing else; there is at most one request per event of the stream.
\<close>

theorem stream_requests_clean:
  assumes "setup_relay E cfg w0 = (Inr runner, w1)"
    and "Process E send (runner_handler runner) evs w = (res, p, w')"
    and "0 \<le> sint (MaxRequestBodySize cfg)"
    and "list_all (size_ok (runner_handler runner)) evs"
  shows "\<exists>reqs. outbound w' = outbound w @ reqs \<and> length reqs \<le> length evs
     \<and> list_all (clean_request (\<lambda>b. int (length b) \<le> sint (MaxRequestBodySize cfg))) reqs"
  using setup_relay_wired [OF assms(1)] stream_server.Process_requests assms(2-4) by metis

theorem stream_requests_clean_witness:
  "\<exists>runner w1 res p w' reqs. setup_relay example_externals example_config example_world = (Inr runner, w1)
     \<and> Process example_externals example_send (runner_handler runner)
         [example_headers ''POST'' [raw_header ''cookie'' ''id''], body_event ''opaque'' True, Recv (Inl EOF)] w1
       = (res, p, w')
     \<and> outbound w' = outbound w1 @ reqs
     \<and> list_all (clean_request (\<lambda>b. int (length b) \<le> 10)) reqs"
proof -
  let ?evs = "[example_headers ''POST'' [raw_header ''cookie'' ''id''], body_event ''opaque'' True, Recv (Inl EOF)]"
  obtain runner w1 where s: "setup_relay example_externals example_config example_world = (Inr runner, w1)"
    using example_setup by blast
  obtain res p w' where P: "Process example_externals example_send (runner_handler runner) ?evs w1 = (res, p, w')"
    by (metis prod_cases3)
  have mx: "MaxRequestBodySize example_config = 10" by (simp add: example_config_def)
  have "sv_maxRequestBodySize (runner_handler runner) = 10"
    using setup_relay_wired [OF s] mx by (metis NewServer_def Server.select_convs(4))
  then have "list_all (size_ok (runner_handler runner)) ?evs"
    by (simp add: size_ok_def example_headers_def body_event_def)
  from stream_requests_clean [OF s P _ this] mx s P show ?thesis by auto
qed

text \<open>
  The books of a stream balance. For every configuration and every stream that ends, the
  number of active requests is what it was, exactly one request is counted, and the error
  counter rises by one exactly when the stream ends with a gRPC error; all of this modulo
  the width of the counters.
\<close>

lemma stream_metrics_balanced:
  assumes "setup_relay E cfg w0 = (Inr runner, w1)"
    and "Process E send (runner_handler runner) evs w = (Some r, p, w')"
    and "list_all ctx_ok evs"
  shows "counter_value ActiveRequests (metrics_log w') = counter_value ActiveRequests (metrics_log w)
     \<and> counter_value RequestsTotal (metrics_log w') = counter_value RequestsTotal (metrics_log w) + 1
     \<and> counter_value ErrorsTotal (metrics_log w') = counter_value ErrorsTotal (metrics_log w) + counted (Return r)"
  using setup_relay_wired [OF assms(1)] stream_server.Process_counters assms(2,3) by metis

lemma stream_metrics_balanced_example:
  "\<exists>runner w1 res p w'. setup_relay example_externals example_config example_world = (Inr runner, w1)
     \<and> Process example_externals example_send (runner_handler runner) [Recv (Inl (LibraryError ''reset''))] w1
       = (Some res, p, w')
     \<and> counter_value ActiveRequests (metrics_log w') = counter_value ActiveRequests (metrics_log w1)
     \<and> counter_value RequestsTotal (metrics_log w') = counter_value RequestsTotal (metrics_log w1) + 1
     \<and> counter_value ErrorsTotal (metrics_log w') = counter_value ErrorsTotal (metrics_log w1) + 1"
proof -
  let ?evs = "[Recv (Inl (LibraryError ''reset''))]"
  obtain runner w1 where s: "setup_relay example_externals example_config example_world = (Inr runner, w1)"
    using example_setup by blast
  have "fst (Process example_externals example_send (runner_handler runner) ?evs w1)
      = Some (Some (StatusError Unknown ''cannot receive stream request: %v'' []))"
    by (simp add: Process_def process_step_def status_Errorf_def Let_def split: prod.split)
  then obtain p w' where P: "Process example_externals example_send (runner_handler runner) ?evs w1
      = (Some (Some (StatusError Unknown ''cannot receive stream request: %v'' [])), p, w')"
    by (metis prod.collapse)
  have "list_all ctx_ok ?evs" by (simp add: ctx_ok_def)
  from stream_metrics_balanced [OF s P this] s P show ?thesis by (auto simp: counted_def)
qed

text \<open>The sources of a configuration agree with its static map, whatever Redis holds.\<close>

lemma gateway_sources_static_first:
  assumes "gateway_sources E cfg w = (Inr (src, rec), w')" and "DomainMap cfg host = Some url" and "url \<noteq> []"
  shows "src host w1 = (Inr url, w1)" "url_source src" "traffic_recorder rec"
  using assms(1)
  by (cases rule: gateway_sources_cases;
      simp add: StaticMapURLSource_def map_get_def assms(2,3) static_src.url_source_axioms chain_src.url_source_axioms
        noop_traffic.traffic_recorder_axioms redis_traffic.traffic_recorder_axioms)+

definition relayed_request :: "string \<Rightarrow> bytes \<Rightarrow> http_request" where
  "relayed_request url body =
     \<lparr>rq_Method = ''post'', rq_URL = url,
      rq_Header = [''Content-Type'' \<mapsto> [''message/ohttp-req''], ''User-Agent'' \<mapsto> ['''']], rq_Body = body\<rparr>"

text \<open>The request to the gateway of a stream with the method \<open>meth\<close> and the content type \<open>ct\<close>.\<close>

definition forwarded_request :: "string \<Rightarrow> string \<Rightarrow> string \<Rightarrow> bytes \<Rightarrow> http_request" where
  "forwarded_request meth ct url body =
     \<lparr>rq_Method = (if meth = [] then ''GET'' else meth), rq_URL = url,
      rq_Header = [''Content-Type'' \<mapsto> [ct], ''User-Agent'' \<mapsto> ['''']], rq_Body = body\<rparr>"

lemma relayed_request_forwarded: "relayed_request url body = forwarded_request ''post'' ContentTypeOHTTPReq url body"
  by (simp add: relayed_request_def forwarded_request_def ContentTypeOHTTPReq_def)

lemma validMethod_post: "validMethod ''post''"
  by (simp add: validMethod_def is_token_char_def)

text \<open>The gateway answers a request with a success.\<close>

definition gateway_succeeds :: "'x externals \<Rightarrow> duration \<Rightarrow> http_request \<Rightarrow> http_response \<Rightarrow> bool" where
  "gateway_succeeds E t req rsp \<longleftrightarrow>
     (\<forall>x. fst (http_do E t req x) = DoOk rsp)
     \<and> rs_BodyErr rsp = None \<and> 200 \<le> rs_StatusCode rsp \<and> rs_StatusCode rsp < 300"

text \<open>What Redis holds for a host, where the relay asks it.\<close>

definition redis_lookup :: "'x externals \<Rightarrow> ConfigT \<Rightarrow> string \<Rightarrow> string result \<Rightarrow> bool" where
  "redis_lookup E cfg host res \<longleftrightarrow>
     RedisEnable cfg \<and> TrimSpace (RedisAddr cfg) \<noteq> []
     \<and> (\<forall>t x. fst (redis_hget E (redis_client_options cfg) t (ToLower (uni_lower E) (TrimSpace host)) ''url'' x) = res)"

text \<open>The configuration, or Redis for a host it does not map, names a gateway for the host.\<close>

definition resolves :: "'x externals \<Rightarrow> ConfigT \<Rightarrow> string \<Rightarrow> string \<Rightarrow> bool" where
  "resolves E cfg host url \<longleftrightarrow>
     url \<noteq> [] \<and> (DomainMap cfg host = Some url
                   \<or> map_get (DomainMap cfg) host = [] \<and> redis_lookup E cfg host (Inr url))"

lemma resolves_static: "DomainMap cfg host = Some url \<Longrightarrow> url \<noteq> [] \<Longrightarrow> resolves E cfg host url"
  by (simp add: resolves_def)

lemma sources_of_lookup:
  assumes "gateway_sources E cfg w = (Inr (src, rec), w')" and "redis_lookup E cfg host res"
    and "map_get (DomainMap cfg) host = []"
  shows "fst (src host w1) =
    (case res of Inr u \<Rightarrow> Inr u | Inl err \<Rightarrow> if errors_Is err RedisNil then Inr [] else Inl err)"
  using assms(1)
proof (cases rule: gateway_sources_cases)
  case (redis r tm)
  obtain x where "redis_hget E (redis_client_options cfg) (rgs_timeout r) (ToLower (uni_lower E) (TrimSpace host)) ''url'' (env w1)
      = (res, x)" using assms(2) unfolding redis_lookup_def by (metis prod.collapse)
  then show ?thesis
    by (simp add: redis(1,5) StaticMapURLSource_def assms(3) RedisTargetURL_def HGet_def Let_def split: sum.split)
qed (use assms(2) in \<open>simp add: redis_lookup_def\<close>)

lemma sources_resolve:
  assumes "gateway_sources E cfg w = (Inr (src, rec), w')" and "resolves E cfg host url"
  shows "fst (src host w1) = Inr url"
proof (cases "DomainMap cfg host = Some url")
  case True
  with assms gateway_sources_static_first [OF assms(1) True] show ?thesis by (simp add: resolves_def)
next
  case False
  with assms sources_of_lookup [OF assms(1)] show ?thesis by (auto simp: resolves_def)
qed

text \<open>The handler of a configured relay.\<close>

lemma setup_relay_sources:
  assumes "setup_relay E cfg w0 = (Inr runner, w1)"
  obtains src rec w2 where "gateway_sources E cfg w0 = (Inr (src, rec), w2)"
    "runner_handler runner = NewServer (Relay E (NewHTTPRelayer (Timeout cfg) src))
      (NewHttpKeyConfigSource E (Timeout cfg) src) (MaxRequestBodySize cfg) (Some rec)"
    "url_source src" "traffic_recorder rec"
proof -
  obtain src rec w2 where g: "gateway_sources E cfg w0 = (Inr (src, rec), w2)"
    using assms by (auto simp: setup_relay_def split: prod.splits sum.splits)
  then have "runner_handler runner = NewServer (Relay E (NewHTTPRelayer (Timeout cfg) src))
      (NewHttpKeyConfigSource E (Timeout cfg) src) (MaxRequestBodySize cfg) (Some rec)"
    using assms by (auto simp: setup_relay_def runner_handler_def NewExtProcServerRunner_def Let_def)
  moreover from g have "url_source src" "traffic_recorder rec"
    by (cases rule: gateway_sources_cases;
        simp add: static_src.url_source_axioms chain_src.url_source_axioms
          noop_traffic.traffic_recorder_axioms redis_traffic.traffic_recorder_axioms)+
  ultimately show thesis using g that by blast
qed

lemma configured_relay_settings:
  assumes "setup_relay E cfg w0 = (Inr runner, w1)"
  shows "sv_maxRequestBodySize (runner_handler runner) = MaxRequestBodySize cfg"
    and "sv_trafficMetrics (runner_handler runner) = Some record \<Longrightarrow> traffic_recorder record"
  by (rule setup_relay_sources [OF assms]; simp add: NewServer_def)+

lemma configured_relayer:
  assumes wired: "setup_relay E cfg w0 = (Inr runner, w1)"
    and gw: "resolves E cfg host url" "parse_url_err E url = None"
    and m: "m = [] \<or> validMethod m" and ct: "ct \<noteq> []"
    and answer: "gateway_succeeds E (Timeout cfg) (forwarded_request m ct url body) rsp"
  shows "\<exists>w'. sv_relayer (runner_handler runner) host body ct m w = (Inr rsp, w')
      \<and> outbound w' = outbound w @ [forwarded_request m ct url body]"
    and "\<not> gateway_failed (Inr rsp)"
    and "sv_maxRequestBodySize (runner_handler runner) = MaxRequestBodySize cfg"
    and "sv_trafficMetrics (runner_handler runner) = Some record \<Longrightarrow> traffic_recorder record"
proof -
  obtain src rec w2 where g: "gateway_sources E cfg w0 = (Inr (src, rec), w2)"
    and s: "runner_handler runner = NewServer (Relay E (NewHTTPRelayer (Timeout cfg) src))
      (NewHttpKeyConfigSource E (Timeout cfg) src) (MaxRequestBodySize cfg) (Some rec)" and src: "url_source src"
    using setup_relay_sources [OF wired] by blast
  define req0 where "req0 = \<lparr>rq_Method = (if m = [] then ''GET'' else m), rq_URL = url, rq_Header = Map.empty, rq_Body = body\<rparr>"
  have new: "NewRequest E m url body = Inr req0"
    using m gw(2) by (auto simp: NewRequest_def req0_def validMethod_def is_token_char_def)
  have req: "req0\<lparr>rq_Header := relay_header ct\<rparr> = forwarded_request m ct url body"
    using ct by (simp add: req0_def forwarded_request_def relay_header_def Header_Set_def)
  have "url \<noteq> []" using gw(1) by (simp add: resolves_def)
  from Relay_answered [OF src sources_resolve [OF g gw(1)] this new, where t = "Timeout cfg" and ct = ct and rsp = rsp and w = w]
  show "\<exists>w'. sv_relayer (runner_handler runner) host body ct m w = (Inr rsp, w')
      \<and> outbound w' = outbound w @ [forwarded_request m ct url body]"
    using answer unfolding req by (simp add: s NewServer_def gateway_succeeds_def)
  show "\<not> gateway_failed (Inr rsp)" using answer by (simp add: gateway_succeeds_def gateway_failed_def)
qed (rule configured_relay_settings(1) [OF wired], erule configured_relay_settings(2) [OF wired])

text \<open>Delivery on a relay that finds a gateway for the host, by whichever of its sources.\<close>

lemma Process_of_loop:
  assumes "\<And>w. \<exists>p w'. process_loop E send s evs proc_init w = (Some r, p, w') \<and> pr_sent p = rs
      \<and> outbound w' = outbound w @ reqs"
  shows "\<exists>p w'. Process E send s evs w = (Some r, p, w') \<and> pr_sent p = rs \<and> outbound w' = outbound w @ reqs"
proof -
  obtain t0 w0 where n0: "Now E (with_metrics (\<lambda>l. l @ [AddInt64 ActiveRequests 1 []]) w) = (t0, w0)" by fastforce
  obtain p w1 where l: "process_loop E send s evs proc_init w0 = (Some r, p, w1)" "pr_sent p = rs"
    "outbound w1 = outbound w0 @ reqs" using assms by blast
  obtain t2 w2 where n2: "Now E w1 = (t2, w2)" by fastforce
  from n0 l n2 Now_case(2) [OF n0] Now_case(2) [OF n2] show ?thesis
    by (simp add: Process_def Let_def frame)
qed

lemma resolved_relay_delivers:
  assumes wired: "setup_relay E cfg w0 = (Inr runner, w1)"
    and gw: "resolves E cfg (request_host (uni_lower E) v) url" "parse_url_err E url = None"
    and hdr: "accepted_headers (uni_lower E) v"
    and fit: "int (length (concat cs @ c)) \<le> sint (MaxRequestBodySize cfg)"
    and answer: "gateway_succeeds E (Timeout cfg) (relayed_request url (concat cs @ c)) rsp"
    and send: "\<And>r x. fst (send r x) = None"
  shows "\<exists>p w'. Process E send (runner_handler runner) (request_events v cs c) w = (Some None, p, w')
     \<and> pr_sent p = [relayed_response (rs_Body rsp)]
     \<and> outbound w' = outbound w @ [relayed_request url (concat cs @ c)]"
proof (rule Process_of_loop)
  fix w
  have ct: "ContentTypeOHTTPReq \<noteq> []" by (simp add: ContentTypeOHTTPReq_def)
  note R = configured_relayer [OF wired gw disjI2 [OF validMethod_post] ct answer [unfolded relayed_request_forwarded]]
  show "\<exists>p w'. process_loop E send (runner_handler runner) (request_events v cs c) proc_init w = (Some None, p, w')
      \<and> pr_sent p = [relayed_response (rs_Body rsp)] \<and> outbound w' = outbound w @ [relayed_request url (concat cs @ c)]"
    unfolding relayed_request_forwarded
    using fit by (intro process_loop_relays [OF hdr _ R(1,2,4) send]) (simp_all add: R(3))
qed

lemma relay_delivers:
  assumes "setup_relay E cfg w0 = (Inr runner, w1)"
    and "DomainMap cfg (request_host (uni_lower E) v) = Some url" "url \<noteq> []" "parse_url_err E url = None"
    and "accepted_headers (uni_lower E) v" and "int (length (concat cs @ c)) \<le> sint (MaxRequestBodySize cfg)"
    and "\<And>x. fst (http_do E (Timeout cfg) (relayed_request url (concat cs @ c)) x) = DoOk rsp"
    and "rs_BodyErr rsp = None" "200 \<le> rs_StatusCode rsp" "rs_StatusCode rsp < 300"
    and "\<And>r x. fst (send r x) = None"
  shows "\<exists>p w'. Process E send (runner_handler runner) (request_events v cs c) w = (Some None, p, w')
     \<and> pr_sent p = [relayed_response (rs_Body rsp)]
     \<and> outbound w' = outbound w @ [relayed_request url (concat cs @ c)]"
  using resolved_relay_delivers [OF assms(1) resolves_static [OF assms(2,3)] assms(4-6) _ assms(11)] assms(7-10)
  by (simp add: gateway_succeeds_def)

text \<open>
  C1: a request is relayed end to end. A relay set up from any configuration, with or
  without Redis, whose static map names a gateway for the host: an accepted header message
  followed by a body in any number of pieces within the limit makes exactly one request, to
  that gateway, with the concatenated body, the OHTTP media type and an empty user agent;
  when the gateway answers with a success the stream sends exactly one response, a 200 with the
  bytes of the answer, and ends without error.
\<close>

theorem configured_relay_delivers:
  assumes wired: "setup_relay E cfg w0 = (Inr runner, w1)"
    and gw: "DomainMap cfg (request_host (uni_lower E) v) = Some url" "url \<noteq> []" "parse_url_err E url = None"
    and hdr: "accepted_headers (uni_lower E) v"
    and fit: "int (length (concat cs @ c)) \<le> sint (MaxRequestBodySize cfg)"
    and answer: "\<And>x. fst (http_do E (Timeout cfg) (relayed_request url (concat cs @ c)) x) = DoOk rsp"
    and ok: "rs_BodyErr rsp = None" "200 \<le> rs_StatusCode rsp" "rs_StatusCode rsp < 300"
    and send: "\<And>r x. fst (send r x) = None"
  shows "\<exists>p w'. Process E send (runner_handler runner) (request_events v cs c) w = (Some None, p, w')
     \<and> pr_sent p = [relayed_response (rs_Body rsp)]
     \<and> outbound w' = outbound w @ [relayed_request url (concat cs @ c)]"
  using assms by (rule relay_delivers)

theorem configured_relay_delivers_witness:
  "\<exists>runner w1 p w'. setup_relay example_externals example_config example_world = (Inr runner, w1)
     \<and> Process example_externals example_send (runner_handler runner)
         (request_events (Some \<lparr>hh_Headers = Some [raw_header '':method'' ''POST'', raw_header ''Host'' ''EXAMPLE.test'',
            raw_header ''content-length'' ''6'']\<rparr>) [''op'', ''aq''] ''ue'') w1 = (Some None, p, w')
     \<and> pr_sent p = [relayed_response ''opaque'']
     \<and> outbound w' = outbound w1 @ [relayed_request ''https://g'' ''opaque'']"
proof -
  let ?v = "Some \<lparr>hh_Headers = Some [raw_header '':method'' ''POST'', raw_header ''Host'' ''EXAMPLE.test'',
            raw_header ''content-length'' ''6'']\<rparr>"
  let ?rsp = "\<lparr>rs_StatusCode = 200, rs_Header = Map.empty, rs_Body = ''opaque'', rs_BodyErr = None\<rparr>"
  obtain runner w1 where s: "setup_relay example_externals example_config example_world = (Inr runner, w1)"
    using example_setup by blast
  have lc: "uni_lower example_externals = id" by (simp add: example_externals_def)
  have h: "request_host id ?v = ''example.test''" and a: "accepted_headers id ?v" by code_simp+
  have "\<exists>p w'. Process example_externals example_send (runner_handler runner)
      (request_events ?v [''op'', ''aq''] ''ue'') w1 = (Some None, p, w')
     \<and> pr_sent p = [relayed_response (rs_Body ?rsp)]
     \<and> outbound w' = outbound w1 @ [relayed_request ''https://g'' (concat [''op'', ''aq''] @ ''ue'')]"
    by (rule configured_relay_delivers [OF s])
       (simp_all add: lc h a, simp_all add: example_config_def example_externals_def example_send_def)
  with s show ?thesis by auto
qed

text \<open>
  C17: a stream that asks for the key configuration relays nothing. Whatever messages follow
  the header message, further headers and bodies included, every request that leaves is a
  key configuration request.
\<close>

theorem config_stream_never_relays:
  assumes "setup_relay E cfg w0 = (Inr runner, w1)"
    and "extractHeaderValue (uni_lower E) v '':path'' = configsPath"
    and "Process E send (runner_handler runner) (headers_event v # evs) w = (res, p, w')"
  shows "\<exists>reqs. outbound w' = outbound w @ reqs \<and> list_all key_request reqs"
  using setup_relay_wired [OF assms(1)] stream_server.Process_config assms(2,3)
  unfolding headers_event_def by metis

theorem config_stream_never_relays_witness:
  "\<exists>runner w1 res p w' reqs. setup_relay example_externals example_config example_world = (Inr runner, w1)
     \<and> Process example_externals example_send (runner_handler runner)
         (headers_event (Some \<lparr>hh_Headers = Some [raw_header '':path'' ''/.well-known/ohttp-configs'']\<rparr>)
          # [body_event ''opaque'' True]) w1 = (res, p, w')
     \<and> outbound w' = outbound w1 @ reqs \<and> list_all key_request reqs"
proof -
  let ?v = "Some \<lparr>hh_Headers = Some [raw_header '':path'' ''/.well-known/ohttp-configs'']\<rparr>"
  obtain runner w1 where s: "setup_relay example_externals example_config example_world = (Inr runner, w1)"
    using example_setup by blast
  have v: "extractHeaderValue (uni_lower example_externals) ?v '':path'' = configsPath"
    by code_simp
  obtain res p w' where P: "Process example_externals example_send (runner_handler runner)
      (headers_event ?v # [body_event ''opaque'' True]) w1 = (res, p, w')"
    by (metis prod_cases3)
  from config_stream_never_relays [OF s v P] s P show ?thesis by blast
qed

section \<open>Other gateways\<close>

text \<open>
  C13: gateways named in Redis. A host the static map does not name, on a relay set up from a
  configuration that uses Redis, where Redis holds a URL for the host in lower case without
  white space around it: an accepted header message and a body in any pieces within the limit
  are relayed just like those for a host of the map, to the URL Redis holds.
\<close>

theorem redis_mapped_host_delivers:
  assumes wired: "setup_relay E cfg w0 = (Inr runner, w1)"
    and unmapped: "map_get (DomainMap cfg) (request_host (uni_lower E) v) = []"
    and redis: "redis_lookup E cfg (request_host (uni_lower E) v) (Inr url)" "url \<noteq> []" "parse_url_err E url = None"
    and hdr: "accepted_headers (uni_lower E) v"
    and fit: "int (length (concat cs @ c)) \<le> sint (MaxRequestBodySize cfg)"
    and answer: "gateway_succeeds E (Timeout cfg) (relayed_request url (concat cs @ c)) rsp"
    and send: "\<And>r x. fst (send r x) = None"
  shows "\<exists>p w'. Process E send (runner_handler runner) (request_events v cs c) w = (Some None, p, w')
     \<and> pr_sent p = [relayed_response (rs_Body rsp)]
     \<and> outbound w' = outbound w @ [relayed_request url (concat cs @ c)]"
  using resolved_relay_delivers [OF wired _ redis(3) hdr fit answer send] unmapped redis(1,2) by (simp add: resolves_def)

theorem redis_mapped_host_delivers_witness:
  "\<exists>(E :: unit externals) runner w1 p w'. setup_relay E example_config example_world = (Inr runner, w1)
     \<and> Process E example_send (runner_handler runner)
         (request_events (Some \<lparr>hh_Headers = Some [raw_header '':method'' ''POST'', raw_header ''host'' ''Other.test'',
            raw_header ''content-length'' ''6'']\<rparr>) [''op'', ''aq''] ''ue'') w1 = (Some None, p, w')
     \<and> pr_sent p = [relayed_response ''opaque'']
     \<and> outbound w' = outbound w1 @ [relayed_request ''https://r'' ''opaque'']"
proof -
  let ?v = "Some \<lparr>hh_Headers = Some [raw_header '':method'' ''POST'', raw_header ''host'' ''Other.test'',
            raw_header ''content-length'' ''6'']\<rparr>"
  let ?rsp = "\<lparr>rs_StatusCode = 200, rs_Header = Map.empty, rs_Body = ''opaque'', rs_BodyErr = None\<rparr>"
  let ?E = "example_externals\<lparr>redis_hget := (\<lambda>rdb t key field x.
    (if key = ''other.test'' \<and> field = ''url'' then Inr ''https://r'' else Inl RedisNil, x))\<rparr>"
  obtain runner w1 where s: "setup_relay ?E example_config example_world = (Inr runner, w1)"
    using setup_relay_up [of ?E example_config example_world] by (auto simp: example_externals_def)
  have lc: "uni_lower ?E = id" by (simp add: example_externals_def)
  have h: "request_host id ?v = ''other.test''" and a: "accepted_headers id ?v"
    and k: "ToLower id (TrimSpace ''other.test'') = ''other.test''" "TrimSpace (RedisAddr example_config) \<noteq> []" by code_simp+
  have "\<exists>p w'. Process ?E example_send (runner_handler runner) (request_events ?v [''op'', ''aq''] ''ue'') w1 = (Some None, p, w')
     \<and> pr_sent p = [relayed_response (rs_Body ?rsp)]
     \<and> outbound w' = outbound w1 @ [relayed_request ''https://r'' (concat [''op'', ''aq''] @ ''ue'')]"
    by (rule redis_mapped_host_delivers [OF s])
       (simp_all add: lc h a k redis_lookup_def, simp_all add: gateway_succeeds_def map_get_def example_config_def
          example_externals_def example_send_def)
  with s show ?thesis by (intro exI [of _ ?E] exI [of _ runner] exI [of _ w1]) simp
qed

text \<open>A relay call that finds no gateway sends nothing.\<close>

lemma Relay_unresolved:
  assumes "url_source src" and "\<And>w. fst (src host w) = Inr [] \<or> is_err (fst (src host w))"
  shows "\<exists>err w'. Relay E (NewHTTPRelayer t src) host body ct m w = (Inl err, w') \<and> outbound w' = outbound w"
proof -
  obtain t0 w0 where n0: "Now E w = (t0, w0)" by fastforce
  obtain u w1 where u: "src host w0 = (u, w1)" by fastforce
  have "outbound w1 = outbound w" using Now_case(2) [OF n0] url_source.target_case(2) [OF assms(1) u] by simp
  with n0 u assms(2) [of w0] show ?thesis by (cases u) (auto simp: Relay_def NewHTTPRelayer_def)
qed

text \<open>
  C14: a host without a gateway. On a relay set up from any configuration, a request with
  accepted headers and a body in any pieces within the limit, for a host that the static map
  does not name and for which Redis, where the relay uses it, holds no URL or answers with an
  error: nothing leaves the relay, the client gets one 502 that does not tell the cases apart,
  and the stream ends without error.
\<close>

theorem unresolved_host_is_refused:
  assumes wired: "setup_relay E cfg w0 = (Inr runner, w1)"
    and unmapped: "map_get (DomainMap cfg) (request_host (uni_lower E) v) = []"
    and redis: "RedisEnable cfg \<and> TrimSpace (RedisAddr cfg) \<noteq> [] \<Longrightarrow>
      redis_lookup E cfg (request_host (uni_lower E) v) res \<and> (res = Inr [] \<or> is_err res)"
    and hdr: "accepted_headers (uni_lower E) v"
    and fit: "int (length (concat cs @ c)) \<le> sint (MaxRequestBodySize cfg)"
    and send: "\<And>r x. fst (send r x) = None"
  shows "\<exists>p w'. Process E send (runner_handler runner) (request_events v cs c) w = (Some None, p, w')
     \<and> pr_sent p = [bad_gateway] \<and> outbound w' = outbound w"
proof -
  let ?h = "request_host (uni_lower E) v" and ?s = "runner_handler runner"
  obtain src rec w2 where g: "gateway_sources E cfg w0 = (Inr (src, rec), w2)"
    and s: "?s = NewServer (Relay E (NewHTTPRelayer (Timeout cfg) src))
      (NewHttpKeyConfigSource E (Timeout cfg) src) (MaxRequestBodySize cfg) (Some rec)" and src: "url_source src"
    using setup_relay_sources [OF wired] by blast
  have none: "fst (src ?h w) = Inr [] \<or> is_err (fst (src ?h w))" for w
  proof (cases "RedisEnable cfg \<and> TrimSpace (RedisAddr cfg) \<noteq> []")
    case True
    from sources_of_lookup [OF g conjunct1 [OF redis [OF True]] unmapped] redis [OF True]
    show ?thesis by (cases res) auto
  next
    case False
    from g False unmapped show ?thesis by (cases rule: gateway_sources_cases) (simp_all add: StaticMapURLSource_def)
  qed
  have "\<exists>p w'. process_loop E send ?s (request_events v cs c) proc_init w = (Some None, p, w')
      \<and> pr_sent p = [bad_gateway] \<and> outbound w' = outbound w @ []" for w
    using process_loop_fails [OF hdr, of cs c ?s w send] Relay_unresolved [OF src none, of E "Timeout cfg"] fit send
    by (simp add: s NewServer_def)
  from Process_of_loop [of E send ?s "request_events v cs c" None, OF this] show ?thesis by simp
qed

theorem unresolved_host_is_refused_witness:
  "\<exists>runner w1 p w'. setup_relay example_externals example_config example_world = (Inr runner, w1)
     \<and> Process example_externals example_send (runner_handler runner)
         (request_events (Some \<lparr>hh_Headers = Some [raw_header '':method'' ''POST'', raw_header ''host'' ''Other.test'',
            raw_header ''content-length'' ''6'']\<rparr>) [''op'', ''aq''] ''ue'') w1 = (Some None, p, w')
     \<and> pr_sent p = [bad_gateway] \<and> outbound w' = outbound w1"
proof -
  let ?v = "Some \<lparr>hh_Headers = Some [raw_header '':method'' ''POST'', raw_header ''host'' ''Other.test'',
            raw_header ''content-length'' ''6'']\<rparr>"
  obtain runner w1 where s: "setup_relay example_externals example_config example_world = (Inr runner, w1)"
    using example_setup by blast
  have lc: "uni_lower example_externals = id" by (simp add: example_externals_def)
  have h: "request_host id ?v = ''other.test''" and a: "accepted_headers id ?v" by code_simp+
  have "\<exists>p w'. Process example_externals example_send (runner_handler runner)
      (request_events ?v [''op'', ''aq''] ''ue'') w1 = (Some None, p, w') \<and> pr_sent p = [bad_gateway] \<and> outbound w' = outbound w1"
    by (rule unresolved_host_is_refused [OF s, where res = "Inl RedisNil"])
       (simp_all add: lc h a, simp_all add: redis_lookup_def map_get_def example_config_def example_externals_def example_send_def)
  with s show ?thesis by blast
qed

section \<open>Streams that go on after a refusal\<close>

text \<open>
  C34: a refused header message does not close the stream. Whatever header message a configured
  relay refuses (a wrong method, media type or length, for any path but that of the key
  configuration), the body that follows it within the limit is still relayed: the gateway of
  the host gets a request with the method and the media type that were refused, and after the
  error the stream sends a second response with the answer.
\<close>

theorem body_after_refused_headers_is_relayed:
  assumes wired: "setup_relay E cfg w0 = (Inr runner, w1)"
    and gw: "DomainMap cfg (request_host (uni_lower E) v) = Some url" "url \<noteq> []" "parse_url_err E url = None"
    and refused: "extractHeaderValue (uni_lower E) v '':path'' \<noteq> configsPath" "\<not> accepted_headers (uni_lower E) v"
    and m: "request_method (uni_lower E) v = [] \<or> validMethod (request_method (uni_lower E) v)"
    and fit: "int (length (concat cs @ c)) \<le> sint (MaxRequestBodySize cfg)"
    and req: "req = forwarded_request (request_method (uni_lower E) v)
        (forwarded_type (extractHeaderValue (uni_lower E) v ''content-type'')) url (concat cs @ c)"
    and answer: "gateway_succeeds E (Timeout cfg) req rsp"
    and send: "\<And>r x. fst (send r x) = None"
  shows "\<exists>p w'. Process E send (runner_handler runner) (request_events v cs c) w = (Some None, p, w')
     \<and> pr_sent p = plain_error (refusal_code (uni_lower E) v) @ [relayed_response (rs_Body rsp)]
     \<and> outbound w' = outbound w @ [req]"
proof (rule Process_of_loop)
  fix w
  let ?s = "runner_handler runner" and ?lc = "uni_lower E"
  have ct: "forwarded_type (extractHeaderValue ?lc v ''content-type'') \<noteq> []"
    by (auto simp: forwarded_type_def ohttp_request_type_def ContentTypeOHTTPReq_def)
  note R = configured_relayer [OF wired resolves_static [OF gw(1,2)] gw(3) m ct answer [unfolded req]]
  obtain x p1 where p1: "process_step E send ?s (headers_event v) proc_init w = (Continue, p1, w\<lparr>env := x\<rparr>)"
    "pr_sent p1 = pr_sent proc_init @ plain_error (refusal_code ?lc v)" "pr_st p1 = noted ?lc v (pr_st proc_init)"
    using process_step_headers_refused [where send = send, OF refused send] by blast
  have st1: "st_host (pr_st p1) = request_host ?lc v" "\<not> st_configRequest (pr_st p1)" "st_body (pr_st p1) = []"
    "st_reqContentType (pr_st p1) = extractHeaderValue ?lc v ''content-type''" "st_httpMethod (pr_st p1) = request_method ?lc v"
    by (simp_all add: p1(3) noted_def proc_init_def)
  have "\<exists>p' w'. process_loop E send ?s (map (\<lambda>b. body_event b False) cs @ [body_event c True, Recv (Inl EOF)]) p1 (w\<lparr>env := x\<rparr>)
       = (Some None, p', w')
     \<and> pr_sent p' = pr_sent p1 @ [relayed_response (rs_Body rsp)] \<and> outbound w' = outbound (w\<lparr>env := x\<rparr>) @ [req]"
    using fit R(1) [of "w\<lparr>env := x\<rparr>", folded req]
    by (intro body_relayed [OF _ _ _ _ R(2,4) send]) (simp_all add: st1 R(3))
  then show "\<exists>p w'. process_loop E send ?s (request_events v cs c) proc_init w = (Some None, p, w')
      \<and> pr_sent p = plain_error (refusal_code ?lc v) @ [relayed_response (rs_Body rsp)] \<and> outbound w' = outbound w @ [req]"
    using p1(1,2) by (simp add: request_events_def proc_init_def)
qed

theorem body_after_refused_headers_is_relayed_witness:
  "\<exists>runner w1 p w'. setup_relay example_externals example_config example_world = (Inr runner, w1)
     \<and> Process example_externals example_send (runner_handler runner)
         (request_events (Some \<lparr>hh_Headers = Some [raw_header '':method'' ''PUT'', raw_header ''host'' ''example.test'']\<rparr>)
           [''op'', ''aq''] ''ue'') w1 = (Some None, p, w')
     \<and> pr_sent p = plain_error 405 @ [relayed_response ''opaque'']
     \<and> outbound w' = outbound w1 @ [forwarded_request ''put'' ''message/ohttp-req'' ''https://g'' ''opaque'']"
proof -
  let ?v = "Some \<lparr>hh_Headers = Some [raw_header '':method'' ''PUT'', raw_header ''host'' ''example.test'']\<rparr>"
  let ?rsp = "\<lparr>rs_StatusCode = 200, rs_Header = Map.empty, rs_Body = ''opaque'', rs_BodyErr = None\<rparr>"
  obtain runner w1 where s: "setup_relay example_externals example_config example_world = (Inr runner, w1)"
    using example_setup by blast
  have lc: "uni_lower example_externals = id" by (simp add: example_externals_def)
  have v: "request_host id ?v = ''example.test''" "request_method id ?v = ''put''" "\<not> accepted_headers id ?v"
    "extractHeaderValue id ?v '':path'' \<noteq> configsPath" "validMethod ''put''"
    "forwarded_type (extractHeaderValue id ?v ''content-type'') = ''message/ohttp-req''" "refusal_code id ?v = 405"
    by code_simp+
  have "\<exists>p w'. Process example_externals example_send (runner_handler runner)
      (request_events ?v [''op'', ''aq''] ''ue'') w1 = (Some None, p, w')
     \<and> pr_sent p = plain_error (refusal_code (uni_lower example_externals) ?v) @ [relayed_response (rs_Body ?rsp)]
     \<and> outbound w' = outbound w1 @ [forwarded_request ''put'' ''message/ohttp-req'' ''https://g'' (concat [''op'', ''aq''] @ ''ue'')]"
    by (rule body_after_refused_headers_is_relayed [OF s])
       (simp_all add: lc v, simp_all add: gateway_succeeds_def example_config_def example_externals_def example_send_def)
  with s show ?thesis by (auto simp: lc v)
qed

text \<open>
  C35: an oversized body does not close the stream either. When the pieces collected so far and
  one more exceed the limit, the stream answers 413 and drops them; the pieces that follow are
  then relayed as if they were the whole body: a truncated request reaches the gateway and a
  second response is sent.
\<close>

theorem tail_of_oversized_body_is_relayed:
  assumes wired: "setup_relay E cfg w0 = (Inr runner, w1)"
    and gw: "DomainMap cfg (request_host (uni_lower E) v) = Some url" "url \<noteq> []" "parse_url_err E url = None"
    and hdr: "accepted_headers (uni_lower E) v"
    and fit: "int (length (concat cs)) \<le> sint (MaxRequestBodySize cfg)"
    and over: "sint (MaxRequestBodySize cfg) < int (length (concat cs @ b))" "int (length (concat cs @ b)) < 2 ^ 63"
    and tail: "int (length (concat ds @ d)) \<le> sint (MaxRequestBodySize cfg)"
    and answer: "gateway_succeeds E (Timeout cfg) (relayed_request url (concat ds @ d)) rsp"
    and send: "\<And>r x. fst (send r x) = None"
  shows "\<exists>p w'. Process E send (runner_handler runner)
      (headers_event v # map (\<lambda>b. body_event b False) (cs @ b # ds) @ [body_event d True, Recv (Inl EOF)]) w
       = (Some None, p, w')
     \<and> pr_sent p = plain_error 413 @ [relayed_response (rs_Body rsp)]
     \<and> outbound w' = outbound w @ [relayed_request url (concat ds @ d)]"
proof (rule Process_of_loop)
  fix w
  let ?s = "runner_handler runner" and ?lc = "uni_lower E"
  let ?rest = "map (\<lambda>b. body_event b False) ds @ [body_event d True, Recv (Inl EOF)]"
  let ?p = "proc_init\<lparr>pr_st := \<lparr>st_host = request_host ?lc v, st_configRequest = False,
    st_reqContentType = extractHeaderValue ?lc v ''content-type'', st_httpMethod = ''post'', st_body = []\<rparr>\<rparr>"
  have ft: "forwarded_type (extractHeaderValue ?lc v ''content-type'') = ContentTypeOHTTPReq"
    using hdr by (simp add: accepted_headers_def forwarded_type_def)
  have ct: "ContentTypeOHTTPReq \<noteq> []" by (simp add: ContentTypeOHTTPReq_def)
  note R = configured_relayer [OF wired resolves_static [OF gw(1,2)] gw(3) disjI2 [OF validMethod_post] ct
      answer [unfolded relayed_request_forwarded]]
  obtain p1 where p1: "process_loop E send ?s (map (\<lambda>b. body_event b False) cs @ body_event b False # ?rest) ?p w
      = process_loop E send ?s (body_event b False # ?rest) p1 w"
    "pr_sent p1 = []" "pr_st p1 = (pr_st ?p)\<lparr>st_body := concat cs\<rparr>"
    using body_collected [of ?p cs ?s E send "body_event b False # ?rest" w] fit by (auto simp: R(3) proc_init_def)
  have "sint (sv_maxRequestBodySize ?s) < int (length (st_body (pr_st p1) @ b))"
    "int (length (st_body (pr_st p1) @ b)) < 2 ^ 63" using over by (simp_all add: R(3) p1(3))
  then obtain x p2 where step: "process_step E send ?s (body_event b False) p1 w = (Continue, p2, w\<lparr>env := x\<rparr>)"
    and "pr_sent p2 = pr_sent p1 @ plain_error 413" "pr_st p2 = (pr_st p1)\<lparr>st_body := []\<rparr>"
    by (rule process_step_body_over [where send = send, OF _ _ send])
  then have p2: "pr_sent p2 = plain_error 413" "pr_st p2 = pr_st ?p" by (simp_all add: p1(2,3))
  have "\<exists>p' w'. process_loop E send ?s ?rest p2 (w\<lparr>env := x\<rparr>) = (Some None, p', w')
     \<and> pr_sent p' = pr_sent p2 @ [relayed_response (rs_Body rsp)]
     \<and> outbound w' = outbound (w\<lparr>env := x\<rparr>) @ [relayed_request url (concat ds @ d)]"
    using tail R(1) [of "w\<lparr>env := x\<rparr>", folded relayed_request_forwarded]
    by (intro body_relayed [OF _ _ _ _ R(2,4) send]) (simp_all add: p2(2) ft R(3))
  then show "\<exists>p w'. process_loop E send ?s
      (headers_event v # map (\<lambda>b. body_event b False) (cs @ b # ds) @ [body_event d True, Recv (Inl EOF)]) proc_init w
       = (Some None, p, w')
     \<and> pr_sent p = plain_error 413 @ [relayed_response (rs_Body rsp)]
     \<and> outbound w' = outbound w @ [relayed_request url (concat ds @ d)]"
    using p1(1) step p2(1) by (simp add: process_step_headers_accepted [OF hdr]) (simp add: proc_init_def)
qed

theorem tail_of_oversized_body_is_relayed_witness:
  "\<exists>runner w1 p w'. setup_relay example_externals example_config example_world = (Inr runner, w1)
     \<and> Process example_externals example_send (runner_handler runner)
         (headers_event (Some \<lparr>hh_Headers = Some [raw_header '':method'' ''POST'', raw_header ''host'' ''example.test'',
            raw_header ''content-length'' ''15'']\<rparr>)
          # map (\<lambda>b. body_event b False) [''eleven'', '' byte''] @ [body_event ''tail'' True, Recv (Inl EOF)]) w1
       = (Some None, p, w')
     \<and> pr_sent p = plain_error 413 @ [relayed_response ''opaque'']
     \<and> outbound w' = outbound w1 @ [relayed_request ''https://g'' ''tail'']"
proof -
  let ?v = "Some \<lparr>hh_Headers = Some [raw_header '':method'' ''POST'', raw_header ''host'' ''example.test'',
            raw_header ''content-length'' ''15'']\<rparr>"
  let ?rsp = "\<lparr>rs_StatusCode = 200, rs_Header = Map.empty, rs_Body = ''opaque'', rs_BodyErr = None\<rparr>"
  obtain runner w1 where s: "setup_relay example_externals example_config example_world = (Inr runner, w1)"
    using example_setup by blast
  have lc: "uni_lower example_externals = id" by (simp add: example_externals_def)
  have h: "request_host id ?v = ''example.test''" and a: "accepted_headers id ?v" by code_simp+
  have "\<exists>p w'. Process example_externals example_send (runner_handler runner)
      (headers_event ?v # map (\<lambda>b. body_event b False) ([''eleven''] @ '' byte'' # []) @ [body_event ''tail'' True, Recv (Inl EOF)]) w1
       = (Some None, p, w')
     \<and> pr_sent p = plain_error 413 @ [relayed_response (rs_Body ?rsp)]
     \<and> outbound w' = outbound w1 @ [relayed_request ''https://g'' (concat [] @ ''tail'')]"
    by (rule tail_of_oversized_body_is_relayed [OF s])
       (simp_all add: lc h a, simp_all add: gateway_succeeds_def example_config_def example_externals_def example_send_def)
  with s show ?thesis by auto
qed

end
