(* ===== verification/Tls.thy ===== *)
theory Tls
  imports World
begin

text \<open>
  \<open>internal/tls/tls.go\<close>: the self-signed certificate of the relay's gRPC server. The
  cryptographic library is a parameter: random numbers, key generation, certificate creation
  and the encodings. Keys and encodings are byte strings.
\<close>

record cert_template =
  ct_SerialNumber :: int
  ct_Organization :: "string list"
  ct_NotBefore :: instant
  ct_NotAfter :: instant
  ct_KeyEncipherment :: bool
  ct_DigitalSignature :: bool
  ct_ServerAuth :: bool
  ct_BasicConstraintsValid :: bool

record tls_certificate =
  tc_cert :: bytes
  tc_key :: bytes

record 'x crypto =
  rand_Int :: "int \<Rightarrow> 'x \<Rightarrow> int result \<times> 'x"
  rsa_GenerateKey :: "nat \<Rightarrow> 'x \<Rightarrow> bytes result \<times> 'x"
  rsa_PublicKey :: "bytes \<Rightarrow> bytes"
  x509_CreateCertificate ::
    "cert_template \<Rightarrow> cert_template \<Rightarrow> bytes \<Rightarrow> bytes \<Rightarrow> 'x \<Rightarrow> bytes result \<times> 'x"
  x509_MarshalPKCS8PrivateKey :: "bytes \<Rightarrow> bytes result"
  pem_EncodeToMemory :: "string \<Rightarrow> bytes \<Rightarrow> bytes"
  tls_X509KeyPair :: "bytes \<Rightarrow> bytes \<Rightarrow> tls_certificate result"

definition ten_years :: duration where
  "ten_years = 10 * 365 * 24 * 3600 * 1000000000"

text \<open>The template for a serial number and the current time.\<close>

definition server_template :: "int \<Rightarrow> instant \<Rightarrow> cert_template" where
  "server_template serialNumber now =
     \<lparr>ct_SerialNumber = serialNumber, ct_Organization = [''Inference Ext''],
      ct_NotBefore = now, ct_NotAfter = now + ten_years,
      ct_KeyEncipherment = True, ct_DigitalSignature = True, ct_ServerAuth = True,
      ct_BasicConstraintsValid = True\<rparr>"

text \<open>The errors are formatted with the verb v, so they wrap nothing.\<close>

definition CreateSelfSignedTLSCertificate ::
  "'x externals \<Rightarrow> 'x crypto \<Rightarrow> 'x world \<Rightarrow> tls_certificate result \<times> 'x world" where
  "CreateSelfSignedTLSCertificate E C w =
     (let serialNumberLimit = 2 ^ 128
      in case rand_Int C serialNumberLimit (env w) of
           (Inl err, x) \<Rightarrow> (Inl (Errorf ''error creating serial number: %v'' [] None), w\<lparr>env := x\<rparr>)
         | (Inr serialNumber, x) \<Rightarrow>
             (case Now E (w\<lparr>env := x\<rparr>) of
                (now, w) \<Rightarrow>
                  let template = server_template serialNumber now
                  in case rsa_GenerateKey C 4096 (env w) of
                       (Inl err, x) \<Rightarrow> (Inl (Errorf ''error generating key: %v'' [] None), w\<lparr>env := x\<rparr>)
                     | (Inr priv, x) \<Rightarrow>
                         (case x509_CreateCertificate C template template (rsa_PublicKey C priv) priv x of
                            (Inl err, x) \<Rightarrow>
                              (Inl (Errorf ''error creating certificate: %v'' [] None), w\<lparr>env := x\<rparr>)
                          | (Inr derBytes, x) \<Rightarrow>
                              let certBytes = pem_EncodeToMemory C ''CERTIFICATE'' derBytes
                              in (case x509_MarshalPKCS8PrivateKey C priv of
                                    Inl err \<Rightarrow>
                                      Inl (Errorf ''error marshalling private key: %v'' [] None)
                                  | Inr privBytes \<Rightarrow>
                                      tls_X509KeyPair C certBytes (pem_EncodeToMemory C ''PRIVATE KEY'' privBytes),
                                  w\<lparr>env := x\<rparr>))))"

text \<open>
  C33: a certificate comes from one self-signed template. When creation succeeds, the pair is
  built from the encodings of one generated 4096-bit key and of a certificate that is its own
  issuer, is signed with that key, may authenticate a server, is valid from the current time
  for ten years of 365 days, and whose serial number is in the range the random source keeps.
\<close>

theorem CreateSelfSignedTLSCertificate_success:
  assumes rand_range: "\<And>limit x n x'. rand_Int C limit x = (Inr n, x') \<Longrightarrow> 0 \<le> n \<and> n < limit"
    and "CreateSelfSignedTLSCertificate E C w = (Inr cert, w')"
  shows "\<exists>t priv der pk x x' x''.
     0 \<le> ct_SerialNumber t \<and> ct_SerialNumber t < 2 ^ 128 \<and> ct_ServerAuth t
     \<and> ct_NotAfter t - ct_NotBefore t = 315360000 * 1000000000
     \<and> fst (rsa_GenerateKey C 4096 x) = Inr priv
     \<and> x509_CreateCertificate C t t (rsa_PublicKey C priv) priv x' = (Inr der, x'')
     \<and> x509_MarshalPKCS8PrivateKey C priv = Inr pk
     \<and> tls_X509KeyPair C (pem_EncodeToMemory C ''CERTIFICATE'' der) (pem_EncodeToMemory C ''PRIVATE KEY'' pk) = Inr cert
     \<and> outbound w' = outbound w \<and> metrics_log w' = metrics_log w"
proof -
  obtain n x0 where r: "rand_Int C (2 ^ 128) (env w) = (Inr n, x0)"
    using assms(2) by (auto simp: CreateSelfSignedTLSCertificate_def Let_def split: prod.splits sum.splits)
  obtain now w1 where n: "Now E (w\<lparr>env := x0\<rparr>) = (now, w1)" by fastforce
  let ?t = "server_template n now"
  obtain priv x1 where k: "rsa_GenerateKey C 4096 (env w1) = (Inr priv, x1)"
    using assms(2) r n by (auto simp: CreateSelfSignedTLSCertificate_def Let_def split: prod.splits sum.splits)
  obtain der x2 where d: "x509_CreateCertificate C ?t ?t (rsa_PublicKey C priv) priv x1 = (Inr der, x2)"
    using assms(2) r n k by (auto simp: CreateSelfSignedTLSCertificate_def Let_def split: prod.splits sum.splits)
  obtain pk where p: "x509_MarshalPKCS8PrivateKey C priv = Inr pk" and w': "w' = w1\<lparr>env := x2\<rparr>"
    and c: "tls_X509KeyPair C (pem_EncodeToMemory C ''CERTIFICATE'' der) (pem_EncodeToMemory C ''PRIVATE KEY'' pk) = Inr cert"
    using assms(2) r n k d by (auto simp: CreateSelfSignedTLSCertificate_def Let_def split: sum.splits)
  have "0 \<le> ct_SerialNumber ?t" "ct_SerialNumber ?t < 2 ^ 128" "ct_ServerAuth ?t"
    "ct_NotAfter ?t - ct_NotBefore ?t = 315360000 * 1000000000"
    using rand_range [OF r] by (simp_all add: server_template_def ten_years_def)
  moreover have "fst (rsa_GenerateKey C 4096 (env w1)) = Inr priv" by (simp add: k)
  moreover have "outbound w' = outbound w" "metrics_log w' = metrics_log w"
    using Now_case [OF n] w' by simp_all
  ultimately show ?thesis using d p c by blast
qed

text \<open>A library that always answers, for examples.\<close>

definition example_crypto :: "unit crypto" where
  "example_crypto =
     \<lparr>rand_Int = (\<lambda>limit x. (if 0 < limit then Inr (limit - 1) else Inl (LibraryError ''max''), x)),
      rsa_GenerateKey = (\<lambda>n x. (Inr ''key'', x)), rsa_PublicKey = (\<lambda>k. ''pub'' @ k),
      x509_CreateCertificate = (\<lambda>t p pub priv x. (Inr (''cert'' @ pub), x)),
      x509_MarshalPKCS8PrivateKey = (\<lambda>k. Inr k), pem_EncodeToMemory = (\<lambda>t b. t @ b),
      tls_X509KeyPair = (\<lambda>c k. Inr \<lparr>tc_cert = c, tc_key = k\<rparr>)\<rparr>"

theorem CreateSelfSignedTLSCertificate_success_witness:
  "\<exists>cert w' t. CreateSelfSignedTLSCertificate example_externals example_crypto example_world = (Inr cert, w')
     \<and> tc_key cert = ''PRIVATE KEYkey'' \<and> ct_SerialNumber t < 2 ^ 128
     \<and> (\<exists>x' x'' der. x509_CreateCertificate example_crypto t t ''pubkey'' ''key'' x' = (Inr der, x''))"
proof -
  let ?r = "CreateSelfSignedTLSCertificate example_externals example_crypto example_world"
  obtain cert w' where c: "?r = (Inr cert, w')" and k: "tc_key cert = ''PRIVATE KEYkey''"
    by (simp add: CreateSelfSignedTLSCertificate_def example_crypto_def example_externals_def example_world_def
        Now_def Let_def)
  have rng: "0 \<le> n \<and> n < limit" if "rand_Int example_crypto limit x = (Inr n, x')" for limit x n x'
    using that by (auto simp: example_crypto_def split: if_splits)
  have "rsa_GenerateKey example_crypto 4096 x = (Inr ''key'', x)" "rsa_PublicKey example_crypto ''key'' = ''pubkey''" for x
    by (simp_all add: example_crypto_def)
  with CreateSelfSignedTLSCertificate_success [OF rng c] k c show ?thesis by auto
qed

end
