(* ===== verification/Runnable.thy ===== *)
theory Runnable
  imports Prelude
begin

text \<open>
  \<open>internal/runnable/grpc.go\<close>: a gRPC server as a runnable. The runnable serves in its own
  goroutine; a second one, the watcher, waits in a \<open>select\<close> for the context or for the channel
  the runnable closes when it returns, and may stop the server. A run is any sequence of
  events: the context closes, serving returns, the watcher's \<open>select\<close> takes one of its two
  branches, \<open>GracefulStop\<close> returns. Every event can come at any time; one that cannot happen in
  the state it meets changes nothing, so all interleavings of the two goroutines are sequences
  of events, the ones where both branches are ready and Go chooses either included.
\<close>

datatype serve_event =
    CtxClosed
  | ServeReturned "go_error option"
  | WatcherTakesCtx
  | WatcherTakesDone
  | StopReturned

text \<open>The watcher: in its \<open>select\<close>, inside \<open>GracefulStop\<close>, or ended; it starts only after listening.\<close>

datatype watcher = NotStarted | Waiting | Stopping | Ended

text \<open>\<open>gr_doneClosed\<close> is the channel \<open>doneCh\<close>; \<open>gr_result\<close> is what the runnable has returned.\<close>

record grpc_run =
  gr_ctxDone :: bool
  gr_doneClosed :: bool
  gr_gracefulStops :: nat
  gr_watcher :: watcher
  gr_result :: "go_error option option"

definition serve_result :: "go_error option \<Rightarrow> go_error option" where
  "serve_result r =
     (case r of
        None \<Rightarrow> None
      | Some err \<Rightarrow> if err \<noteq> ErrServerStopped then Some (Errorf ''gRPC server failed - %w'' [] (Some err)) else None)"

text \<open>Serving returns once; the deferred \<open>close\<close> runs before the runnable has returned.\<close>

fun serve_event_step :: "serve_event \<Rightarrow> grpc_run \<Rightarrow> grpc_run" where
  "serve_event_step CtxClosed g = g\<lparr>gr_ctxDone := True\<rparr>"
| "serve_event_step (ServeReturned r) g =
     (if gr_result g = None then g\<lparr>gr_result := Some (serve_result r), gr_doneClosed := True\<rparr> else g)"
| "serve_event_step WatcherTakesCtx g =
     (if gr_watcher g = Waiting \<and> gr_ctxDone g
      then g\<lparr>gr_watcher := Stopping, gr_gracefulStops := gr_gracefulStops g + 1\<rparr> else g)"
| "serve_event_step WatcherTakesDone g =
     (if gr_watcher g = Waiting \<and> gr_doneClosed g then g\<lparr>gr_watcher := Ended\<rparr> else g)"
| "serve_event_step StopReturned g = (if gr_watcher g = Stopping then g\<lparr>gr_watcher := Ended\<rparr> else g)"

definition serve_events :: "serve_event list \<Rightarrow> grpc_run \<Rightarrow> grpc_run" where
  "serve_events evs g = fold serve_event_step evs g"

text \<open>What the runnable has returned, \<open>None\<close> while it serves, and the state of its goroutines.\<close>

definition GRPCServer :: "go_error option \<Rightarrow> serve_event list \<Rightarrow> go_error option option \<times> grpc_run" where
  "GRPCServer listenErr evs =
     (case listenErr of
        Some err \<Rightarrow>
          let r = Some (Some (Errorf ''gRPC server failed to listen - %w'' [] (Some err)))
          in (r, \<lparr>gr_ctxDone = False, gr_doneClosed = False, gr_gracefulStops = 0, gr_watcher = NotStarted, gr_result = r\<rparr>)
      | None \<Rightarrow>
          let g = serve_events evs \<lparr>gr_ctxDone = False, gr_doneClosed = False, gr_gracefulStops = 0,
                    gr_watcher = Waiting, gr_result = None\<rparr>
          in (gr_result g, g))"


section \<open>Runs\<close>

lemma serve_events_append [simp]: "serve_events (evs @ evs') g = serve_events evs' (serve_events evs g)"
  by (simp add: serve_events_def)

lemma serve_events_simps [simp]:
  "serve_events [] g = g" "serve_events (ev # evs) g = serve_events evs (serve_event_step ev g)"
  by (simp_all add: serve_events_def)

text \<open>The state after any events of a server that listens.\<close>

definition serving :: "serve_event list \<Rightarrow> grpc_run" where
  "serving evs = snd (GRPCServer None evs)"

lemma serving_simps [simp]:
  "serving [] = \<lparr>gr_ctxDone = False, gr_doneClosed = False, gr_gracefulStops = 0, gr_watcher = Waiting, gr_result = None\<rparr>"
  "serving (evs @ [ev]) = serve_event_step ev (serving evs)"
  by (simp_all add: serving_def GRPCServer_def Let_def)

lemma GRPCServer_listening: "GRPCServer None evs = (gr_result (serving evs), serving evs)"
  by (simp add: serving_def GRPCServer_def Let_def)

fun returned_by :: "serve_event list \<Rightarrow> go_error option option" where
  "returned_by [] = None"
| "returned_by (ServeReturned r # evs) = Some r"
| "returned_by (ev # evs) = returned_by evs"

lemma returned_by_append:
  "returned_by (evs @ evs') = (case returned_by evs of None \<Rightarrow> returned_by evs' | Some r \<Rightarrow> Some r)"
  by (induction evs rule: returned_by.induct) simp_all

lemma serving_result:
  "gr_result (serving evs) = map_option serve_result (returned_by evs)"
  "gr_doneClosed (serving evs) \<longleftrightarrow> returned_by evs \<noteq> None"
proof -
  have "gr_result (serving evs) = map_option serve_result (returned_by evs)
      \<and> (gr_doneClosed (serving evs) \<longleftrightarrow> returned_by evs \<noteq> None)"
  proof (induction evs rule: rev_induct)
    case (snoc ev evs)
    then show ?case by (cases ev) (auto simp: returned_by_append split: option.split)
  qed simp
  then show "gr_result (serving evs) = map_option serve_result (returned_by evs)"
    "gr_doneClosed (serving evs) \<longleftrightarrow> returned_by evs \<noteq> None" by auto
qed

text \<open>The context and the watcher: \<open>GracefulStop\<close> has been called exactly when the watcher took the first branch.\<close>

lemma serving_watcher:
  "gr_ctxDone (serving evs) \<longleftrightarrow> CtxClosed \<in> set evs"
  "gr_watcher (serving evs) \<noteq> NotStarted"
  "gr_gracefulStops (serving evs) \<le> 1"
  "gr_gracefulStops (serving evs) = 1 \<Longrightarrow> CtxClosed \<in> set evs"
  "gr_watcher (serving evs) = Waiting \<Longrightarrow> gr_gracefulStops (serving evs) = 0"
  "gr_watcher (serving evs) = Stopping \<Longrightarrow> gr_gracefulStops (serving evs) = 1"
  "gr_watcher (serving evs) = Ended \<Longrightarrow> gr_gracefulStops (serving evs) = 0 \<Longrightarrow> returned_by evs \<noteq> None"
proof -
  have "(gr_ctxDone (serving evs) \<longleftrightarrow> CtxClosed \<in> set evs)
      \<and> gr_watcher (serving evs) \<noteq> NotStarted
      \<and> gr_gracefulStops (serving evs) \<le> 1
      \<and> (gr_gracefulStops (serving evs) = 1 \<longrightarrow> CtxClosed \<in> set evs)
      \<and> (gr_watcher (serving evs) = Waiting \<longrightarrow> gr_gracefulStops (serving evs) = 0)
      \<and> (gr_watcher (serving evs) = Stopping \<longrightarrow> gr_gracefulStops (serving evs) = 1)
      \<and> (gr_watcher (serving evs) = Ended \<longrightarrow> gr_gracefulStops (serving evs) = 0 \<longrightarrow> returned_by evs \<noteq> None)"
  proof (induction evs rule: rev_induct)
    case (snoc ev evs)
    then show ?case
      using serving_result(2) [of evs] by (cases ev) (auto simp: returned_by_append split: option.splits)
  qed simp
  then show "gr_ctxDone (serving evs) \<longleftrightarrow> CtxClosed \<in> set evs"
    "gr_watcher (serving evs) \<noteq> NotStarted"
    "gr_gracefulStops (serving evs) \<le> 1"
    "gr_gracefulStops (serving evs) = 1 \<Longrightarrow> CtxClosed \<in> set evs"
    "gr_watcher (serving evs) = Waiting \<Longrightarrow> gr_gracefulStops (serving evs) = 0"
    "gr_watcher (serving evs) = Stopping \<Longrightarrow> gr_gracefulStops (serving evs) = 1"
    "gr_watcher (serving evs) = Ended \<Longrightarrow> gr_gracefulStops (serving evs) = 0 \<Longrightarrow> returned_by evs \<noteq> None"
    by blast+
qed

text \<open>
  What the gRPC library documents of \<open>Serve\<close>: without an error, or with the error of a
  stopped server, it returns only after the server was stopped.
\<close>

definition serve_documented :: "serve_event list \<Rightarrow> bool" where
  "serve_documented evs \<longleftrightarrow>
     (\<forall>i < length evs. evs ! i \<in> {ServeReturned None, ServeReturned (Some ErrServerStopped)} \<longrightarrow>
        gr_gracefulStops (serving (take i evs)) > 0)"

lemma returned_by_nth:
  "returned_by evs = Some r \<Longrightarrow> \<exists>i < length evs. evs ! i = ServeReturned r"
proof (induction evs rule: rev_induct)
  case (snoc ev evs)
  then show ?case
  proof (cases "returned_by evs")
    case None
    then have "returned_by [ev] = Some r" using snoc.prems by (simp add: returned_by_append)
    then have "ev = ServeReturned r" by (cases ev) simp_all
    then show ?thesis by (intro exI [of _ "length evs"]) simp
  next
    case (Some r')
    then obtain i where "i < length evs" "evs ! i = ServeReturned r"
      using snoc by (auto simp: returned_by_append)
    then show ?thesis by (intro exI [of _ i]) (simp add: nth_append)
  qed
qed simp

lemma serve_result_none: "serve_result r = None \<longleftrightarrow> r \<in> {None, Some ErrServerStopped}"
  by (auto simp: serve_result_def split: option.splits if_splits)

lemma stops_grow: "gr_gracefulStops (serving evs) \<le> gr_gracefulStops (serving (evs @ evs'))"
proof (induction evs' rule: rev_induct)
  case (snoc ev evs')
  have "gr_gracefulStops g \<le> gr_gracefulStops (serve_event_step ev g)" for g by (cases ev) simp_all
  with snoc show ?case unfolding append_assoc [symmetric] serving_simps(2) by (rule le_trans)
qed simp

lemma clean_return:
  assumes "serve_documented evs" and "returned_by evs = Some r" and "serve_result r = None"
  shows "CtxClosed \<in> set evs \<and> gr_gracefulStops (serving evs) = 1"
proof -
  obtain i where i: "i < length evs" "evs ! i = ServeReturned r" using returned_by_nth [OF assms(2)] by blast
  then have "0 < gr_gracefulStops (serving (take i evs))"
    using assms(1,3) by (auto simp: serve_documented_def serve_result_none)
  also have "\<dots> \<le> gr_gracefulStops (serving evs)"
    using stops_grow [of "take i evs" "drop i evs"] by simp
  finally show ?thesis using serving_watcher(3,4) [of evs] by simp
qed

text \<open>
  C30: the life of a gRPC server, for every interleaving of its two goroutines. A failure to
  listen is returned at once, wrapped, and no goroutine is started. Otherwise the runnable
  returns exactly when serving does: the first result of \<open>Serve\<close>, wrapped if it is an error
  other than that of a stopped server, else without error; as \<open>Serve\<close> is documented, a return
  without error happens only after the context was closed and the server stopped.
  \<open>GracefulStop\<close> is called at most once and only after the context was closed, possibly after
  serving has returned. No goroutine leaks: while the server serves in an open context the
  watcher waits, and once the context is closed or serving has returned the branches of its
  \<open>select\<close> and the return of \<open>GracefulStop\<close> end it.
\<close>

theorem GRPCServer_lifecycle:
  "(case GRPCServer (Some err) evs of (r, g) \<Rightarrow>
      r = Some (Some (Errorf ''gRPC server failed to listen - %w'' [] (Some err)))
      \<and> gr_watcher g = NotStarted \<and> gr_gracefulStops g = 0)
   \<and> (case GRPCServer None evs of (r, g) \<Rightarrow>
      r = map_option serve_result (returned_by evs)
      \<and> gr_gracefulStops g \<le> 1 \<and> (gr_gracefulStops g = 1 \<longrightarrow> CtxClosed \<in> set evs)
      \<and> (serve_documented evs \<and> r = Some None \<longrightarrow> CtxClosed \<in> set evs \<and> gr_gracefulStops g = 1)
      \<and> (r = None \<and> CtxClosed \<notin> set evs \<longrightarrow> gr_watcher g = Waiting)
      \<and> (r \<noteq> None \<or> CtxClosed \<in> set evs \<longrightarrow>
           gr_watcher (snd (GRPCServer None (evs @ [WatcherTakesCtx, WatcherTakesDone, StopReturned]))) = Ended))"
proof -
  have ends: "gr_watcher (serving (evs @ [WatcherTakesCtx, WatcherTakesDone, StopReturned])) = Ended"
    if "returned_by evs \<noteq> None \<or> CtxClosed \<in> set evs"
    using that serving_result(2) [of evs] serving_watcher(1,2) [of evs]
    by (cases "gr_watcher (serving evs)") (auto simp: serving_def GRPCServer_def Let_def)
  have stopped: "CtxClosed \<in> set evs \<and> gr_gracefulStops (serving evs) = 1"
    if doc: "serve_documented evs" and r: "returned_by evs = Some r" "serve_result r = None" for r
    using clean_return [OF that] .
  have waits: "gr_watcher (serving evs) = Waiting" if "returned_by evs = None" "CtxClosed \<notin> set evs"
    using that serving_watcher(2-7) [of evs] by (cases "gr_watcher (serving evs)") (auto simp: le_Suc_eq)
  show ?thesis
    using serving_result(1) [of evs] serving_watcher(3,4) [of evs] ends stopped waits
    by (auto simp: GRPCServer_def [of "Some err"] GRPCServer_listening Let_def)
qed

text \<open>A run in which the context closes, the watcher stops the server, and serving ends.\<close>

theorem GRPCServer_lifecycle_witness:
  "let evs = [CtxClosed, WatcherTakesCtx, ServeReturned None] in
     serve_documented evs \<and> fst (GRPCServer None evs) = Some None
     \<and> gr_gracefulStops (snd (GRPCServer None evs)) = 1
     \<and> gr_watcher (snd (GRPCServer None (evs @ [WatcherTakesCtx, WatcherTakesDone, StopReturned]))) = Ended"
proof -
  let ?evs = "[CtxClosed, WatcherTakesCtx, ServeReturned None]"
  have s: "serving [CtxClosed, WatcherTakesCtx] = \<lparr>gr_ctxDone = True, gr_doneClosed = False, gr_gracefulStops = 1,
      gr_watcher = Stopping, gr_result = None\<rparr>" by (simp add: serving_def GRPCServer_def Let_def)
  have d: "serve_documented ?evs"
    using s by (auto simp: serve_documented_def less_Suc_eq numeral_3_eq_3 take_Cons')
  have r: "fst (GRPCServer None ?evs) = Some None" by (simp add: GRPCServer_def serve_result_def Let_def)
  from GRPCServer_lifecycle [of EOF ?evs] d r show ?thesis by (auto simp: Let_def split: prod.splits)
qed

section \<open>Signals\<close>

text \<open>
  \<open>SetupSignalHandler\<close> of \<open>internal/ctrl/ctrl.go\<close>: the context it returns and the exit code,
  after a number of interrupt or terminate signals.
\<close>

record signal_state =
  ss_cancelled :: bool
  ss_exit :: "int option"

fun SetupSignalHandler :: "nat \<Rightarrow> signal_state" where
  "SetupSignalHandler 0 = \<lparr>ss_cancelled = False, ss_exit = None\<rparr>"
| "SetupSignalHandler (Suc 0) = \<lparr>ss_cancelled = True, ss_exit = None\<rparr>"
| "SetupSignalHandler (Suc (Suc n)) = \<lparr>ss_cancelled = True, ss_exit = Some 1\<rparr>"

lemma SetupSignalHandler_states:
  "ss_cancelled (SetupSignalHandler n) \<longleftrightarrow> 1 \<le> n" "ss_exit (SetupSignalHandler n) = (if 2 \<le> n then Some 1 else None)"
  by (induction n rule: SetupSignalHandler.induct) auto

end
