(* ===== verification/App.thy ===== *)
theory App
  imports Wiring Tls Runnable
begin

text \<open>
  Starting and stopping the relay: \<open>pkg/ohttp-relay/app/app.go\<close>,
  \<open>pkg/ohttp-relay/server/runserver.go\<close> (\<open>Start\<close>), \<open>internal/ctrl/ctrl.go\<close> (the logger)
  and \<open>cmd/ohttp-relay\<close>. The three servers run as goroutines of an error group. The error
  group is a step relation in which a server may finish with any result its code can produce
  at that moment, and the context may be cancelled by the first error or, where the caller's
  context allows it, from outside.
\<close>

section \<open>The relay server\<close>

record 'x grpc_server =
  gs_certificate :: "tls_certificate option"
  gs_handler :: "'x Server"

text \<open>\<open>Start\<close> up to serving, and with the events of the gRPC runnable.\<close>

definition build_server ::
  "'x externals \<Rightarrow> 'x crypto \<Rightarrow> 'x ExtProcServerRunner \<Rightarrow> 'x world \<Rightarrow> 'x grpc_server result \<times> 'x world" where
  "build_server E C r w =
     (if esr_SecureServing r then
        (case CreateSelfSignedTLSCertificate E C w of
           (Inl err, w) \<Rightarrow> (Inl err, w)
         | (Inr cert, w) \<Rightarrow> (Inr \<lparr>gs_certificate = Some cert, gs_handler = runner_handler r\<rparr>, w))
      else (Inr \<lparr>gs_certificate = None, gs_handler = runner_handler r\<rparr>, w))"

definition Start ::
  "'x externals \<Rightarrow> 'x crypto \<Rightarrow> go_error option \<Rightarrow> serve_event list \<Rightarrow> 'x ExtProcServerRunner \<Rightarrow> 'x world \<Rightarrow>
   go_error option option" where
  "Start E C listenErr evs r w =
     (case build_server E C r w of
        (Inl err, w) \<Rightarrow> Some (Some err)
      | (Inr srv, w) \<Rightarrow> fst (GRPCServer listenErr evs))"

definition runRelayServer ::
  "'x externals \<Rightarrow> 'x crypto \<Rightarrow> ConfigT \<Rightarrow> go_error option \<Rightarrow> serve_event list \<Rightarrow> 'x world \<Rightarrow>
   go_error option option" where
  "runRelayServer E C cfg listenErr evs w =
     (case setup_relay E cfg w of
        (Inl err, w) \<Rightarrow> Some (Some err)
      | (Inr serverRunner, w) \<Rightarrow> Start E C listenErr evs serverRunner w)"


section \<open>The metrics server\<close>

definition metrics_addr :: "ConfigT \<Rightarrow> string" where
  "metrics_addr cfg =
     (let addr = MetricsAddr cfg in if TrimSpace addr = [] then '':'' @ fmt_d (MetricsPort cfg) else addr)"

text \<open>
  What the \<open>select\<close> meets: the context is done and \<open>Shutdown\<close> returns a value, or the
  goroutine that listens puts its error into the channel, or closes it without one.
\<close>

datatype metrics_event = MetricsCtxDone "go_error option" | ListenReturned "go_error option"

definition listen_error :: "go_error option \<Rightarrow> go_error option" where
  "listen_error r =
     (case r of None \<Rightarrow> None | Some err \<Rightarrow> if \<not> errors_Is err ErrServerClosed then Some err else None)"

definition runMetricsServer :: "metrics_event \<Rightarrow> go_error option" where
  "runMetricsServer ev =
     (case ev of
        MetricsCtxDone (Some err) \<Rightarrow> Some (Errorf ''metrics server shutdown failed: %w'' [] (Some err))
      | MetricsCtxDone None \<Rightarrow> None
      | ListenReturned r \<Rightarrow> Some (Errorf ''metrics server failed: %w'' [] (listen_error r)))"


section \<open>The error group\<close>

datatype task = HealthTask | MetricsTask | RelayTask

text \<open>\<open>gp_finished\<close> is in the order of finishing.\<close>

record group =
  gp_finished :: "(task \<times> go_error option) list"
  gp_err :: "go_error option"
  gp_cancelled :: bool

definition group_start :: group where
  "group_start = \<lparr>gp_finished = [], gp_err = None, gp_cancelled = False\<rparr>"

definition group_finish :: "task \<Rightarrow> go_error option \<Rightarrow> group \<Rightarrow> group" where
  "group_finish t r g =
     (let g = g\<lparr>gp_finished := gp_finished g @ [(t, r)]\<rparr>
      in if r \<noteq> None \<and> gp_err g = None then g\<lparr>gp_err := r, gp_cancelled := True\<rparr> else g)"

text \<open>What the code of a server can return while the context is cancelled or not.\<close>

inductive outcome ::
  "'x externals \<Rightarrow> 'x crypto \<Rightarrow> ConfigT \<Rightarrow> 'x world \<Rightarrow> bool \<Rightarrow> task \<Rightarrow> go_error option \<Rightarrow> bool"
  for E C cfg w cancelled where
  health: "fst (GRPCServer listenErr evs) = Some r \<Longrightarrow> (CtxClosed \<in> set evs \<Longrightarrow> cancelled) \<Longrightarrow>
     outcome E C cfg w cancelled HealthTask r"
| metrics: "r = runMetricsServer ev \<Longrightarrow> (\<And>e. ev = MetricsCtxDone e \<Longrightarrow> cancelled) \<Longrightarrow>
     outcome E C cfg w cancelled MetricsTask r"
| relay: "runRelayServer E C cfg listenErr evs w = Some r \<Longrightarrow> (CtxClosed \<in> set evs \<Longrightarrow> cancelled) \<Longrightarrow>
     outcome E C cfg w cancelled RelayTask r"

inductive_cases outcome_metrics: "outcome E C cfg w cancelled MetricsTask r"

text \<open>
  The states of the group. \<open>ends\<close> says that the context given to \<open>Run\<close> can be cancelled from
  outside; the background context of \<open>main\<close> cannot.
\<close>

inductive group_reachable ::
  "'x externals \<Rightarrow> 'x crypto \<Rightarrow> ConfigT \<Rightarrow> 'x world \<Rightarrow> bool \<Rightarrow> group \<Rightarrow> bool"
  for E C cfg w ends where
  start: "group_reachable E C cfg w ends group_start"
| finish: "group_reachable E C cfg w ends g \<Longrightarrow> t \<notin> fst ` set (gp_finished g) \<Longrightarrow>
     outcome E C cfg w (gp_cancelled g) t r \<Longrightarrow> group_reachable E C cfg w ends (group_finish t r g)"
| cancel: "group_reachable E C cfg w ends g \<Longrightarrow> ends \<Longrightarrow>
     group_reachable E C cfg w ends (g\<lparr>gp_cancelled := True\<rparr>)"

text \<open>\<open>Wait\<close> returns when all goroutines have.\<close>

definition group_Wait :: "group \<Rightarrow> go_error option option" where
  "group_Wait g =
     (if list_all (\<lambda>t. t \<in> fst ` set (gp_finished g)) [HealthTask, MetricsTask, RelayTask]
      then Some (gp_err g) else None)"

definition Run :: "go_error option \<Rightarrow> group \<Rightarrow> go_error option option" where
  "Run initMetricsErr g =
     (case initMetricsErr of
        Some err \<Rightarrow> Some (Some (Errorf ''init metrics: %w'' [] (Some err)))
      | None \<Rightarrow> group_Wait g)"

text \<open>\<open>run\<close> of \<open>cmd/ohttp-relay/main.go\<close> and the exit code of \<open>main\<close>.\<close>

definition main_run ::
  "(rune \<Rightarrow> rune) \<Rightarrow> flag_values \<Rightarrow> (string \<Rightarrow> string) \<Rightarrow> go_error option \<Rightarrow> group \<Rightarrow> go_error option option" where
  "main_run lc fl getenv initMetricsErr g =
     (case Load lc fl getenv of
        Inl err \<Rightarrow> Some (Some (Errorf ''failed to load config: %w'' [] (Some err)))
      | Inr cfg \<Rightarrow> Run initMetricsErr g)"

definition main_exit :: "go_error option \<Rightarrow> int" where
  "main_exit r = (case r of Some err \<Rightarrow> 1 | None \<Rightarrow> 0)"


section \<open>Properties\<close>

lemma group_finish_fields [simp]:
  "gp_finished (group_finish t r g) = gp_finished g @ [(t, r)]"
  "gp_err (group_finish t r g) = (if gp_err g = None then r else gp_err g)"
  "gp_cancelled (group_finish t r g) = (gp_cancelled g \<or> r \<noteq> None \<and> gp_err g = None)"
  by (auto simp: group_finish_def Let_def)

definition first_error :: "go_error option list \<Rightarrow> go_error option" where
  "first_error rs = (case filter (\<lambda>r. r \<noteq> None) rs of [] \<Rightarrow> None | r # _ \<Rightarrow> r)"

lemma first_error_append: "first_error (rs @ [r]) = (if first_error rs = None then r else first_error rs)"
  by (induction rs) (auto simp: first_error_def)

lemma first_error_None: "first_error rs = None \<longleftrightarrow> list_all (\<lambda>r. r = None) rs"
  by (induction rs) (auto simp: first_error_def)

text \<open>What holds of every state of the group.\<close>

definition group_ok :: "bool \<Rightarrow> group \<Rightarrow> bool" where
  "group_ok ends g \<longleftrightarrow>
     gp_err g = first_error (map snd (gp_finished g)) \<and> distinct (map fst (gp_finished g))
     \<and> (gp_err g \<noteq> None \<longrightarrow> gp_cancelled g) \<and> (gp_cancelled g \<longrightarrow> ends \<or> gp_err g \<noteq> None)
     \<and> ((MetricsTask, None) \<in> set (gp_finished g) \<longrightarrow> gp_cancelled g)"

lemma metrics_outcome_nil: "outcome E C cfg w cancelled MetricsTask None \<Longrightarrow> cancelled"
  by (erule outcome_metrics) (auto simp: runMetricsServer_def split: metrics_event.splits option.splits)

lemma group_invariant: "group_reachable E C cfg w ends g \<Longrightarrow> group_ok ends g"
proof (induction rule: group_reachable.induct)
  case (finish g t r)
  then show ?case
    by (auto simp: group_ok_def first_error_append dest: metrics_outcome_nil)
qed (auto simp: group_ok_def group_start_def first_error_def)

text \<open>
  What \<open>Run\<close> returns. Once all three servers have returned, it is the error of the
  server that failed first in the order of finishing, and no error exactly when no server
  failed; every failure cancels the context the others watch.
\<close>

lemma Run_first_error:
  assumes "group_reachable E C cfg w ends g" and "Run None g = Some r"
  shows "r = first_error (map snd (gp_finished g))
     \<and> (r = None \<longleftrightarrow> (\<forall>f \<in> set (gp_finished g). snd f = None)) \<and> (r \<noteq> None \<longrightarrow> gp_cancelled g)"
proof -
  have ok: "group_ok ends g" by (rule group_invariant [OF assms(1)])
  have r: "r = gp_err g" using assms(2) by (simp add: Run_def group_Wait_def split: if_splits)
  have "r = first_error (map snd (gp_finished g))" using ok r by (simp add: group_ok_def)
  moreover from this have "r = None \<longleftrightarrow> (\<forall>f \<in> set (gp_finished g). snd f = None)"
    by (simp add: first_error_None list_all_iff)
  moreover have "r \<noteq> None \<longrightarrow> gp_cancelled g" using ok r by (simp add: group_ok_def)
  ultimately show ?thesis by blast
qed

text \<open>A run of the group: the health port is taken, the other two servers shut down.\<close>

definition port_taken :: go_error where
  "port_taken = Errorf ''gRPC server failed to listen - %w'' [] (Some (LibraryError ''address already in use''))"

definition example_group :: group where
  "example_group =
     group_finish RelayTask None (group_finish MetricsTask None (group_finish HealthTask (Some port_taken) group_start))"

lemma example_relay_stops:
  "runRelayServer example_externals example_crypto cfg None [CtxClosed, ServeReturned None] example_world = Some None"
  by (simp add: runRelayServer_def setup_relay_def gateway_sources_def Ping_def NewRedisGatewaySource_def
      NewRedisTrafficMetrics_def example_externals_def example_world_def Start_def build_server_def
      NewExtProcServerRunner_def CreateSelfSignedTLSCertificate_def example_crypto_def Now_def GRPCServer_def
      serve_result_def Let_def)

lemma example_group_reachable:
  "group_reachable example_externals example_crypto cfg example_world ends example_group"
proof -
  let ?R = "group_reachable example_externals example_crypto cfg example_world ends"
  let ?g1 = "group_finish HealthTask (Some port_taken) group_start"
  let ?g2 = "group_finish MetricsTask None ?g1"
  have "outcome example_externals example_crypto cfg example_world (gp_cancelled group_start) HealthTask (Some port_taken)"
    by (rule outcome.health [where listenErr = "Some (LibraryError ''address already in use'')" and evs = "[]"])
       (simp_all add: GRPCServer_def port_taken_def Let_def)
  then have 1: "?R ?g1" by (intro group_reachable.finish group_reachable.start) (simp_all add: group_start_def)
  have "outcome example_externals example_crypto cfg example_world (gp_cancelled ?g1) MetricsTask None"
    by (rule outcome.metrics [where ev = "MetricsCtxDone None"]) (simp_all add: runMetricsServer_def group_start_def)
  then have 2: "?R ?g2" by (rule group_reachable.finish [OF 1, rotated]) (simp add: group_start_def)
  have "outcome example_externals example_crypto cfg example_world (gp_cancelled ?g2) RelayTask None"
    by (rule outcome.relay [OF example_relay_stops]) (simp add: group_start_def)
  then show ?thesis
    unfolding example_group_def by (rule group_reachable.finish [OF 2, rotated]) (simp add: group_start_def)
qed

lemma example_group_waits: "Run None example_group = Some (Some port_taken)"
  by (simp add: Run_def group_Wait_def example_group_def group_start_def)

lemma Run_first_error_example:
  "\<exists>g. Run None g = Some (Some port_taken) \<and> first_error (map snd (gp_finished g)) = Some port_taken \<and> gp_cancelled g"
proof -
  have "Some port_taken = first_error (map snd (gp_finished example_group)) \<and> gp_cancelled example_group"
    using Run_first_error [OF example_group_reachable [of example_config False] example_group_waits] by simp
  with example_group_waits show ?thesis by metis
qed

text \<open>
  C31: the relay command never ends with success. \<open>main\<close> runs the servers on the background
  context, so the context is only ever cancelled by the failure of a server; the metrics server
  returns without error only when the context is cancelled. Hence, when all three have returned,
  one has failed and the exit code is 1; the branch that reports a normal end is not reached.
\<close>

theorem main_never_ends_with_success:
  assumes "Load lc fl getenv = Inr cfg" and "group_reachable E C cfg w False g"
    and "main_run lc fl getenv initErr g = Some r"
  shows "r \<noteq> None \<and> main_exit r = 1"
proof -
  have ok: "group_ok False g" by (rule group_invariant [OF assms(2)])
  have "r \<noteq> None"
  proof (cases initErr)
    case None
    then have r: "r = gp_err g" and "MetricsTask \<in> fst ` set (gp_finished g)"
      using assms(1,3) by (auto simp: main_run_def Run_def group_Wait_def split: if_splits)
    then obtain e where e: "(MetricsTask, e) \<in> set (gp_finished g)" by auto
    show ?thesis
    proof (cases e)
      case (Some err)
      with e have "first_error (map snd (gp_finished g)) \<noteq> None"
        by (auto simp: first_error_None list_all_iff intro!: bexI [of _ "(MetricsTask, Some err)"])
      with ok r show ?thesis by (simp add: group_ok_def)
    next
      case None
      with e ok have "gp_err g \<noteq> None" unfolding group_ok_def by blast
      with r show ?thesis by simp
    qed
  qed (use assms(1,3) in \<open>auto simp: main_run_def Run_def\<close>)
  then show ?thesis by (auto simp: main_exit_def)
qed

text \<open>A command line without flags.\<close>

definition no_flags :: flag_values where
  "no_flags =
     \<lparr>fl_grpc_port = None, fl_grpc_health_port = None, fl_metrics_port = None, fl_metrics_addr = None,
      fl_gateway_urls = None, fl_redis_enable = None, fl_redis_addr = None, fl_redis_password = None,
      fl_redis_db = None, fl_redis_tls = None, fl_timeout = None, fl_max_request_body_size = None, fl_v = None\<rparr>"

lemma no_flags_load: "\<exists>cfg. Load lc no_flags (\<lambda>_. []) = Inr cfg"
proof -
  have "TrimSpace [] = []" by code_simp
  then show ?thesis by (simp add: Load_def no_flags_def flag_or_def parseDomainMap_def)
qed

theorem main_never_ends_with_success_witness:
  "main_run id no_flags (\<lambda>_. []) None example_group = Some (Some port_taken) \<and> main_exit (Some port_taken) = 1"
proof -
  obtain cfg where l: "Load id no_flags (\<lambda>_. []) = Inr cfg" using no_flags_load by blast
  then have m: "main_run id no_flags (\<lambda>_. []) None example_group = Some (Some port_taken)"
    using example_group_waits by (simp add: main_run_def)
  from main_never_ends_with_success [OF l example_group_reachable m] m show ?thesis by blast
qed


section \<open>Failures before serving\<close>

text \<open>
  C32: a relay configured with a Redis that does not answer never serves. The relay server
  returns the error of the ping, whatever its port and its gRPC server would do, and that
  error wraps the error of the client.
\<close>

theorem unreachable_redis_stops_relay:
  assumes "RedisEnable cfg" and "TrimSpace (RedisAddr cfg) \<noteq> []"
    and "fst (Ping E (redis_client_options cfg) (3 * 1000000000) w) = Some e"
  shows "runRelayServer E C cfg listenErr evs w = Some (Some (Errorf ''redis ping failed: %w'' [] (Some e)))
     \<and> errors_Is (Errorf ''redis ping failed: %w'' [] (Some e)) e"
proof -
  obtain w1 where "Ping E (redis_client_options cfg) (3 * 1000000000) w = (Some e, w1)"
    using assms(3) by (metis prod.collapse)
  with assms(1,2) show ?thesis by (simp add: runRelayServer_def setup_relay_def gateway_sources_def Let_def)
qed

theorem unreachable_redis_stops_relay_witness:
  "runRelayServer (example_externals\<lparr>redis_ping := (\<lambda>_ _ x. (Some (LibraryError ''refused''), x))\<rparr>) example_crypto
      example_config None [] example_world
   = Some (Some (Errorf ''redis ping failed: %w'' [] (Some (LibraryError ''refused''))))"
proof -
  let ?E = "example_externals\<lparr>redis_ping := (\<lambda>_ _ x. (Some (LibraryError ''refused''), x))\<rparr>"
  have 1: "RedisEnable example_config" by (simp add: example_config_def)
  have 2: "TrimSpace (RedisAddr example_config) \<noteq> []" by code_simp
  have 3: "fst (Ping ?E (redis_client_options example_config) (3 * 1000000000) example_world) = Some (LibraryError ''refused'')"
    by (simp add: Ping_def)
  from unreachable_redis_stops_relay [OF 1 2 3] show ?thesis by blast
qed


section \<open>Logging and health\<close>

text \<open>The logger the program installs: a level, or none when building it fails.\<close>

datatype logger = DiscardLogger | ZapLogger int | NopLogger

text \<open>The level is an \<open>int8\<close>.\<close>

definition zap_level :: "int \<Rightarrow> int" where
  "zap_level verbosity = sint (word_of_int (-1 * verbosity) :: 8 word)"

definition initLogging :: "go_error option \<Rightarrow> int \<Rightarrow> logger" where
  "initLogging buildErr verbosity =
     (case buildErr of Some err \<Rightarrow> NopLogger | None \<Rightarrow> ZapLogger (zap_level verbosity))"

text \<open>A message at verbosity \<open>v\<close> is logged at level \<open>- v\<close>, when that is at least the level set.\<close>

definition log_enabled :: "logger \<Rightarrow> int \<Rightarrow> bool" where
  "log_enabled l v = (case l of ZapLogger lvl \<Rightarrow> lvl \<le> - v | _ \<Rightarrow> False)"

lemma zap_level_small: "0 \<le> v \<Longrightarrow> v \<le> 128 \<Longrightarrow> zap_level v = - v"
  unfolding zap_level_def by (subst sint_sbintrunc') (simp add: signed_take_bit_int_eq_self)

text \<open>
  The verbosity flag works up to 128. For verbosities from 0 to 128 a message is logged
  exactly when its own verbosity is at most that of the flag.
\<close>

lemma initLogging_levels:
  assumes "0 \<le> v" and "v \<le> 128"
  shows "log_enabled (initLogging None v) m \<longleftrightarrow> m \<le> v"
  using assms by (simp add: log_enabled_def initLogging_def zap_level_small)

lemma initLogging_example:
  "log_enabled (initLogging None logging_DEFAULT) 2 \<and> \<not> log_enabled (initLogging None logging_DEFAULT) logging_VERBOSE"
  using initLogging_levels [of logging_DEFAULT 2] initLogging_levels [of logging_DEFAULT logging_VERBOSE]
  by (simp add: logging_DEFAULT_def logging_VERBOSE_def)

text \<open>The global logger of \<open>internal/ctrl/ctrl.go\<close>, and the application that sets it.\<close>

definition ctrl_Log :: logger where "ctrl_Log = DiscardLogger"

definition SetLogger :: "logger \<Rightarrow> logger \<Rightarrow> logger" where "SetLogger l old = l"

definition FromContext :: "logger \<Rightarrow> logger" where "FromContext current = current"

record AppT =
  app_cfg :: ConfigT
  app_logger :: logger

definition New :: "go_error option \<Rightarrow> ConfigT \<Rightarrow> logger \<Rightarrow> AppT \<times> logger" where
  "New buildErr cfg current =
     (let current = SetLogger (initLogging buildErr (LogVerbosity cfg)) current
      in (\<lparr>app_cfg = cfg, app_logger = current\<rparr>, current))"

lemma New_logs:
  assumes "0 \<le> LogVerbosity cfg" and "LogVerbosity cfg \<le> 128"
  shows "log_enabled (FromContext (snd (New None cfg ctrl_Log))) m \<longleftrightarrow> m \<le> LogVerbosity cfg"
  using initLogging_levels [OF assms] by (simp add: New_def SetLogger_def FromContext_def Let_def)

text \<open>
  Health checks: the service of the application, and the one of \<open>cmd/ohttp-relay/health.go\<close>,
  which no code registers.
\<close>

datatype health_status = SERVING

definition health_Check :: "string \<Rightarrow> health_status result" where
  "health_Check service = Inr SERVING"

definition health_Watch :: "(health_status \<Rightarrow> 'x \<Rightarrow> go_error option \<times> 'x) \<Rightarrow> 'x \<Rightarrow> go_error option \<times> 'x" where
  "health_Watch send x = send SERVING x"

definition cmd_health_Check :: "string \<Rightarrow> health_status result" where
  "cmd_health_Check service = Inr SERVING"

text \<open>\<open>serviceName\<close> is the name in the generated descriptor of the processor service.\<close>

definition cmd_health_List :: "string \<Rightarrow> (string \<times> health_status) list result" where
  "cmd_health_List serviceName =
     (case cmd_health_Check serviceName of
        Inl err \<Rightarrow> Inl err
      | Inr serviceHealthResponse \<Rightarrow> Inr [(serviceName, serviceHealthResponse)])"

definition cmd_health_Watch :: "string \<Rightarrow> go_error option" where
  "cmd_health_Watch service = status_Errorf Unimplemented ''Watch is not implemented''"

lemma health_always_serving:
  "health_Check service = Inr SERVING" "cmd_health_List name = Inr [(name, SERVING)]"
  "cmd_health_Watch service = Some (StatusError Unimplemented ''Watch is not implemented'' [])"
  by (simp_all add: health_Check_def cmd_health_List_def cmd_health_Check_def cmd_health_Watch_def status_Errorf_def)

end
