(* ===== verification/System.thy ===== *)
theory System
  imports Wiring
begin

text \<open>
  Many streams at once. The gRPC server runs \<open>Process\<close> once per stream, each in a goroutine of
  its own, over the same metrics, gateways and Redis. A state of the system holds the open
  streams and the shared world; a step opens a stream, lets one open stream take a turn of its
  loop, or lets it return and run its deferred functions. Turns of different streams come in
  any order; \<open>Threads\<close> refines this view to single calls. \<open>sy_returned\<close> and \<open>sy_failed\<close> count, for the specification, the streams that
  have returned and those that returned a gRPC error.
\<close>

section \<open>Opening and closing a stream\<close>

definition open_stream :: "'x externals \<Rightarrow> 'x world \<Rightarrow> instant \<times> 'x world" where
  "open_stream E w = Now E (with_metrics (\<lambda>l. l @ [AddInt64 ActiveRequests 1 []]) w)"

text \<open>The deferred functions.\<close>

definition close_stream :: "'x externals \<Rightarrow> instant \<Rightarrow> proc \<Rightarrow> 'x world \<Rightarrow> 'x world" where
  "close_stream E start p w =
     (case Now E w of
        (t, w) \<Rightarrow>
          let httpMethod = (if st_httpMethod (pr_st p) = [] then ''UNKNOWN'' else st_httpMethod (pr_st p));
              w = with_metrics (RecordRequest httpMethod (status_class (pr_statusCode p))
                    (t - start) (pr_reqSize p) (pr_respSize p)) w
          in with_metrics (\<lambda>l. l @ [AddInt64 ActiveRequests (-1) []]) w)"

lemma Process_open_close:
  "Process E send s evs w =
     (case open_stream E w of
        (start, w) \<Rightarrow>
          (case process_loop E send s evs proc_init w of
             (None, p, w) \<Rightarrow> (None, p, w)
           | (Some r, p, w) \<Rightarrow> (Some r, p, close_stream E start p w)))"
  by (simp add: Process_def open_stream_def close_stream_def Let_def split: prod.split option.split)

lemma open_stream_frame:
  assumes "open_stream E w = (start, w')"
  shows "outbound w' = outbound w" "counter_value i (metrics_log w') =
    counter_value i (metrics_log w) + (if i = ActiveRequests then 1 else 0)"
  using Now_case [OF assms [unfolded open_stream_def]] by (simp_all add: frame)

lemma close_stream_frame:
  "outbound (close_stream E start p w) = outbound w"
  "counter_value ActiveRequests (metrics_log (close_stream E start p w)) = counter_value ActiveRequests (metrics_log w) - 1"
  "counter_value RequestsTotal (metrics_log (close_stream E start p w)) = counter_value RequestsTotal (metrics_log w) + 1"
  "counter_value ErrorsTotal (metrics_log (close_stream E start p w)) = counter_value ErrorsTotal (metrics_log w)"
  by (cases "Now E w"; simp add: close_stream_def Let_def frame Now_case)+


section \<open>Steps\<close>

record 'x system =
  sy_streams :: "nat \<rightharpoonup> instant \<times> proc"
  sy_world :: "'x world"
  sy_returned :: nat
  sy_failed :: nat

text \<open>\<open>send i\<close> is the \<open>Send\<close> of stream \<open>i\<close>; \<open>ok\<close> restricts the events of the streams.\<close>

inductive system_reachable ::
  "'x externals \<Rightarrow> (nat \<Rightarrow> ProcessingResponse \<Rightarrow> 'x \<Rightarrow> go_error option \<times> 'x) \<Rightarrow> 'x Server \<Rightarrow>
   (stream_event \<Rightarrow> bool) \<Rightarrow> 'x world \<Rightarrow> 'x system \<Rightarrow> bool"
  for E send s ok w0 where
  start: "system_reachable E send s ok w0 \<lparr>sy_streams = Map.empty, sy_world = w0, sy_returned = 0, sy_failed = 0\<rparr>"
| opens: "system_reachable E send s ok w0 sy \<Longrightarrow> sy_streams sy i = None \<Longrightarrow>
     open_stream E (sy_world sy) = (start, w') \<Longrightarrow>
     system_reachable E send s ok w0 (sy\<lparr>sy_streams := (sy_streams sy)(i \<mapsto> (start, proc_init)), sy_world := w'\<rparr>)"
| turns: "system_reachable E send s ok w0 sy \<Longrightarrow> sy_streams sy i = Some (start, p) \<Longrightarrow> ok ev \<Longrightarrow>
     process_step E (send i) s ev p (sy_world sy) = (Continue, p', w') \<Longrightarrow>
     system_reachable E send s ok w0 (sy\<lparr>sy_streams := (sy_streams sy)(i \<mapsto> (start, p')), sy_world := w'\<rparr>)"
| returns: "system_reachable E send s ok w0 sy \<Longrightarrow> sy_streams sy i = Some (start, p) \<Longrightarrow> ok ev \<Longrightarrow>
     process_step E (send i) s ev p (sy_world sy) = (Return r, p', w') \<Longrightarrow>
     system_reachable E send s ok w0
       (sy\<lparr>sy_streams := (sy_streams sy)(i := None), sy_world := close_stream E start p' w',
          sy_returned := sy_returned sy + 1, sy_failed := sy_failed sy + (if counted (Return r) = 1 then 1 else 0)\<rparr>)"


section \<open>Invariants\<close>

text \<open>The counters against the streams, from a world \<open>w0\<close>.\<close>

definition books :: "'x world \<Rightarrow> 'x system \<Rightarrow> bool" where
  "books w0 sy \<longleftrightarrow>
     finite (dom (sy_streams sy))
     \<and> counter_value ActiveRequests (metrics_log (sy_world sy)) =
         counter_value ActiveRequests (metrics_log w0) + of_nat (card (dom (sy_streams sy)))
     \<and> counter_value RequestsTotal (metrics_log (sy_world sy)) =
         counter_value RequestsTotal (metrics_log w0) + of_nat (sy_returned sy)
     \<and> counter_value ErrorsTotal (metrics_log (sy_world sy)) =
         counter_value ErrorsTotal (metrics_log w0) + of_nat (sy_failed sy)"

lemma counted_cases: "counted c = 0 \<or> counted c = 1"
  by (simp add: counted_def split: control.split option.split go_error.split)

lemma card_dom_close: "finite (dom m) \<Longrightarrow> m i = Some v \<Longrightarrow> card (dom m) = Suc (card (dom (m(i := None))))"
  by (metis card_Suc_Diff1 domI dom_fun_upd)

context stream_server
begin

lemma process_step_counters:
  assumes "process_step E send (NewServer relay keyConfig mx (Some recordTraffic)) ev p w = (c, p', w')" and "ctx_ok ev"
  shows "counter_value ActiveRequests (metrics_log w') = counter_value ActiveRequests (metrics_log w)"
    "counter_value RequestsTotal (metrics_log w') = counter_value RequestsTotal (metrics_log w)"
    "counter_value ErrorsTotal (metrics_log w') = counter_value ErrorsTotal (metrics_log w) + counted c"
  using process_step_effect(2) [OF assms(1), of "\<lambda>_. True"] assms(2)
  by (simp_all add: stream_counters_def add_errors_def)

lemma system_books:
  "system_reachable E send (NewServer relay keyConfig mx (Some recordTraffic)) ctx_ok w0 sy \<Longrightarrow> books w0 sy"
proof (induction rule: system_reachable.induct)
  case (opens sy i start w')
  have "card (dom ((sy_streams sy)(i \<mapsto> (start, proc_init)))) = Suc (card (dom (sy_streams sy)))"
    using opens.IH opens.hyps(2) by (simp add: books_def domIff)
  then show ?case
    using opens.IH open_stream_frame(2) [OF opens.hyps(3)] by (simp add: books_def)
next
  case (turns sy i start p ev p' w')
  have "dom ((sy_streams sy)(i \<mapsto> (start, p'))) = dom (sy_streams sy)" using turns.hyps(2) by auto
  then show ?case
    using turns.IH process_step_counters [OF turns.hyps(4,3)] by (simp add: books_def counted_def)
next
  case (returns sy i start p ev r p' w')
  have "card (dom (sy_streams sy)) = Suc (card (dom ((sy_streams sy)(i := None))))"
    using returns.IH returns.hyps(2) by (intro card_dom_close) (simp_all add: books_def)
  then show ?case
    using returns.IH process_step_counters [OF returns.hyps(4,3)] counted_cases [of "Return r"]
    by (auto simp: books_def close_stream_frame)
qed (simp add: books_def)

end

definition system_clean :: "'x Server \<Rightarrow> 'x world \<Rightarrow> 'x system \<Rightarrow> bool" where
  "system_clean s w0 sy \<longleftrightarrow>
     (\<forall>i start p. sy_streams sy i = Some (start, p) \<longrightarrow> body_bounded s (pr_st p))
     \<and> (\<exists>reqs. outbound (sy_world sy) = outbound w0 @ reqs
          \<and> list_all (clean_request (\<lambda>b. int (length b) \<le> sint (sv_maxRequestBodySize s))) reqs)"

lemma system_clean_step:
  assumes "system_clean s w0 sy" and "body_bounded s (pr_st p)"
    and "\<exists>reqs. outbound w = outbound (sy_world sy) @ reqs
          \<and> list_all (clean_request (\<lambda>b. int (length b) \<le> sint (sv_maxRequestBodySize s))) reqs"
  shows "system_clean s w0 (sy\<lparr>sy_streams := (sy_streams sy)(i \<mapsto> (start, p)), sy_world := w\<rparr>)"
    "system_clean s w0 (sy\<lparr>sy_streams := (sy_streams sy)(i := None), sy_world := w, sy_returned := n, sy_failed := m\<rparr>)"
proof -
  obtain r1 where "outbound (sy_world sy) = outbound w0 @ r1"
    "list_all (clean_request (\<lambda>b. int (length b) \<le> sint (sv_maxRequestBodySize s))) r1"
    using assms(1) by (auto simp: system_clean_def)
  moreover obtain r2 where "outbound w = outbound (sy_world sy) @ r2"
    "list_all (clean_request (\<lambda>b. int (length b) \<le> sint (sv_maxRequestBodySize s))) r2"
    using assms(3) by blast
  ultimately have "\<exists>reqs. outbound w = outbound w0 @ reqs
      \<and> list_all (clean_request (\<lambda>b. int (length b) \<le> sint (sv_maxRequestBodySize s))) reqs"
    by (intro exI [of _ "r1 @ r2"]) simp
  with assms(1,2) show
    "system_clean s w0 (sy\<lparr>sy_streams := (sy_streams sy)(i \<mapsto> (start, p)), sy_world := w\<rparr>)"
    "system_clean s w0 (sy\<lparr>sy_streams := (sy_streams sy)(i := None), sy_world := w, sy_returned := n, sy_failed := m\<rparr>)"
    by (auto simp: system_clean_def)
qed

context stream_server
begin

lemma process_step_clean:
  assumes "process_step E send (NewServer relay keyConfig mx (Some recordTraffic)) ev p w = (c, p', w')"
    and "body_bounded (NewServer relay keyConfig mx (Some recordTraffic)) (pr_st p)" and "0 \<le> sint mx"
    and "size_ok (NewServer relay keyConfig mx (Some recordTraffic)) ev"
  shows "body_bounded (NewServer relay keyConfig mx (Some recordTraffic)) (pr_st p')"
    "\<exists>reqs. outbound w' = outbound w @ reqs \<and> list_all (clean_request (\<lambda>b. int (length b) \<le> sint mx)) reqs"
proof -
  show b: "body_bounded (NewServer relay keyConfig mx (Some recordTraffic)) (pr_st p')"
    using process_step_body_bounded [OF assms(1,2)] assms(3,4) by (simp add: NewServer_def)
  then have "int (length (st_body (pr_st p'))) \<le> sint mx" by (simp add: body_bounded_def NewServer_def)
  then show "\<exists>reqs. outbound w' = outbound w @ reqs \<and> list_all (clean_request (\<lambda>b. int (length b) \<le> sint mx)) reqs"
    using process_step_effect(1) [where fits = "\<lambda>b. int (length b) \<le> sint mx", OF assms(1)] by blast
qed

lemma system_requests:
  assumes "system_reachable E send (NewServer relay keyConfig mx (Some recordTraffic))
      (size_ok (NewServer relay keyConfig mx (Some recordTraffic))) w0 sy" and "0 \<le> sint mx"
  shows "system_clean (NewServer relay keyConfig mx (Some recordTraffic)) w0 sy"
  using assms(1)
proof (induction rule: system_reachable.induct)
  case start
  show ?case by (simp add: system_clean_def)
next
  case (opens sy i start w')
  have "body_bounded (NewServer relay keyConfig mx (Some recordTraffic)) (pr_st proc_init)"
    using assms(2) by (simp add: body_bounded_def proc_init_def NewServer_def)
  then show ?case
    using system_clean_step(1) [OF opens.IH] open_stream_frame(1) [OF opens.hyps(3)] by simp
next
  case (turns sy i start p ev p' w')
  have b: "body_bounded (NewServer relay keyConfig mx (Some recordTraffic)) (pr_st p)"
    using turns.IH turns.hyps(2) by (simp add: system_clean_def)
  show ?case
    using system_clean_step(1) [OF turns.IH] process_step_clean [OF turns.hyps(4) b assms(2) turns.hyps(3)]
    by (simp add: NewServer_def)
next
  case (returns sy i start p ev r p' w')
  have b: "body_bounded (NewServer relay keyConfig mx (Some recordTraffic)) (pr_st p)"
    using returns.IH returns.hyps(2) by (simp add: system_clean_def)
  show ?case
    using system_clean_step(2) [OF returns.IH] process_step_clean [OF returns.hyps(4) b assms(2) returns.hyps(3)]
    by (simp add: NewServer_def close_stream_frame)
qed

end

text \<open>A stream on its own: what \<open>Process\<close> does is a run of the system.\<close>

lemma process_loop_in_system:
  assumes "system_reachable E send s ok w0 sy" and "sy_streams sy = [i \<mapsto> (start, p)]" and "list_all ok evs"
    and "process_loop E (send i) s evs p (sy_world sy) = (Some r, p', w')"
  shows "\<exists>sy'. system_reachable E send s ok w0 sy' \<and> sy_streams sy' = Map.empty
     \<and> sy_world sy' = close_stream E start p' w' \<and> sy_returned sy' = Suc (sy_returned sy)"
  using assms
proof (induction evs arbitrary: sy p)
  case (Cons ev evs)
  obtain c p1 w1 where st: "process_step E (send i) s ev p (sy_world sy) = (c, p1, w1)" by (metis prod_cases3)
  have ok: "ok ev" "list_all ok evs" and at: "sy_streams sy i = Some (start, p)" using Cons.prems by simp_all
  show ?case
  proof (cases c)
    case Continue
    let ?sy = "sy\<lparr>sy_streams := (sy_streams sy)(i \<mapsto> (start, p1)), sy_world := w1\<rparr>"
    have "system_reachable E send s ok w0 ?sy"
      using system_reachable.turns [OF Cons.prems(1) at ok(1)] st Continue by simp
    moreover have "process_loop E (send i) s evs p1 (sy_world ?sy) = (Some r, p', w')"
      using Cons.prems(4) st Continue by simp
    moreover have "sy_streams ?sy = [i \<mapsto> (start, p1)]" using Cons.prems(2) by (simp add: fun_eq_iff)
    ultimately show ?thesis using Cons.IH [of ?sy p1] ok(2) by simp
  next
    case (Return r1)
    then have "p' = p1" "w' = w1" using Cons.prems(4) st by simp_all
    with system_reachable.returns [OF Cons.prems(1) at ok(1)] st Return Cons.prems(2) show ?thesis
      by (intro exI) auto
  qed
qed simp

lemma Process_in_system:
  assumes "Process E (send i) s evs w0 = (Some r, p, w')" and "list_all ok evs"
  shows "\<exists>sy. system_reachable E send s ok w0 sy \<and> sy_world sy = w' \<and> sy_streams sy = Map.empty \<and> sy_returned sy = 1"
proof -
  obtain start w1 where o: "open_stream E w0 = (start, w1)" by fastforce
  let ?s0 = "\<lparr>sy_streams = Map.empty, sy_world = w0, sy_returned = 0, sy_failed = 0\<rparr>"
  let ?s1 = "?s0\<lparr>sy_streams := (sy_streams ?s0)(i \<mapsto> (start, proc_init)), sy_world := w1\<rparr>"
  obtain w2 where l: "process_loop E (send i) s evs proc_init w1 = (Some r, p, w2)" and w': "w' = close_stream E start p w2"
    using assms(1) o by (auto simp: Process_open_close split: prod.splits option.splits)
  have "system_reachable E send s ok w0 ?s1"
    by (rule system_reachable.opens [OF system_reachable.start]) (simp_all add: o)
  from process_loop_in_system [OF this _ assms(2), of i start proc_init r p w2] l w' show ?thesis by auto
qed


section \<open>Properties\<close>

text \<open>
  The gauge of active requests is exact under any interleaving. For a relay set up from
  any configuration and any number of streams taking turns in any order, the gauge is at every
  moment its initial value plus the number of open streams, the request counter has risen
  by the number of streams that returned and the error counter by the number that returned a
  gRPC error.
\<close>

lemma system_metrics_exact:
  assumes "setup_relay E cfg w0 = (Inr runner, w1)"
    and "system_reachable E send (runner_handler runner) ctx_ok w sy"
  shows "finite (dom (sy_streams sy))
     \<and> counter_value ActiveRequests (metrics_log (sy_world sy)) =
         counter_value ActiveRequests (metrics_log w) + of_nat (card (dom (sy_streams sy)))
     \<and> counter_value RequestsTotal (metrics_log (sy_world sy)) =
         counter_value RequestsTotal (metrics_log w) + of_nat (sy_returned sy)
     \<and> counter_value ErrorsTotal (metrics_log (sy_world sy)) =
         counter_value ErrorsTotal (metrics_log w) + of_nat (sy_failed sy)"
  using setup_relay_wired [OF assms(1)] stream_server.system_books assms(2) unfolding books_def by metis

text \<open>Two streams are open and one of them has taken a turn.\<close>

lemma two_streams:
  "\<exists>sy. system_reachable E send s ok w sy \<and> dom (sy_streams sy) = {1, 2} \<and> sy_returned sy = 0"
proof -
  let ?s0 = "\<lparr>sy_streams = Map.empty, sy_world = w, sy_returned = 0, sy_failed = 0\<rparr>"
  obtain t1 w1 where o1: "open_stream E w = (t1, w1)" by fastforce
  let ?s1 = "?s0\<lparr>sy_streams := (sy_streams ?s0)(1 \<mapsto> (t1, proc_init)), sy_world := w1\<rparr>"
  obtain t2 w2 where o2: "open_stream E w1 = (t2, w2)" by fastforce
  let ?s2 = "?s1\<lparr>sy_streams := (sy_streams ?s1)(2 \<mapsto> (t2, proc_init)), sy_world := w2\<rparr>"
  have "system_reachable E send s ok w ?s1"
    by (rule system_reachable.opens [OF system_reachable.start]) (simp_all add: o1)
  then have "system_reachable E send s ok w ?s2"
    by (rule system_reachable.opens) (simp_all add: o2)
  then show ?thesis by (intro exI [of _ ?s2]) auto
qed

lemma system_metrics_exact_example:
  "\<exists>runner w1 sy. setup_relay example_externals example_config example_world = (Inr runner, w1)
     \<and> system_reachable example_externals (\<lambda>_. example_send) (runner_handler runner) ctx_ok w1 sy
     \<and> counter_value ActiveRequests (metrics_log (sy_world sy)) = counter_value ActiveRequests (metrics_log w1) + 2"
proof -
  obtain runner w1 where s: "setup_relay example_externals example_config example_world = (Inr runner, w1)"
    using example_setup by blast
  obtain sy where r: "system_reachable example_externals (\<lambda>_. example_send) (runner_handler runner) ctx_ok w1 sy"
    and d: "dom (sy_streams sy) = {1, 2}" using two_streams by blast
  have "card (dom (sy_streams sy)) = 2" using d by simp
  with system_metrics_exact [OF s r] s r show ?thesis by auto
qed

text \<open>
  The streams of a relay share nothing but clean requests. Under any interleaving, for a
  limit that is not negative, every request any stream has caused is clean and its body within
  the limit, and no open stream holds a body above the limit.
\<close>

lemma system_requests_clean:
  assumes "setup_relay E cfg w0 = (Inr runner, w1)" and "0 \<le> sint (MaxRequestBodySize cfg)"
    and "system_reachable E send (runner_handler runner) (size_ok (runner_handler runner)) w sy"
  shows "(\<exists>reqs. outbound (sy_world sy) = outbound w @ reqs
      \<and> list_all (clean_request (\<lambda>b. int (length b) \<le> sint (MaxRequestBodySize cfg))) reqs)
    \<and> (\<forall>i start p. sy_streams sy i = Some (start, p) \<longrightarrow>
         int (length (st_body (pr_st p))) \<le> sint (MaxRequestBodySize cfg))"
proof -
  obtain relay kc rec where w: "stream_server relay kc rec"
    and h: "runner_handler runner = NewServer relay kc (MaxRequestBodySize cfg) (Some rec)"
    using setup_relay_wired [OF assms(1)] by blast
  have "system_clean (runner_handler runner) w sy"
    using stream_server.system_requests [OF w] assms(2,3) unfolding h by blast
  then show ?thesis by (simp add: system_clean_def body_bounded_def h NewServer_def)
qed

lemma system_requests_clean_example:
  "\<exists>runner w1 sy reqs. setup_relay example_externals example_config example_world = (Inr runner, w1)
     \<and> system_reachable example_externals (\<lambda>_. example_send) (runner_handler runner)
         (size_ok (runner_handler runner)) w1 sy
     \<and> sy_returned sy = 1 \<and> outbound (sy_world sy) = outbound w1 @ reqs \<and> list_all (clean_request (\<lambda>b. int (length b) \<le> 10)) reqs"
proof -
  let ?evs = "[example_headers ''POST'' [], body_event ''opaque'' True, Recv (Inl EOF)]"
  obtain runner w1 where s: "setup_relay example_externals example_config example_world = (Inr runner, w1)"
    using example_setup by blast
  have mx: "MaxRequestBodySize example_config = 10" by (simp add: example_config_def)
  have "sv_maxRequestBodySize (runner_handler runner) = 10"
    using setup_relay_wired [OF s] mx by (metis NewServer_def Server.select_convs(4))
  then have ok: "list_all (size_ok (runner_handler runner)) ?evs"
    by (simp add: size_ok_def example_headers_def body_event_def)
  have "list_ex ends_stream ?evs" by (simp add: ends_stream_def)
  then obtain r p w' where "Process example_externals example_send (runner_handler runner) ?evs w1 = (Some r, p, w')"
    by (rule Process_some)
  from Process_in_system [where send = "\<lambda>_. example_send", OF this ok] obtain sy where
    y: "system_reachable example_externals (\<lambda>_. example_send) (runner_handler runner) (size_ok (runner_handler runner)) w1 sy"
    and "sy_returned sy = 1" by blast
  with system_requests_clean [OF s _ y] mx s y show ?thesis by auto
qed

end
