(* ===== verification/Programs.thy ===== *)
theory Programs
  imports Wiring
begin

text \<open>
  The stream handler as a program that stops at every call it makes. Goroutines of the gRPC
  server run \<open>Process\<close> at the same time, so between any two calls of one stream (reading the
  clock, a request to a gateway, a Redis command, a call on an instrument, sending a response)
  other streams may act. A \<open>prog\<close> is the handler cut at these points: the next call and what
  to do with its answer. Everything else a stream touches is its own: \<open>streamState\<close> and the
  local variables of \<open>Process\<close>. Each operation below follows the operation of the same name
  in the sequential model call by call, and \<open>run\<close>, which performs the calls one after the
  other, gives back exactly the sequential model (\<open>server_program.Process_run\<close>).
\<close>

section \<open>Programs\<close>

datatype 'a prog =
    Ret (returned: 'a)
  | Clock "instant \<Rightarrow> 'a prog"
  | Fetch duration http_request "do_result \<Rightarrow> 'a prog"
  | Lookup redis_options duration string string "string result \<Rightarrow> 'a prog"
  | Exec redis_options "redis_cmd list" "go_error option \<Rightarrow> 'a prog"
  | Emit metric_op "'a prog"
  | Reply ProcessingResponse "go_error option \<Rightarrow> 'a prog"

primrec andThen :: "'a prog \<Rightarrow> ('a \<Rightarrow> 'b prog) \<Rightarrow> 'b prog" where
  "andThen (Ret a) f = f a"
| "andThen (Clock k) f = Clock (\<lambda>t. andThen (k t) f)"
| "andThen (Fetch t req k) f = Fetch t req (\<lambda>r. andThen (k r) f)"
| "andThen (Lookup rdb t key field k) f = Lookup rdb t key field (\<lambda>r. andThen (k r) f)"
| "andThen (Exec rdb cmds k) f = Exec rdb cmds (\<lambda>r. andThen (k r) f)"
| "andThen (Emit op k) f = Emit op (andThen k f)"
| "andThen (Reply resp k) f = Reply resp (\<lambda>r. andThen (k r) f)"

definition emit_all :: "metric_log \<Rightarrow> 'a prog \<Rightarrow> 'a prog" where
  "emit_all ops k = foldr Emit ops k"

type_synonym 'x SendFn = "ProcessingResponse \<Rightarrow> 'x \<Rightarrow> go_error option \<times> 'x"

definition Send :: "'x SendFn \<Rightarrow> ProcessingResponse \<Rightarrow> 'x world \<Rightarrow> go_error option \<times> 'x world" where
  "Send send resp w = (case send resp (env w) of (r, x) \<Rightarrow> (r, w\<lparr>env := x\<rparr>))"

text \<open>All calls of a program, one after the other.\<close>

primrec run :: "'x externals \<Rightarrow> 'x SendFn \<Rightarrow> 'a prog \<Rightarrow> 'x world \<Rightarrow> 'a \<times> 'x world" where
  "run E send (Ret a) w = (a, w)"
| "run E send (Clock k) w = (case Now E w of (t, w) \<Rightarrow> run E send (k t) w)"
| "run E send (Fetch t req k) w = (case Do E t req w of (r, w) \<Rightarrow> run E send (k r) w)"
| "run E send (Lookup rdb t key field k) w = (case HGet E rdb t key field w of (r, w) \<Rightarrow> run E send (k r) w)"
| "run E send (Exec rdb cmds k) w = (case Pipeline_Exec E rdb cmds w of (r, w) \<Rightarrow> run E send (k r) w)"
| "run E send (Emit op k) w = run E send k (with_metrics (\<lambda>l. l @ [op]) w)"
| "run E send (Reply resp k) w = (case Send send resp w of (r, w) \<Rightarrow> run E send (k r) w)"

lemma run_andThen:
  "run E send (andThen m f) w = (case run E send m w of (a, w) \<Rightarrow> run E send (f a) w)"
  by (induction m arbitrary: w) (simp_all split: prod.split)

lemma with_metrics_compose: "with_metrics g (with_metrics f w) = with_metrics (g \<circ> f) w"
  by (simp add: with_metrics_def)

lemma run_emit_all: "run E send (emit_all ops k) w = run E send k (with_metrics (\<lambda>l. l @ ops) w)"
  by (induction ops arbitrary: w) (simp_all add: emit_all_def with_metrics_compose comp_def, simp add: with_metrics_def)

text \<open>The recording functions as the calls they make.\<close>

lemma run_record:
  "run E send (emit_all (RecordGatewayRequest c d []) k) w = run E send k (with_metrics (RecordGatewayRequest c d) w)"
  "run E send (emit_all (RecordError e []) k) w = run E send k (with_metrics (RecordError e) w)"
  "run E send (emit_all (RecordTrafficIO h i out []) k) w = run E send k (with_metrics (RecordTrafficIO h i out) w)"
  "run E send (emit_all (RecordRequest m cat d q r []) k) w = run E send k (with_metrics (RecordRequest m cat d q r) w)"
  by (simp_all add: run_emit_all RecordGatewayRequest_def RecordError_def RecordTrafficIO_def RecordRequest_def
      with_metrics_def Let_def)


section \<open>Sources, relayer and recorder\<close>

definition StaticMapURLSource_prog :: "(string \<rightharpoonup> string) \<Rightarrow> string \<Rightarrow> string result prog" where
  "StaticMapURLSource_prog source host = Ret (Inr (map_get source host))"

fun ChainSources_prog :: "(string \<Rightarrow> string result prog) list \<Rightarrow> string \<Rightarrow> string result prog" where
  "ChainSources_prog [] host = Ret (Inr [])"
| "ChainSources_prog (s # sources) host =
     andThen (s host) (\<lambda>r. case r of
        Inl err \<Rightarrow> Ret (Inl err)
      | Inr gw \<Rightarrow> if gw \<noteq> [] then Ret (Inr gw) else ChainSources_prog sources host)"

definition RedisTargetURL_prog :: "'x externals \<Rightarrow> RedisGatewaySource \<Rightarrow> string \<Rightarrow> string result prog" where
  "RedisTargetURL_prog E r host =
     (let h = ToLower (uni_lower E) (TrimSpace host)
      in Lookup (rgs_rdb r) (rgs_timeout r) h ''url'' (\<lambda>v. case v of
           Inr v \<Rightarrow> Ret (Inr v)
         | Inl err \<Rightarrow> if \<not> errors_Is err RedisNil then Ret (Inl err) else Ret (Inr [])))"

definition NewHttpKeyConfigSource_prog ::
  "'x externals \<Rightarrow> duration \<Rightarrow> (string \<Rightarrow> string result prog) \<Rightarrow> string \<Rightarrow> bytes result prog" where
  "NewHttpKeyConfigSource_prog E h gwSource host =
     andThen (gwSource host) (\<lambda>u. case u of
        Inl err \<Rightarrow> Ret (Inl (Errorf ''get gateway url for host %q: %w'' [host] (Some err)))
      | Inr targetURL \<Rightarrow>
          if targetURL = [] then Ret (Inl (Errorf ''no gateway url for host %q'' [host] None))
          else
            let gatewayURL = targetURL @ ohttpConfigsPath
            in case NewRequest E ''GET'' gatewayURL [] of
                 Inl err \<Rightarrow> Ret (Inl err)
               | Inr req \<Rightarrow>
                   let hd = Header_Set (rq_Header req) ''Accept'' contentTypeOHTTPKeys;
                       hd = Header_Set hd ''User-Agent'' ''ohttp-relay'';
                       req = req\<lparr>rq_Header := hd\<rparr>
                   in Fetch h req (\<lambda>r. case r of
                        DoErr err _ \<Rightarrow> Ret (Inl err)
                      | DoOk rsp \<Rightarrow>
                          if rs_StatusCode rsp \<noteq> 200
                          then Ret (Inl (Errorf ''unexpected status %d'' [fmt_d (rs_StatusCode rsp)] None))
                          else Ret (Inr (fst (ReadAll rsp)))))"

definition Relay_prog ::
  "'x externals \<Rightarrow> duration \<Rightarrow> (string \<Rightarrow> string result prog) \<Rightarrow>
   string \<Rightarrow> bytes \<Rightarrow> string \<Rightarrow> string \<Rightarrow> http_response result prog" where
  "Relay_prog E client gatewaySource host body contentType meth =
     Clock (\<lambda>start. andThen (gatewaySource host) (\<lambda>u. case u of
        Inl err \<Rightarrow> Ret (Inl (Errorf ''get gateway mapping for host %q: %w'' [host] (Some err)))
      | Inr gwURL \<Rightarrow>
          if gwURL = [] then Ret (Inl (Errorf ''host  %q: %w'' [host] (Some ErrNoGateway)))
          else
            case NewRequest E meth gwURL body of
              Inl err \<Rightarrow> Ret (Inl (Errorf ''build relay request: %w'' [] (Some err)))
            | Inr req \<Rightarrow>
                Fetch client (req\<lparr>rq_Header := relay_header contentType\<rparr>) (\<lambda>resp. Clock (\<lambda>t.
                  emit_all (RecordGatewayRequest (do_status resp) (t - start) [])
                    (case resp of
                       DoErr err _ \<Rightarrow> Ret (Inl (Errorf ''relay request failed: %w'' [] (Some err)))
                     | DoOk rsp \<Rightarrow> Ret (Inr rsp))))))"

definition RecordTraffic_prog ::
  "RedisTrafficMetrics option \<Rightarrow> string \<Rightarrow> int64 \<Rightarrow> int64 \<Rightarrow> go_error option prog" where
  "RecordTraffic_prog r host bytesIn bytesOut =
     (case r of
        None \<Rightarrow> Ret None
      | Some r \<Rightarrow>
          (case rtm_rdb r of
             None \<Rightarrow> Ret None
           | Some rdb \<Rightarrow>
               Clock (\<lambda>t.
                 let key = generateKey host t;
                     pipe = [HIncrBy key ''bytes_in'' bytesIn, HIncrBy key ''bytes_out'' bytesOut,
                             Expire key (rtm_ttl r)]
                 in Exec rdb pipe (\<lambda>e. case e of
                      Some err \<Rightarrow> Ret (Some (Errorf ''failed to record traffic metrics: %w'' [] (Some err)))
                    | None \<Rightarrow> Ret None))))"

definition NoOpRecordTraffic_prog :: "string \<Rightarrow> int64 \<Rightarrow> int64 \<Rightarrow> go_error option prog" where
  "NoOpRecordTraffic_prog host bytesIn bytesOut = Ret None"



section \<open>The handler\<close>

record prog_server =
  ps_relayer :: "string \<Rightarrow> bytes \<Rightarrow> string \<Rightarrow> string \<Rightarrow> http_response result prog"
  ps_keyConfigSource :: "string \<Rightarrow> bytes result prog"
  ps_maxRequestBodySize :: int64
  ps_trafficMetrics :: "(string \<Rightarrow> int64 \<Rightarrow> int64 \<Rightarrow> go_error option prog) option"

definition respondKeyConfig_prog ::
  "(rune \<Rightarrow> rune) \<Rightarrow> prog_server \<Rightarrow> HttpHeaders option \<Rightarrow> streamState \<Rightarrow> ProcessingResponse list result prog" where
  "respondKeyConfig_prog lc s headers st =
     (if st_httpMethod st \<noteq> ''get'' then
        Ret (Inr (immediateErrorResponse 405
          (Detail ''GET method required for OHTTP configs but was %q'' [st_httpMethod st])))
      else
        let acceptHeader = ToLower lc (extractHeaderValue lc headers ''accept'')
        in if acceptHeader \<noteq> ContentTypeOHTTPKeys then
             Ret (Inr (immediateErrorResponse 400
               (Detail ''Accept header must be application/ohttp-keys for OHTTP configs'' [])))
           else
             andThen (ps_keyConfigSource s (st_host st)) (\<lambda>r. case r of
               Inl err \<Rightarrow> Ret (Inr (immediateErrorResponse 500 (ErrorDetail ''failed to get key config: %v'' err)))
             | Inr respBytes \<Rightarrow>
                 Ret (Inr [PR_Immediate \<lparr>ir_Status = Some 200,
                            ir_SetHeaders = [(''content-type'', ContentTypeOHTTPKeys)],
                            ir_Body = respBytes\<rparr>])))"

definition forwardAndRespond_prog :: "prog_server \<Rightarrow> streamState \<Rightarrow> ProcessingResponse list result prog" where
  "forwardAndRespond_prog s st =
     (if st_configRequest st then Ret (Inl (ErrorsNew ''config request not allowed''))
      else
        let contentType =
              (if st_reqContentType st \<noteq> [] \<and> \<not> EqualFold (st_reqContentType st) ContentTypeOHTTPReq
               then st_reqContentType st else ContentTypeOHTTPReq)
        in andThen (ps_relayer s (st_host st) (st_body st) contentType (st_httpMethod st)) (\<lambda>r. case r of
             Inl err \<Rightarrow>
               if errors_Is err ErrNoGateway
               then Ret (Inr (immediateErrorResponse 502 (ErrorDetail ''%v'' err)))
               else Ret (Inr (immediateErrorResponse 502 (ErrorDetail ''relay request failed: %v'' err)))
           | Inr resp \<Rightarrow>
               (case ReadAll resp of
                  (_, Some readErr) \<Rightarrow>
                    Ret (Inr (immediateErrorResponse 502 (ErrorDetail ''failed reading relay response: %v'' readErr)))
                | (respBytes, None) \<Rightarrow>
                    if go_div (rs_StatusCode resp) 100 \<noteq> 2 then
                      Ret (Inr (immediateErrorResponse 502 (Detail ''gateway status %d'' [fmt_d (rs_StatusCode resp)])))
                    else
                      let bytesIn = len64 (st_body st);
                          bytesOut = len64 respBytes;
                          answer = Ret (Inr [PR_Immediate \<lparr>ir_Status = Some 200,
                                       ir_SetHeaders = [(''content-type'', ContentTypeOHTTPRes)],
                                       ir_Body = respBytes\<rparr>])
                      in emit_all (RecordTrafficIO (st_host st) bytesIn bytesOut [])
                           (case ps_trafficMetrics s of
                              None \<Rightarrow> answer
                            | Some record \<Rightarrow> andThen (record (st_host st) bytesIn bytesOut) (\<lambda>_. answer)))))"

definition on_request_headers_prog ::
  "(rune \<Rightarrow> rune) \<Rightarrow> prog_server \<Rightarrow> HttpHeaders option \<Rightarrow> streamState \<Rightarrow>
   (ProcessingResponse list result \<times> streamState) prog" where
  "on_request_headers_prog lc s v st =
     (let httpMethod = ToLower lc (extractHeaderValue lc v '':method'');
          httpMethod = (if httpMethod = [] then ToLower lc (extractHeaderValue lc v ''method'') else httpMethod);
          host = ToLower lc (extractHeaderValue lc v '':authority'');
          host = (if host = [] then ToLower lc (extractHeaderValue lc v ''host'') else host);
          st = st\<lparr>st_httpMethod := httpMethod, st_host := host,
                  st_reqContentType := extractHeaderValue lc v ''content-type''\<rparr>
      in if extractHeaderValue lc v '':path'' = configsPath then
           andThen (respondKeyConfig_prog lc s v st) (\<lambda>r. Ret (r, st\<lparr>st_configRequest := True\<rparr>))
         else if st_httpMethod st \<noteq> ''post'' then
           Ret (Inr (immediateErrorResponse 405
              (Detail ''POST method required for OHTTP configs but was %q'' [st_httpMethod st])), st)
         else if st_reqContentType st \<noteq> [] \<and> \<not> EqualFold (st_reqContentType st) ContentTypeOHTTPReq then
           Ret (Inr (immediateErrorResponse 415
              (Detail ''unsupported content-type %q'' [st_reqContentType st])), st)
         else
           let contentLen = extractHeaderValue lc v ''content-length''
           in if contentLen = [] \<or> contentLen = ''0'' then
                Ret (Inr (immediateErrorResponse 411
                   (Detail ''content-length header must be present and greater than 0'' [])), st)
              else Ret (Inr [], st))"

definition on_request_body_prog ::
  "prog_server \<Rightarrow> HttpBody \<Rightarrow> streamState \<Rightarrow> (ProcessingResponse list result \<times> streamState) prog" where
  "on_request_body_prog s v st =
     (let bodyLen = len64 (hb_Body v)
      in if sint (ps_maxRequestBodySize s) < sint (len64 (st_body st) + bodyLen) then
           Ret (Inr (immediateErrorResponse 413 (Detail ''request body too large'' [])), st\<lparr>st_body := []\<rparr>)
         else
           let st = st\<lparr>st_body := st_body st @ hb_Body v\<rparr>
           in if hb_EndOfStream v
              then andThen (forwardAndRespond_prog s st) (\<lambda>r. Ret (r, st))
              else Ret (Inr [], st))"

fun send_responses_prog :: "ProcessingResponse list \<Rightarrow> proc \<Rightarrow> (control \<times> proc) prog" where
  "send_responses_prog [] p = Ret (Continue, p)"
| "send_responses_prog (resp # responses) p =
     (let p = note_response resp p
      in Reply resp (\<lambda>e. case e of
           Some err \<Rightarrow>
             emit_all (RecordError ''send_error'' [])
               (Ret (Return (status_Errorf Unknown ''failed to send response back to Envoy: %v''), p))
         | None \<Rightarrow> send_responses_prog responses p))"

definition dispatch_prog ::
  "(rune \<Rightarrow> rune) \<Rightarrow> prog_server \<Rightarrow> ProcessingRequest \<Rightarrow> proc \<Rightarrow>
   (ProcessingResponse list result option \<times> proc) prog" where
  "dispatch_prog lc s req p =
     (case req of
        RequestHeaders v \<Rightarrow>
          andThen (on_request_headers_prog lc s v (pr_st p)) (\<lambda>(r, st). Ret (Some r, p\<lparr>pr_st := st\<rparr>))
      | RequestBody v \<Rightarrow>
          (let p = p\<lparr>pr_reqSize := pr_reqSize p + len64 (hb_Body v)\<rparr>
           in andThen (on_request_body_prog s v (pr_st p)) (\<lambda>(r, st). Ret (Some r, p\<lparr>pr_st := st\<rparr>)))
      | RequestTrailers \<Rightarrow> Ret (Some (Inr []), p)
      | ResponseHeaders \<Rightarrow> Ret (Some (Inr []), p)
      | ResponseBody \<Rightarrow> Ret (Some (Inr []), p)
      | _ \<Rightarrow> Ret (None, p))"

definition process_step_prog ::
  "(rune \<Rightarrow> rune) \<Rightarrow> prog_server \<Rightarrow> stream_event \<Rightarrow> proc \<Rightarrow> (control \<times> proc) prog" where
  "process_step_prog lc s ev p =
     (case ev of
        CtxDone err \<Rightarrow> Ret (Return (Some err), p)
      | Recv (Inl recvErr) \<Rightarrow>
          if recvErr = EOF \<or> errors_Is recvErr CtxCanceled then Ret (Return None, p)
          else emit_all (RecordError ''recv_error'' [])
                 (Ret (Return (status_Errorf Unknown ''cannot receive stream request: %v''), p))
      | Recv (Inr req) \<Rightarrow>
          andThen (dispatch_prog lc s req p) (\<lambda>(r, p). case r of
             None \<Rightarrow>
               emit_all (RecordError ''unknown_request_type'' [])
                 (Ret (Return (status_Errorf Unknown ''unknown request type''), p))
           | Some (Inl err) \<Rightarrow>
               emit_all (RecordError ''process_error'' [])
                 (Ret (Return (status_Errorf (status_Code err) ''failed to handle request: %v''), p))
           | Some (Inr responses) \<Rightarrow> send_responses_prog responses p))"

fun process_loop_prog ::
  "(rune \<Rightarrow> rune) \<Rightarrow> prog_server \<Rightarrow> stream_event list \<Rightarrow> proc \<Rightarrow> (go_error option option \<times> proc) prog" where
  "process_loop_prog lc s [] p = Ret (None, p)"
| "process_loop_prog lc s (ev # evs) p =
     andThen (process_step_prog lc s ev p) (\<lambda>(c, p). case c of
        Continue \<Rightarrow> process_loop_prog lc s evs p
      | Return r \<Rightarrow> Ret (Some r, p))"

definition Process_prog ::
  "(rune \<Rightarrow> rune) \<Rightarrow> prog_server \<Rightarrow> stream_event list \<Rightarrow> (go_error option option \<times> proc) prog" where
  "Process_prog lc s evs =
     Emit (AddInt64 ActiveRequests 1 []) (Clock (\<lambda>start.
       andThen (process_loop_prog lc s evs proc_init) (\<lambda>(r, p). case r of
          None \<Rightarrow> Ret (None, p)
        | Some r \<Rightarrow>
            Clock (\<lambda>t.
              let httpMethod = st_httpMethod (pr_st p);
                  httpMethod = (if httpMethod = [] then ''UNKNOWN'' else httpMethod)
              in emit_all (RecordRequest httpMethod (status_class (pr_statusCode p))
                   (t - start) (pr_reqSize p) (pr_respSize p) [])
                 (Emit (AddInt64 ActiveRequests (-1) []) (Ret (Some r, p)))))))"



section \<open>The programs of a configuration\<close>

text \<open>
  What a successful \<open>runRelayServer\<close> wires up: source and recorder by whether Redis is
  configured. The case of a failing \<open>NewRedisGatewaySource\<close> is never wired.
\<close>

definition gateway_sources_prog ::
  "'x externals \<Rightarrow> ConfigT \<Rightarrow>
   (string \<Rightarrow> string result prog) \<times> (string \<Rightarrow> int64 \<Rightarrow> int64 \<Rightarrow> go_error option prog)" where
  "gateway_sources_prog E cfg =
     (let staticSource = StaticMapURLSource_prog (DomainMap cfg)
      in if RedisEnable cfg \<and> TrimSpace (RedisAddr cfg) \<noteq> [] then
           let ro = redis_client_options cfg
           in case NewRedisGatewaySource ro (Timeout cfg) of
                Inl err \<Rightarrow> (staticSource, NoOpRecordTraffic_prog)
              | Inr redisSource \<Rightarrow>
                  (ChainSources_prog [staticSource, RedisTargetURL_prog E redisSource],
                   RecordTraffic_prog (Some \<lparr>rtm_rdb = Some ro, rtm_ttl = 72 * 3600 * 1000000000\<rparr>))
         else (staticSource, NoOpRecordTraffic_prog))"

definition server_prog :: "'x externals \<Rightarrow> ConfigT \<Rightarrow> prog_server" where
  "server_prog E cfg =
     (case gateway_sources_prog E cfg of
        (gwSource, trafficMetrics) \<Rightarrow>
          \<lparr>ps_relayer = Relay_prog E (Timeout cfg) gwSource,
           ps_keyConfigSource = NewHttpKeyConfigSource_prog E (Timeout cfg) gwSource,
           ps_maxRequestBodySize = MaxRequestBodySize cfg, ps_trafficMetrics = Some trafficMetrics\<rparr>)"


section \<open>Running a program is the sequential model\<close>

locale source_program =
  fixes E :: "'x externals" and send :: "'x SendFn"
    and source_prog :: "string \<Rightarrow> string result prog" and source :: "'x URLSource"
  assumes source_run: "run E send (source_prog host) w = source host w"
begin

lemma key_source_run:
  "run E send (NewHttpKeyConfigSource_prog E t source_prog host) w = NewHttpKeyConfigSource E t source host w"
  by (simp add: NewHttpKeyConfigSource_prog_def NewHttpKeyConfigSource_def run_andThen source_run Let_def
      split: prod.split sum.split do_result.split)

lemma Relay_run:
  "run E send (Relay_prog E t source_prog host body ct m) w = Relay E (NewHTTPRelayer t source) host body ct m w"
  by (simp add: Relay_prog_def Relay_def NewHTTPRelayer_def run_andThen source_run run_record Let_def
      split: prod.split sum.split do_result.split)

end

interpretation static_source: source_program E send "StaticMapURLSource_prog m" "StaticMapURLSource m" for E send m
  by unfold_locales (simp add: StaticMapURLSource_prog_def StaticMapURLSource_def)

interpretation chain_source: source_program E send
  "ChainSources_prog [StaticMapURLSource_prog m, RedisTargetURL_prog E r]"
  "ChainSources [StaticMapURLSource m, RedisTargetURL E r]" for E send m r
  by unfold_locales
    (simp add: StaticMapURLSource_prog_def StaticMapURLSource_def RedisTargetURL_prog_def RedisTargetURL_def
      run_andThen Let_def split: prod.split sum.split)

lemma RecordTraffic_run: "run E send (RecordTraffic_prog r host i out) w = RecordTraffic E r host i out w"
  by (simp add: RecordTraffic_prog_def RecordTraffic_def Let_def split: prod.split option.split)

locale server_program =
  fixes E :: "'x externals" and send :: "'x SendFn" and ps :: prog_server and s :: "'x Server"
  assumes relayer_run: "run E send (ps_relayer ps host body ct m) w = sv_relayer s host body ct m w"
    and key_run: "run E send (ps_keyConfigSource ps host) w = sv_keyConfigSource s host w"
    and max_eq: "ps_maxRequestBodySize ps = sv_maxRequestBodySize s"
    and traffic_run: "rel_option (\<lambda>f g. \<forall>host i out w. run E send (f host i out) w = g host i out w)
      (ps_trafficMetrics ps) (sv_trafficMetrics s)"
begin

lemma respondKeyConfig_run: "run E send (respondKeyConfig_prog lc ps v st) w = respondKeyConfig lc s v st w"
  by (simp add: respondKeyConfig_prog_def respondKeyConfig_def run_andThen key_run Let_def
      split: prod.split sum.split)

lemma forwardAndRespond_run: "run E send (forwardAndRespond_prog ps st) w = forwardAndRespond s st w"
proof -
  have "run E send (case ps_trafficMetrics ps of None \<Rightarrow> Ret a | Some f \<Rightarrow> andThen (f h i out) (\<lambda>_. Ret a)) w =
      (a, case sv_trafficMetrics s of None \<Rightarrow> w | Some g \<Rightarrow> snd (g h i out w))" for a :: "ProcessingResponse list result" and h i out w
    using traffic_run by (auto simp: run_andThen split: option.split prod.split elim: option.rel_cases)
  then show ?thesis
    by (simp add: forwardAndRespond_prog_def forwardAndRespond_def run_andThen relayer_run run_record Let_def
        split: prod.split sum.split option.split)
qed

lemma on_request_headers_run:
  "run E send (on_request_headers_prog lc ps v st) w =
     (case on_request_headers lc s v st w of (r, st, w) \<Rightarrow> ((r, st), w))"
proof -
  define st' where "st' = st\<lparr>st_httpMethod :=
      (if ToLower lc (extractHeaderValue lc v '':method'') = [] then ToLower lc (extractHeaderValue lc v ''method'')
       else ToLower lc (extractHeaderValue lc v '':method'')),
    st_host :=
      (if ToLower lc (extractHeaderValue lc v '':authority'') = [] then ToLower lc (extractHeaderValue lc v ''host'')
       else ToLower lc (extractHeaderValue lc v '':authority'')),
    st_reqContentType := extractHeaderValue lc v ''content-type''\<rparr>"
  obtain r w' where k: "respondKeyConfig lc s v st' w = (r, w')" by fastforce
  have "run E send (andThen (respondKeyConfig_prog lc ps v st') f) w = run E send (f r) w'"
    for f :: "ProcessingResponse list result \<Rightarrow> (ProcessingResponse list result \<times> streamState) prog"
    by (simp add: run_andThen respondKeyConfig_run k)
  note eqs = this k
  show ?thesis
    unfolding on_request_headers_prog_def on_request_headers_def Let_def st'_def [symmetric]
    by (simp only: eqs if_distrib [of "\<lambda>m. run E send m w"] if_distrib [of "\<lambda>x. case x of (r, st, w) \<Rightarrow> ((r, st), w)"]
        prod.case run.simps)
qed

lemma on_request_body_run:
  "run E send (on_request_body_prog ps v st) w =
     (case on_request_body s v st w of (r, st, w) \<Rightarrow> ((r, st), w))"
  by (simp add: on_request_body_prog_def on_request_body_def run_andThen forwardAndRespond_run max_eq Let_def
      split: prod.split)

lemma dispatch_run:
  "run E send (dispatch_prog lc ps req p) w = (case dispatch lc s req p w of (r, p, w) \<Rightarrow> ((r, p), w))"
  by (cases req)
    (simp_all add: dispatch_prog_def dispatch_def run_andThen on_request_headers_run on_request_body_run Let_def
      split: prod.split)

lemma send_responses_run:
  "run E send (send_responses_prog rs p) w = (case send_responses send rs p w of (c, p, w) \<Rightarrow> ((c, p), w))"
  by (induction rs arbitrary: p w) (simp_all add: Send_def run_record Let_def split: prod.split option.split)

lemma process_step_run:
  "run E send (process_step_prog (uni_lower E) ps ev p) w =
     (case process_step E send s ev p w of (c, p, w) \<Rightarrow> ((c, p), w))"
  by (simp add: process_step_prog_def process_step_def run_andThen run_record dispatch_run send_responses_run
      split: prod.split option.split sum.split stream_event.split)

lemma process_loop_run:
  "run E send (process_loop_prog (uni_lower E) ps evs p) w =
     (case process_loop E send s evs p w of (r, p, w) \<Rightarrow> ((r, p), w))"
  by (induction evs arbitrary: p w)
    (simp_all add: run_andThen process_step_run split: prod.split control.split)

lemma Process_run:
  "run E send (Process_prog (uni_lower E) ps evs) w =
     (case Process E send s evs w of (r, p, w) \<Rightarrow> ((r, p), w))"
  by (simp add: Process_prog_def Process_def run_andThen process_loop_run run_record Let_def
      split: prod.split option.split)

end

text \<open>Every runner that is set up implements the programs of its configuration.\<close>

lemma setup_relay_program:
  assumes "setup_relay E cfg w = (Inr runner, w')"
  shows "server_program E send (server_prog E cfg) (runner_handler runner)"
proof -
  obtain src rec w1 where g: "gateway_sources E cfg w = (Inr (src, rec), w1)"
    using assms by (auto simp: setup_relay_def split: prod.splits sum.splits)
  have h: "runner_handler runner = NewServer (Relay E (NewHTTPRelayer (Timeout cfg) src))
      (NewHttpKeyConfigSource E (Timeout cfg) src) (MaxRequestBodySize cfg) (Some rec)"
    using assms g by (auto simp: setup_relay_def runner_handler_def NewExtProcServerRunner_def Let_def)
  obtain sp rp where gp: "gateway_sources_prog E cfg = (sp, rp)" by fastforce
  have s: "source_program E send sp src" and r: "run E send (rp host i out) w = rec host i out w" for host i out w
    using g gp
    by (auto simp: gateway_sources_def gateway_sources_prog_def NewRedisGatewaySource_def NewRedisTrafficMetrics_def
        Let_def static_source.source_program_axioms chain_source.source_program_axioms RecordTraffic_run
        NoOpRecordTraffic_prog_def NoOpRecordTraffic_def split: if_splits prod.splits option.splits)
  show ?thesis
    by unfold_locales
      (simp_all add: server_prog_def gp h NewServer_def r source_program.key_source_run [OF s] source_program.Relay_run [OF s])
qed

end
