(* ===== verification/Threads.thy ===== *)
theory Threads
  imports Programs "HOL-Library.Multiset"
begin

text \<open>
  Concurrent streams at the granularity of single calls. Every stream is a thread with its
  program; a schedule is a sequence of thread numbers, and each entry lets that thread make
  its next call on the shared world. Any schedule of any length is an execution. A thread
  keeps, for the specification, the calls it made with their answers (\<open>th_trace\<close>).

  The central lemma is \<open>follow_sequential\<close>: whatever the other threads do, a thread has
  behaved like the sequential \<open>Process\<close> in the environment that gives the answers of its
  trace. So what is proved of \<open>Process\<close> for all environments holds of each thread of every
  execution, and the sums over the threads give the shared metrics and requests.
\<close>

section \<open>Calls and traces\<close>

datatype env_call =
    EClock instant
  | EFetch duration http_request do_result
  | ELookup redis_options duration string string "string result"
  | EExec redis_options "redis_cmd list" "go_error option"
  | EEmit metric_op
  | EReply ProcessingResponse "go_error option"

text \<open>One call; \<open>None\<close> when the program has returned.\<close>

fun call_step :: "'x externals \<Rightarrow> 'x SendFn \<Rightarrow> 'a prog \<Rightarrow> 'x world \<Rightarrow> (env_call \<times> 'a prog \<times> 'x world) option" where
  "call_step E send (Ret a) w = None"
| "call_step E send (Clock k) w = (case Now E w of (t, w) \<Rightarrow> Some (EClock t, k t, w))"
| "call_step E send (Fetch t req k) w = (case Do E t req w of (r, w) \<Rightarrow> Some (EFetch t req r, k r, w))"
| "call_step E send (Lookup rdb t key field k) w =
     (case HGet E rdb t key field w of (r, w) \<Rightarrow> Some (ELookup rdb t key field r, k r, w))"
| "call_step E send (Exec rdb cmds k) w =
     (case Pipeline_Exec E rdb cmds w of (r, w) \<Rightarrow> Some (EExec rdb cmds r, k r, w))"
| "call_step E send (Emit op k) w = Some (EEmit op, k, with_metrics (\<lambda>l. l @ [op]) w)"
| "call_step E send (Reply resp k) w = (case Send send resp w of (r, w) \<Rightarrow> Some (EReply resp r, k r, w))"

text \<open>The program left after a sequence of calls; \<open>None\<close> when it does not make these calls.\<close>

fun follow :: "'a prog \<Rightarrow> env_call list \<Rightarrow> 'a prog option" where
  "follow m [] = Some m"
| "follow (Clock k) (EClock t # tr) = follow (k t) tr"
| "follow (Fetch t req k) (EFetch t' req' r # tr) = (if t' = t \<and> req' = req then follow (k r) tr else None)"
| "follow (Lookup rdb t key field k) (ELookup rdb' t' key' field' r # tr) =
     (if rdb' = rdb \<and> t' = t \<and> key' = key \<and> field' = field then follow (k r) tr else None)"
| "follow (Exec rdb cmds k) (EExec rdb' cmds' r # tr) =
     (if rdb' = rdb \<and> cmds' = cmds then follow (k r) tr else None)"
| "follow (Emit op k) (EEmit op' # tr) = (if op' = op then follow k tr else None)"
| "follow (Reply resp k) (EReply resp' r # tr) = (if resp' = resp then follow (k r) tr else None)"
| "follow m (c # tr) = None"

text \<open>What a trace did to the shared world, and the answers it got.\<close>

fun emitted :: "env_call list \<Rightarrow> metric_log" where
  "emitted [] = []"
| "emitted (EEmit op # tr) = op # emitted tr"
| "emitted (c # tr) = emitted tr"

fun fetched :: "env_call list \<Rightarrow> http_request list" where
  "fetched [] = []"
| "fetched (EFetch t req r # tr) = req # fetched tr"
| "fetched (c # tr) = fetched tr"

fun piped :: "env_call list \<Rightarrow> redis_cmd list list" where
  "piped [] = []"
| "piped (EExec rdb cmds r # tr) = cmds # piped tr"
| "piped (c # tr) = piped tr"

definition answers :: "env_call list \<Rightarrow> env_call list" where
  "answers tr = filter (\<lambda>c. case c of EEmit _ \<Rightarrow> False | _ \<Rightarrow> True) tr"

lemma trace_append [simp]:
  "emitted (tr @ tr') = emitted tr @ emitted tr'"
  "fetched (tr @ tr') = fetched tr @ fetched tr'"
  "piped (tr @ tr') = piped tr @ piped tr'"
  by (induction tr rule: emitted.induct; simp)+

lemma follow_append: "follow m (tr @ tr') = (case follow m tr of None \<Rightarrow> None | Some m' \<Rightarrow> follow m' tr')"
  by (induction m tr rule: follow.induct) simp_all

lemma follow_call_step:
  "call_step E send m w = Some (c, m', w') \<Longrightarrow> follow m [c] = Some m'"
  by (cases m) (auto split: prod.splits)

text \<open>The effect of one call on the shared parts of the world.\<close>

lemma call_step_world:
  assumes "call_step E send m w = Some (c, m', w')"
  shows "metrics_log w' = metrics_log w @ emitted [c]" "outbound w' = outbound w @ fetched [c]"
    "pipelines w' = pipelines w @ piped [c]"
  using assms
  by (cases m; auto simp: Now_def Do_def HGet_def Pipeline_Exec_def Send_def frame split: prod.splits)+

lemma call_step_None: "call_step E send m w = None \<longleftrightarrow> is_Ret m"
  by (cases m) (simp_all split: prod.split)

lemma call_step_Ret [simp]: "is_Ret m \<Longrightarrow> call_step E send m w = None"
  by (simp add: call_step_None)


section \<open>Threads and schedules\<close>

record 'a thread =
  th_prog :: "'a prog"
  th_trace :: "env_call list"

definition exec1 ::
  "'x externals \<Rightarrow> (nat \<Rightarrow> 'x SendFn) \<Rightarrow> nat \<Rightarrow> 'a thread list \<times> 'x world \<Rightarrow> 'a thread list \<times> 'x world" where
  "exec1 E send i s =
     (case s of (ths, w) \<Rightarrow>
        if i < length ths then
          (case call_step E (send i) (th_prog (ths ! i)) w of
             None \<Rightarrow> (ths, w)
           | Some (c, m, w) \<Rightarrow> (ths[i := \<lparr>th_prog = m, th_trace = th_trace (ths ! i) @ [c]\<rparr>], w))
        else (ths, w))"

definition exec ::
  "'x externals \<Rightarrow> (nat \<Rightarrow> 'x SendFn) \<Rightarrow> nat list \<Rightarrow> 'a thread list \<times> 'x world \<Rightarrow> 'a thread list \<times> 'x world" where
  "exec E send sched s = fold (exec1 E send) sched s"

definition threads :: "'a prog list \<Rightarrow> 'a thread list" where
  "threads ms = map (\<lambda>m. \<lparr>th_prog = m, th_trace = []\<rparr>) ms"

lemma exec_induct [consumes 1, case_names start step]:
  assumes "exec E send sched (threads ms, w0) = (ths, w)"
    and "P (threads ms) w0"
    and "\<And>ths w i c m w'. P ths w \<Longrightarrow> i < length ths \<Longrightarrow>
       call_step E (send i) (th_prog (ths ! i)) w = Some (c, m, w') \<Longrightarrow>
       P (ths[i := \<lparr>th_prog = m, th_trace = th_trace (ths ! i) @ [c]\<rparr>]) w'"
  shows "P ths w"
  using assms(1)
proof (induction sched arbitrary: ths w rule: rev_induct)
  case Nil
  then show ?case using assms(2) by (simp add: exec_def)
next
  case (snoc i sched)
  obtain ths1 w1 where e: "exec E send sched (threads ms, w0) = (ths1, w1)" by fastforce
  have "exec1 E send i (ths1, w1) = (ths, w)" using snoc.prems e by (simp add: exec_def)
  with snoc.IH [OF e] assms(3) show ?case
    by (auto simp: exec1_def split: if_splits option.splits)
qed

text \<open>Every thread follows its program.\<close>

lemma exec_follow:
  assumes "exec E send sched (threads ms, w0) = (ths, w)"
  shows "length ths = length ms"
    "i < length ms \<Longrightarrow> follow (ms ! i) (th_trace (ths ! i)) = Some (th_prog (ths ! i))"
proof -
  have "length ths = length ms \<and> (\<forall>i < length ms. follow (ms ! i) (th_trace (ths ! i)) = Some (th_prog (ths ! i)))"
    using assms
  proof (induction rule: exec_induct)
    case (step ths w i c m w')
    then show ?case by (auto simp: nth_list_update follow_append dest: follow_call_step)
  qed (simp add: threads_def)
  then show "length ths = length ms"
    "i < length ms \<Longrightarrow> follow (ms ! i) (th_trace (ths ! i)) = Some (th_prog (ths ! i))" by auto
qed

text \<open>The shared parts of the world are the sum of what the threads did.\<close>

lemma sum_list_update_add:
  fixes f :: "'a \<Rightarrow> 'b::comm_monoid_add"
  assumes "i < length xs" and "f y = f (xs ! i) + d"
  shows "sum_list (map f (xs[i := y])) = sum_list (map f xs) + d"
  using assms
proof (induction xs arbitrary: i)
  case (Cons x xs)
  then show ?case by (cases i) (simp_all add: ac_simps)
qed simp

lemma exec_shared:
  assumes "exec E send sched (threads ms, w0) = (ths, w)"
  shows "counter_value j (metrics_log w) =
      counter_value j (metrics_log w0) + (\<Sum>th\<leftarrow>ths. counter_value j (emitted (th_trace th)))"
    "\<exists>reqs. outbound w = outbound w0 @ reqs \<and> mset reqs = (\<Sum>th\<leftarrow>ths. mset (fetched (th_trace th)))"
    "\<exists>pipes. pipelines w = pipelines w0 @ pipes \<and> mset pipes = (\<Sum>th\<leftarrow>ths. mset (piped (th_trace th)))"
proof -
  have "counter_value j (metrics_log w) =
      counter_value j (metrics_log w0) + (\<Sum>th\<leftarrow>ths. counter_value j (emitted (th_trace th)))
    \<and> (\<exists>reqs. outbound w = outbound w0 @ reqs \<and> mset reqs = (\<Sum>th\<leftarrow>ths. mset (fetched (th_trace th))))
    \<and> (\<exists>pipes. pipelines w = pipelines w0 @ pipes \<and> mset pipes = (\<Sum>th\<leftarrow>ths. mset (piped (th_trace th))))"
    using assms
  proof (induction rule: exec_induct)
    case (step ths w i c m w')
    note [simp] = sum_list_update_add [OF step.hyps(1)] call_step_world [OF step.hyps(2)]
    show ?case using step.IH by force
  qed (simp add: threads_def sum_list_0 comp_def)
  then show "counter_value j (metrics_log w) =
      counter_value j (metrics_log w0) + (\<Sum>th\<leftarrow>ths. counter_value j (emitted (th_trace th)))"
    "\<exists>reqs. outbound w = outbound w0 @ reqs \<and> mset reqs = (\<Sum>th\<leftarrow>ths. mset (fetched (th_trace th)))"
    "\<exists>pipes. pipelines w = pipelines w0 @ pipes \<and> mset pipes = (\<Sum>th\<leftarrow>ths. mset (piped (th_trace th)))"
    by blast+
qed



section \<open>A thread on its own\<close>

text \<open>The environment that gives the answers of a trace, one after the other.\<close>

definition scripted :: "(rune \<Rightarrow> rune) \<Rightarrow> (string \<Rightarrow> go_error option) \<Rightarrow> env_call list externals" where
  "scripted lc perr =
     \<lparr>uni_lower = lc,
      time_now = (\<lambda>tr. case tr of EClock t # tr \<Rightarrow> (t, tr) | _ \<Rightarrow> (0, tr)),
      parse_url_err = perr,
      http_do = (\<lambda>_ _ tr. case tr of EFetch _ _ r # tr \<Rightarrow> (r, tr) | _ \<Rightarrow> (DoErr EOF None, tr)),
      redis_hget = (\<lambda>_ _ _ _ tr. case tr of ELookup _ _ _ _ r # tr \<Rightarrow> (r, tr) | _ \<Rightarrow> (Inl EOF, tr)),
      redis_exec = (\<lambda>_ _ tr. case tr of EExec _ _ r # tr \<Rightarrow> (r, tr) | _ \<Rightarrow> (None, tr)),
      redis_ping = (\<lambda>_ _ tr. (None, tr))\<rparr>"

definition scripted_send :: "env_call list SendFn" where
  "scripted_send resp tr = (case tr of EReply _ r # tr \<Rightarrow> (r, tr) | _ \<Rightarrow> (None, tr))"

lemma follow_run:
  assumes "follow m tr = Some m'"
  shows "run (scripted lc perr) scripted_send m
      \<lparr>env = answers tr @ rest, metrics_log = l, outbound = out, pipelines = ps\<rparr> =
    run (scripted lc perr) scripted_send m'
      \<lparr>env = rest, metrics_log = l @ emitted tr, outbound = out @ fetched tr, pipelines = ps @ piped tr\<rparr>"
  using assms
  by (induction m tr arbitrary: l out ps rule: follow.induct)
    (auto simp: answers_def scripted_def scripted_send_def Now_def Do_def HGet_def Pipeline_Exec_def Send_def
      with_metrics_def split: if_splits)

text \<open>The programs depend on the environment only through its two pure functions.\<close>

lemma scripted_pure [simp]: "uni_lower (scripted lc perr) = lc" "parse_url_err (scripted lc perr) = perr"
  by (simp_all add: scripted_def)

lemma NewRequest_cong: "parse_url_err E' = parse_url_err E \<Longrightarrow> NewRequest E' = NewRequest E"
  by (simp add: fun_eq_iff NewRequest_def Let_def)

lemma server_prog_cong:
  assumes "uni_lower E' = uni_lower E" and "parse_url_err E' = parse_url_err E"
  shows "server_prog E' cfg = server_prog E cfg"
proof -
  have "RedisTargetURL_prog E' = RedisTargetURL_prog E"
    by (simp add: fun_eq_iff RedisTargetURL_prog_def assms(1))
  then have "gateway_sources_prog E' cfg = gateway_sources_prog E cfg"
    by (simp add: gateway_sources_prog_def Let_def split: sum.split)
  moreover have "Relay_prog E' = Relay_prog E" "NewHttpKeyConfigSource_prog E' = NewHttpKeyConfigSource_prog E"
    unfolding Relay_prog_def NewHttpKeyConfigSource_prog_def NewRequest_cong [OF assms(2)] by (rule refl)+
  ultimately show ?thesis by (simp add: server_prog_def)
qed

definition stream_prog ::
  "'x externals \<Rightarrow> ConfigT \<Rightarrow> stream_event list \<Rightarrow> (go_error option option \<times> proc) prog" where
  "stream_prog E cfg evs = Process_prog (uni_lower E) (server_prog E cfg) evs"

lemma stream_prog_cong:
  "uni_lower E' = uni_lower E \<Longrightarrow> parse_url_err E' = parse_url_err E \<Longrightarrow> stream_prog E' cfg evs = stream_prog E cfg evs"
  using server_prog_cong [of E' E cfg] by (simp add: stream_prog_def)

text \<open>Running the program of a stream is \<open>Process\<close> of the handler that is set up.\<close>

lemma stream_prog_run:
  assumes "setup_relay E cfg w0 = (Inr runner, w1)"
  shows "run E send (stream_prog E cfg evs) w =
    (case Process E send (runner_handler runner) evs w of (r, p, w') \<Rightarrow> ((r, p), w'))"
  unfolding stream_prog_def by (rule server_program.Process_run [OF setup_relay_program [OF assms]])

text \<open>The world a scripted run starts in.\<close>

definition script :: "env_call list \<Rightarrow> env_call list world" where
  "script tr = \<lparr>env = answers tr, metrics_log = [], outbound = [], pipelines = []\<rparr>"

text \<open>
  What a thread has done so far is the beginning of a sequential run of \<open>Process\<close> of a relay
  set up from the same configuration; what it has left to do is \<open>m\<close>.
\<close>

lemma follow_sequential:
  assumes "follow (stream_prog E cfg evs) tr = Some m"
  obtains runner w0 w1 where
    "setup_relay (scripted (uni_lower E) (parse_url_err E)) cfg w0 = (Inr runner, w1)"
    "(case Process (scripted (uni_lower E) (parse_url_err E)) scripted_send (runner_handler runner) evs (script tr) of
        (r, p, w) \<Rightarrow> ((r, p), w)) =
      run (scripted (uni_lower E) (parse_url_err E)) scripted_send m
        \<lparr>env = [], metrics_log = emitted tr, outbound = fetched tr, pipelines = piped tr\<rparr>"
proof -
  let ?E = "scripted (uni_lower E) (parse_url_err E)"
  have "fst (redis_ping ?E ro t x) = None" for ro t x by (simp add: scripted_def)
  then obtain runner w1 where s: "setup_relay ?E cfg (script []) = (Inr runner, w1)"
    using setup_relay_up by blast
  have "run ?E scripted_send (stream_prog E cfg evs) (script tr) =
      run ?E scripted_send m
        \<lparr>env = [], metrics_log = emitted tr, outbound = fetched tr, pipelines = piped tr\<rparr>"
    using follow_run [OF assms, where rest = "[]" and l = "[]" and out = "[]" and ps = "[]"
        and lc = "uni_lower E" and perr = "parse_url_err E"] by (simp add: script_def)
  moreover have "stream_prog ?E cfg evs = stream_prog E cfg evs" by (rule stream_prog_cong) simp_all
  ultimately show thesis using that [OF s] stream_prog_run [OF s, of scripted_send evs "script tr"] by simp
qed



text \<open>The world a scripted run ends in when the program has returned.\<close>

definition script_end :: "env_call list \<Rightarrow> env_call list world" where
  "script_end tr = \<lparr>env = [], metrics_log = emitted tr, outbound = fetched tr, pipelines = piped tr\<rparr>"

lemma follow_returned:
  assumes "follow (stream_prog E cfg evs) tr = Some (Ret (r, p))"
  obtains runner w0 w1 where
    "setup_relay (scripted (uni_lower E) (parse_url_err E)) cfg w0 = (Inr runner, w1)"
    "Process (scripted (uni_lower E) (parse_url_err E)) scripted_send (runner_handler runner) evs (script tr) =
      (r, p, script_end tr)"
  by (rule follow_sequential [OF assms]) (auto simp: script_end_def split: prod.splits)


section \<open>What each thread does\<close>

lemma run_outbound: "\<exists>reqs. outbound (snd (run E send m w)) = outbound w @ reqs"
proof (induction m arbitrary: w)
  case (Fetch t req k)
  obtain r w1 where d: "Do E t req w = (r, w1)" by fastforce
  with Do_frame(2) [of E t req w] have "outbound w1 = outbound w @ [req]" by simp
  with Fetch [of "k r" w1] d show ?case by auto
next
  case (Clock k)
  obtain t w1 where n: "Now E w = (t, w1)" by fastforce
  with Clock [of "k t" w1] Now_case(2) [OF n] show ?case by simp
next
  case (Lookup rdb t key field k)
  obtain r w1 where h: "HGet E rdb t key field w = (r, w1)" by fastforce
  with HGet_frame(2) [of E rdb t key field w] have "outbound w1 = outbound w" by simp
  with Lookup [of "k r" w1] h show ?case by simp
next
  case (Exec rdb cmds k)
  obtain r w1 where h: "Pipeline_Exec E rdb cmds w = (r, w1)" by fastforce
  with Pipeline_Exec_frame(2) [of E rdb cmds w] have "outbound w1 = outbound w" by simp
  with Exec [of "k r" w1] h show ?case by simp
next
  case (Emit op k)
  show ?case using Emit [of "with_metrics (\<lambda>l. l @ [op]) w"] by (simp add: frame)
next
  case (Reply resp k)
  obtain r w1 where h: "Send send resp w = (r, w1)" by fastforce
  then have "outbound w1 = outbound w" by (auto simp: Send_def split: prod.splits)
  with Reply [of "k r" w1] h show ?case by simp
qed simp

text \<open>Requests of a thread, at any point of its life.\<close>

lemma size_ok_cong: "sv_maxRequestBodySize s = sv_maxRequestBodySize s' \<Longrightarrow> size_ok s = size_ok s'"
  by (rule ext) (simp add: size_ok_def split: stream_event.split sum.split ProcessingRequest.split)

lemma handler_limit: "setup_relay E cfg w0 = (Inr runner, w1) \<Longrightarrow> sv_maxRequestBodySize (runner_handler runner) = MaxRequestBodySize cfg"
  by (erule setup_relay_wired) (simp add: NewServer_def)

lemma thread_requests:
  assumes "follow (stream_prog E cfg evs) tr = Some m" and "0 \<le> sint (MaxRequestBodySize cfg)"
    and "list_all (size_ok s) evs" and "sv_maxRequestBodySize s = MaxRequestBodySize cfg"
  shows "length (fetched tr) \<le> length evs"
    "list_all (clean_request (\<lambda>b. int (length b) \<le> sint (MaxRequestBodySize cfg))) (fetched tr)"
proof -
  let ?E = "scripted (uni_lower E) (parse_url_err E)"
  obtain runner w0 w1 where s: "setup_relay ?E cfg w0 = (Inr runner, w1)"
    and eq: "(case Process ?E scripted_send (runner_handler runner) evs (script tr) of (r, p, w) \<Rightarrow> ((r, p), w)) =
      run ?E scripted_send m \<lparr>env = [], metrics_log = emitted tr, outbound = fetched tr, pipelines = piped tr\<rparr>"
    using follow_sequential [OF assms(1)] by metis
  obtain r p w where P: "Process ?E scripted_send (runner_handler runner) evs (script tr) = (r, p, w)"
    by (metis prod_cases3)
  obtain reqs1 where r1: "outbound w = fetched tr @ reqs1"
    using run_outbound [of ?E scripted_send m] eq P by (metis (no_types, lifting) old.prod.case snd_conv world.select_convs(3))
  have "size_ok (runner_handler runner) = size_ok s"
    using handler_limit [OF s] assms(4) by (intro size_ok_cong) simp
  then obtain reqs2 where "outbound w = outbound (script tr) @ reqs2" "length reqs2 \<le> length evs"
    "list_all (clean_request (\<lambda>b. int (length b) \<le> sint (MaxRequestBodySize cfg))) reqs2"
    using setup_relay_wired [OF s] stream_server.Process_requests P assms(2,3) by metis
  with r1 show "length (fetched tr) \<le> length evs"
    "list_all (clean_request (\<lambda>b. int (length b) \<le> sint (MaxRequestBodySize cfg))) (fetched tr)"
    by (simp_all add: script_def)
qed

text \<open>Counters of a thread that has returned or waits for its next message.\<close>

lemma Process_books:
  assumes "stream_server relay kc rec" and "list_all ctx_ok evs"
    and "Process E send (NewServer relay kc mx (Some rec)) evs w = (r, p, w')"
  shows "counter_value RequestsTotal (metrics_log w') =
      counter_value RequestsTotal (metrics_log w) + (case r of None \<Rightarrow> 0 | Some _ \<Rightarrow> 1)"
    "counter_value ErrorsTotal (metrics_log w') =
      counter_value ErrorsTotal (metrics_log w) + (case r of None \<Rightarrow> 0 | Some r \<Rightarrow> counted (Return r))"
proof -
  obtain t0 w1 where n0: "Now E (with_metrics (\<lambda>l. l @ [AddInt64 ActiveRequests 1 []]) w) = (t0, w1)" by fastforce
  have wait: "stream_counters w' = stream_counters w1" if "r = None"
  proof -
    have "process_loop E send (NewServer relay kc mx (Some rec)) evs proc_init w1 = (None, p, w')"
      using assms(3) n0 that by (auto simp: Process_def Let_def split: prod.splits option.splits)
    from stream_server.process_loop_counters [OF assms(1) this assms(2)] show ?thesis by simp
  qed
  show "counter_value RequestsTotal (metrics_log w') =
      counter_value RequestsTotal (metrics_log w) + (case r of None \<Rightarrow> 0 | Some _ \<Rightarrow> 1)"
    "counter_value ErrorsTotal (metrics_log w') =
      counter_value ErrorsTotal (metrics_log w) + (case r of None \<Rightarrow> 0 | Some r \<Rightarrow> counted (Return r))"
    using wait Now_case(1) [OF n0] stream_server.Process_counters [OF assms(1) _ assms(2)] assms(3)
    by (cases r; simp add: stream_counters_def frame)+
qed

lemma thread_counters:
  assumes "follow (stream_prog E cfg evs) tr = Some (Ret (r, p))" and "list_all ctx_ok evs"
  shows "counter_value RequestsTotal (emitted tr) = (case r of None \<Rightarrow> 0 | Some _ \<Rightarrow> 1)"
    "counter_value ErrorsTotal (emitted tr) = (case r of None \<Rightarrow> 0 | Some r \<Rightarrow> counted (Return r))"
proof -
  obtain runner w0 w1 where s: "setup_relay (scripted (uni_lower E) (parse_url_err E)) cfg w0 = (Inr runner, w1)"
    and P: "Process (scripted (uni_lower E) (parse_url_err E)) scripted_send (runner_handler runner) evs (script tr) =
      (r, p, script_end tr)" by (rule follow_returned [OF assms(1)])
  obtain relay kc rec where l: "stream_server relay kc rec"
    "runner_handler runner = NewServer relay kc (MaxRequestBodySize cfg) (Some rec)"
    using setup_relay_wired [OF s] by blast
  from Process_books [OF l(1) assms(2) P [unfolded l(2)]]
  show "counter_value RequestsTotal (emitted tr) = (case r of None \<Rightarrow> 0 | Some _ \<Rightarrow> 1)"
    "counter_value ErrorsTotal (emitted tr) = (case r of None \<Rightarrow> 0 | Some r \<Rightarrow> counted (Return r))"
    by (simp_all add: script_def script_end_def)
qed



section \<open>The gauge at every moment\<close>

text \<open>A program that never touches an instrument.\<close>

primrec quiet :: "instrument \<Rightarrow> 'a prog \<Rightarrow> bool" where
  "quiet i (Ret a) = True"
| "quiet i (Clock k) = (\<forall>t. quiet i (k t))"
| "quiet i (Fetch t req k) = (\<forall>r. quiet i (k r))"
| "quiet i (Lookup rdb t key field k) = (\<forall>r. quiet i (k r))"
| "quiet i (Exec rdb cmds k) = (\<forall>r. quiet i (k r))"
| "quiet i (Emit op k) = (increments i [op] = [] \<and> quiet i k)"
| "quiet i (Reply resp k) = (\<forall>r. quiet i (k r))"

lemma quiet_andThen [intro!]: "quiet i m \<Longrightarrow> (\<And>a. quiet i (k a)) \<Longrightarrow> quiet i (andThen m k)"
  by (induction m) simp_all

lemma quiet_emit_all [simp]: "quiet i (emit_all ops k) \<longleftrightarrow> increments i ops = [] \<and> quiet i k"
proof (induction ops)
  case (Cons op ops)
  then show ?case by (cases op) (auto simp: emit_all_def)
qed (simp add: emit_all_def)

lemma gauge_untouched:
  "increments ActiveRequests (RecordGatewayRequest c d []) = []" "increments ActiveRequests (RecordError e []) = []"
  "increments ActiveRequests (RecordTrafficIO h n out []) = []" "increments ActiveRequests (RecordRequest m cat d q r []) = []"
  by (simp_all add: RecordGatewayRequest_def RecordError_def RecordTrafficIO_def RecordRequest_def Let_def)

lemma quiet_sources:
  assumes "gateway_sources_prog E cfg = (src, rec)"
  shows "quiet i (src host)" "quiet i (rec host n out)"
  using assms
  by (auto simp: gateway_sources_prog_def StaticMapURLSource_prog_def RedisTargetURL_prog_def
      RecordTraffic_prog_def NoOpRecordTraffic_prog_def Let_def split: if_splits sum.splits option.splits)

lemma quiet_relay: "(\<And>h. quiet ActiveRequests (src h)) \<Longrightarrow> quiet ActiveRequests (Relay_prog E t src host body ct m)"
  by (auto simp: Relay_prog_def gauge_untouched split: sum.split do_result.split)

lemma quiet_key: "(\<And>h. quiet i (src h)) \<Longrightarrow> quiet i (NewHttpKeyConfigSource_prog E t src host)"
  by (auto simp: NewHttpKeyConfigSource_prog_def Let_def split: sum.split do_result.split)

definition quiet_server :: "prog_server \<Rightarrow> bool" where
  "quiet_server ps \<longleftrightarrow>
     (\<forall>host body ct m. quiet ActiveRequests (ps_relayer ps host body ct m))
     \<and> (\<forall>host. quiet ActiveRequests (ps_keyConfigSource ps host))
     \<and> (\<forall>rec host n out. ps_trafficMetrics ps = Some rec \<longrightarrow> quiet ActiveRequests (rec host n out))"

lemma server_prog_quiet: "quiet_server (server_prog E cfg)"
  by (auto simp: quiet_server_def server_prog_def quiet_sources intro!: quiet_relay quiet_key split: prod.split)

lemma quiet_respondKeyConfig: "quiet_server ps \<Longrightarrow> quiet ActiveRequests (respondKeyConfig_prog lc ps v st)"
  by (auto simp: respondKeyConfig_prog_def quiet_server_def Let_def split: sum.split)

lemma quiet_forwardAndRespond: "quiet_server ps \<Longrightarrow> quiet ActiveRequests (forwardAndRespond_prog ps st)"
  by (auto simp: forwardAndRespond_prog_def quiet_server_def gauge_untouched Let_def
      split: sum.split prod.split option.split)

lemma quiet_dispatch:
  assumes "quiet_server ps"
  shows "quiet ActiveRequests (dispatch_prog lc ps req p)"
proof (cases req)
  case (RequestHeaders v)
  have "quiet ActiveRequests (on_request_headers_prog lc ps v (pr_st p))"
    unfolding on_request_headers_prog_def Let_def
    by (simp add: quiet_andThen quiet_respondKeyConfig [OF assms])
  with RequestHeaders show ?thesis by (auto simp: dispatch_prog_def)
next
  case (RequestBody v)
  have "quiet ActiveRequests (on_request_body_prog ps v st)" for st
    by (auto simp: on_request_body_prog_def Let_def quiet_forwardAndRespond [OF assms])
  with RequestBody show ?thesis by (auto simp: dispatch_prog_def Let_def)
qed (simp_all add: dispatch_prog_def)

lemma quiet_send_responses: "quiet ActiveRequests (send_responses_prog rs p)"
  by (induction rs arbitrary: p) (simp_all add: gauge_untouched Let_def split: option.split)

lemma quiet_process_step: "quiet_server ps \<Longrightarrow> quiet ActiveRequests (process_step_prog lc ps ev p)"
  by (auto simp: process_step_prog_def gauge_untouched quiet_dispatch quiet_send_responses
      split: stream_event.split sum.split option.split)

lemma quiet_process_loop: "quiet_server ps \<Longrightarrow> quiet ActiveRequests (process_loop_prog lc ps evs p)"
  by (induction evs arbitrary: p) (auto simp: quiet_process_step split: control.split)

text \<open>
  The gauge of a thread is 1 at every point before the program returns, and what \<open>f\<close> says of
  the result afterwards; \<open>c\<close> is its value now.
\<close>

primrec held :: "('a \<Rightarrow> int64) \<Rightarrow> int64 \<Rightarrow> 'a prog \<Rightarrow> bool" where
  "held f c (Ret a) = (c = f a)"
| "held f c (Clock k) = (c = 1 \<and> (\<forall>t. held f c (k t)))"
| "held f c (Fetch t req k) = (c = 1 \<and> (\<forall>r. held f c (k r)))"
| "held f c (Lookup rdb t key field k) = (c = 1 \<and> (\<forall>r. held f c (k r)))"
| "held f c (Exec rdb cmds k) = (c = 1 \<and> (\<forall>r. held f c (k r)))"
| "held f c (Emit op k) = (c = 1 \<and> held f (c + counter_value ActiveRequests [op]) k)"
| "held f c (Reply resp k) = (c = 1 \<and> (\<forall>r. held f c (k r)))"

lemma held_andThen: "quiet ActiveRequests m \<Longrightarrow> (\<And>a. held f 1 (k a)) \<Longrightarrow> held f 1 (andThen m k)"
  by (induction m) (simp_all add: counter_value_def)

lemma held_emit_all: "increments ActiveRequests ops = [] \<Longrightarrow> held f 1 k \<Longrightarrow> held f 1 (emit_all ops k)"
proof (induction ops)
  case (Cons op ops)
  have "increments ActiveRequests [op] = []" "increments ActiveRequests ops = []"
    using Cons.prems(1) increments_append [of ActiveRequests "[op]" ops] by simp_all
  with Cons.IH [OF this(2) Cons.prems(2)] show ?case by (simp add: emit_all_def counter_value_def)
qed (simp add: emit_all_def)

lemma held_call: "follow m [e] = Some m' \<Longrightarrow> held f c m \<Longrightarrow> held f (c + counter_value ActiveRequests (emitted [e])) m'"
  by (cases m; cases e) (auto split: if_splits)

lemma held_follow:
  "follow m tr = Some m' \<Longrightarrow> held f c m \<Longrightarrow> held f (c + counter_value ActiveRequests (emitted tr)) m'"
proof (induction tr arbitrary: m c)
  case (Cons e tr)
  obtain m1 where "follow m [e] = Some m1" "follow m1 tr = Some m'"
    using Cons.prems(1) follow_append [of m "[e]" tr] by (auto split: option.splits)
  with Cons.IH held_call Cons.prems(2)
  have "held f (c + counter_value ActiveRequests (emitted [e]) + counter_value ActiveRequests (emitted tr)) m'" by blast
  then show ?case using trace_append(1) [of "[e]" tr] by (simp add: add.assoc)
qed simp

definition th_returned :: "('r option \<times> 'p) thread \<Rightarrow> bool" where
  "th_returned th \<longleftrightarrow> (case th_prog th of Ret (Some r, p) \<Rightarrow> True | _ \<Rightarrow> False)"

definition th_open :: "('r option \<times> 'p) thread \<Rightarrow> bool" where
  "th_open th \<longleftrightarrow> th_trace th \<noteq> [] \<and> \<not> th_returned th"

lemma thread_gauge:
  assumes "follow (stream_prog E cfg evs) tr = Some m"
  shows "counter_value ActiveRequests (emitted tr) = (if th_open \<lparr>th_prog = m, th_trace = tr\<rparr> then 1 else 0)"
proof (cases tr)
  case Nil
  then show ?thesis by (simp add: th_open_def)
next
  case (Cons c tr')
  let ?f = "\<lambda>v :: go_error option option \<times> proc. if fst v = None then 1 else 0 :: int64"
  obtain k where k: "stream_prog E cfg evs = Emit (AddInt64 ActiveRequests 1 []) k"
    by (simp add: stream_prog_def Process_prog_def)
  then have held: "held ?f 1 k"
    by (auto simp: stream_prog_def Process_prog_def Let_def gauge_untouched quiet_process_loop [OF server_prog_quiet]
        intro!: held_andThen held_emit_all split: option.split)
  have c: "c = EEmit (AddInt64 ActiveRequests 1 [])" and m: "follow k tr' = Some m"
    using assms k Cons by (cases c; auto split: if_splits)+
  have "held ?f (counter_value ActiveRequests (emitted tr)) m"
    using held_follow [OF m held] by (simp add: Cons c)
  then show ?thesis
    by (cases m) (auto simp: th_open_def th_returned_def Cons split: option.splits)
qed

end
