(* ===== verification/Concurrency.thy ===== *)
theory Concurrency
  imports Threads
begin

text \<open>
  Properties of concurrent streams, for every schedule of their calls: the requests that leave
  the relay, the shared counters, the independence of streams from each other, and that every
  stream that ends returns when the scheduler is fair. The streams share the metrics, the
  gateways and Redis; nothing is assumed of how these react to the interleaving, except where
  a theorem says so.
\<close>

section \<open>Isolation\<close>

text \<open>
  An environment whose answers depend on the call only: \<open>g\<close> for gateways, \<open>l\<close> for Redis
  lookups and \<open>sr\<close> for sending. A program settles on \<open>v\<close> when it returns \<open>v\<close> whatever the
  clock says and whatever Redis answers to its pipelines.
\<close>

primrec settles ::
  "(duration \<Rightarrow> http_request \<Rightarrow> do_result) \<Rightarrow>
   (redis_options \<Rightarrow> duration \<Rightarrow> string \<Rightarrow> string \<Rightarrow> string result) \<Rightarrow>
   (ProcessingResponse \<Rightarrow> go_error option) \<Rightarrow> 'a prog \<Rightarrow> 'a \<Rightarrow> bool" where
  "settles g l sr (Ret a) v = (a = v)"
| "settles g l sr (Clock k) v = (\<forall>t. settles g l sr (k t) v)"
| "settles g l sr (Fetch t req k) v = settles g l sr (k (g t req)) v"
| "settles g l sr (Lookup rdb t key field k) v = settles g l sr (k (l rdb t key field)) v"
| "settles g l sr (Exec rdb cmds k) v = (\<forall>r. settles g l sr (k r) v)"
| "settles g l sr (Emit op k) v = settles g l sr k v"
| "settles g l sr (Reply resp k) v = settles g l sr (k (sr resp)) v"

lemma settles_andThen: "settles g l sr m a \<Longrightarrow> settles g l sr (k a) v \<Longrightarrow> settles g l sr (andThen m k) v"
  by (induction m) auto

lemma settles_discard [simp]: "settles g l sr (andThen m (\<lambda>_. Ret v)) v"
  by (induction m) auto

lemma settles_emit_all [simp]: "settles g l sr (emit_all ops k) v = settles g l sr k v"
  by (induction ops) (simp_all add: emit_all_def)

text \<open>The value a program settles on, if it settles: its result when the clock says 0.\<close>

primrec verdict ::
  "(duration \<Rightarrow> http_request \<Rightarrow> do_result) \<Rightarrow>
   (redis_options \<Rightarrow> duration \<Rightarrow> string \<Rightarrow> string \<Rightarrow> string result) \<Rightarrow>
   (ProcessingResponse \<Rightarrow> go_error option) \<Rightarrow> 'a prog \<Rightarrow> 'a" where
  "verdict g l sr (Ret a) = a"
| "verdict g l sr (Clock k) = verdict g l sr (k 0)"
| "verdict g l sr (Fetch t req k) = verdict g l sr (k (g t req))"
| "verdict g l sr (Lookup rdb t key field k) = verdict g l sr (k (l rdb t key field))"
| "verdict g l sr (Exec rdb cmds k) = verdict g l sr (k None)"
| "verdict g l sr (Emit op k) = verdict g l sr k"
| "verdict g l sr (Reply resp k) = verdict g l sr (k (sr resp))"

abbreviation settled where
  "settled g l sr m \<equiv> settles g l sr m (verdict g l sr m)"

lemma verdict_andThen [simp]: "verdict g l sr (andThen m k) = verdict g l sr (k (verdict g l sr m))"
  by (induction m) simp_all

lemma verdict_emit_all [simp]: "verdict g l sr (emit_all ops k) = verdict g l sr k"
  by (induction ops) (simp_all add: emit_all_def)

text \<open>Every stream settles.\<close>

lemma settled_sources:
  assumes "gateway_sources_prog E cfg = (src, rec)"
  shows "settled g l sr (src host)"
  using assms
  by (auto simp: gateway_sources_prog_def StaticMapURLSource_prog_def RedisTargetURL_prog_def Let_def
      split: if_splits sum.splits)

lemma settled_relay:
  assumes "settled g l sr (src host)"
  shows "settled g l sr (Relay_prog E t src host body ct m)"
  by (auto simp: Relay_prog_def intro!: settles_andThen [OF assms] split: sum.split do_result.split)

lemma settled_key:
  assumes "settled g l sr (src host)"
  shows "settled g l sr (NewHttpKeyConfigSource_prog E t src host)"
  unfolding NewHttpKeyConfigSource_prog_def verdict_andThen
  by (rule settles_andThen [OF assms]) (simp add: Let_def split: sum.split do_result.split)

locale settled_server =
  fixes g l sr and ps :: prog_server
  assumes relayer_settled: "settled g l sr (ps_relayer ps host body ct m)"
    and key_settled: "settled g l sr (ps_keyConfigSource ps host)"
begin

lemma respondKeyConfig_settled: "settled g l sr (respondKeyConfig_prog lc ps v st)"
  by (auto simp: respondKeyConfig_prog_def Let_def intro!: settles_andThen [OF key_settled] split: sum.split)

lemma forwardAndRespond_settled: "settled g l sr (forwardAndRespond_prog ps st)"
proof (cases "st_configRequest st")
  case False
  then show ?thesis
    unfolding forwardAndRespond_prog_def Let_def
    by (simp only: if_False verdict_andThen, intro settles_andThen [OF relayer_settled])
      (simp split: sum.split prod.split option.split)
qed (simp add: forwardAndRespond_prog_def)

lemma on_request_headers_settled: "settled g l sr (on_request_headers_prog lc ps v st)"
  unfolding on_request_headers_prog_def Let_def
  by (simp add: settles_andThen [OF respondKeyConfig_settled])

lemma on_request_body_settled: "settled g l sr (on_request_body_prog ps v st)"
  by (auto simp: on_request_body_prog_def Let_def intro!: settles_andThen [OF forwardAndRespond_settled])

lemma dispatch_settled: "settled g l sr (dispatch_prog lc ps req p)"
  by (cases req)
    (auto simp: dispatch_prog_def Let_def split: prod.split
      intro!: settles_andThen [OF on_request_headers_settled] settles_andThen [OF on_request_body_settled])

lemma send_responses_settled: "settled g l sr (send_responses_prog rs p)"
  by (induction rs arbitrary: p) (simp_all add: Let_def split: option.split)

lemma process_step_settled: "settled g l sr (process_step_prog lc ps ev p)"
  by (auto simp: process_step_prog_def send_responses_settled intro!: settles_andThen [OF dispatch_settled]
      split: stream_event.split sum.split option.split prod.split)

lemma process_loop_settled: "settled g l sr (process_loop_prog lc ps evs p)"
  by (induction evs arbitrary: p)
    (auto intro!: settles_andThen [OF process_step_settled] split: control.split prod.split)

lemma Process_settled: "settled g l sr (Process_prog lc ps evs)"
  by (auto simp: Process_prog_def Let_def intro!: settles_andThen [OF process_loop_settled]
      split: option.split prod.split)

end

text \<open>The server of every configuration.\<close>

interpretation config_server: settled_server g l sr "server_prog E cfg" for g l sr E cfg
proof
  fix host body ct m
  obtain src rec where s: "gateway_sources_prog E cfg = (src, rec)" by fastforce
  show "settled g l sr (ps_relayer (server_prog E cfg) host body ct m)"
    "settled g l sr (ps_keyConfigSource (server_prog E cfg) host)"
    by (simp_all add: server_prog_def s settled_relay settled_key settled_sources [OF s])
qed

lemma stream_settled: "settled g l sr (stream_prog E cfg evs)"
  unfolding stream_prog_def by (rule config_server.Process_settled)


text \<open>An environment whose answers depend on the call and not on what was called before.\<close>

definition steady :: "'x externals \<Rightarrow> (nat \<Rightarrow> 'x SendFn) \<Rightarrow> bool" where
  "steady E send \<longleftrightarrow>
     (\<forall>t req x y. fst (http_do E t req x) = fst (http_do E t req y))
     \<and> (\<forall>rdb t key field x y. fst (redis_hget E rdb t key field x) = fst (redis_hget E rdb t key field y))
     \<and> (\<forall>i resp x y. fst (send i resp x) = fst (send i resp y))"

abbreviation steadily where
  "steadily E send x \<equiv>
     settles (\<lambda>t req. fst (http_do E t req x)) (\<lambda>rdb t key field. fst (redis_hget E rdb t key field x))
       (\<lambda>resp. fst (send resp x))"

lemma steady_step:
  assumes "steady E send" and "call_step E (send i) m w = Some (c, m', w')"
    and "steadily E (send i) x m v"
  shows "steadily E (send i) x m' v"
proof -
  have g: "fst (http_do E t req y) = fst (http_do E t req x)"
    and l: "fst (redis_hget E rdb t key field y) = fst (redis_hget E rdb t key field x)"
    and s: "fst (send i resp y) = fst (send i resp x)" for t req rdb key field resp y
    using assms(1) unfolding steady_def by metis+
  show ?thesis
    using assms(2,3)
    by (cases m) (auto simp: Now_def Do_def HGet_def Pipeline_Exec_def Send_def g [of _ _ "env w", symmetric]
        l [of _ _ _ _ "env w", symmetric] s [of _ "env w", symmetric] split: prod.splits)
qed

lemma steady_run:
  assumes "steady E send"
    and "steadily E (send i) x m v"
  shows "fst (run E (send i) m w) = v"
  using assms(2)
proof (induction m arbitrary: w)
  case (Ret a)
  then show ?case by simp
next
  case (Clock k)
  then show ?case by (auto split: prod.split)
next
  case (Fetch t req k)
  then show ?case
    using steady_step [OF assms(1), of i "Fetch t req k" w] by (fastforce split: prod.split)
next
  case (Lookup rdb t key field k)
  then show ?case
    using steady_step [OF assms(1), of i "Lookup rdb t key field k" w] by (fastforce split: prod.split)
next
  case (Exec rdb cmds k)
  then show ?case by (auto split: prod.split)
next
  case (Emit op k)
  then show ?case by simp
next
  case (Reply resp k)
  then show ?case
    using steady_step [OF assms(1), of i "Reply resp k" w] by (fastforce split: prod.split)
qed

lemma steady_exec:
  assumes "steady E send" and "exec E send sched (threads ms, w) = (ths, w')"
    and "\<And>i. i < length ms \<Longrightarrow>
      steadily E (send i) x (ms ! i) (v i)"
  shows "\<forall>i < length ms.
      steadily E (send i) x (th_prog (ths ! i)) (v i)"
proof -
  have "length ths = length ms \<and> (\<forall>i < length ms.
      steadily E (send i) x (th_prog (ths ! i)) (v i))"
    using assms(2)
  proof (induction rule: exec_induct)
    case (step ths w i c m w')
    then show ?case using steady_step [OF assms(1) step.hyps(2)] by (auto simp: nth_list_update)
  qed (simp add: threads_def assms(3))
  then show ?thesis by blast
qed


section \<open>Fairness\<close>

text \<open>Induction along the calls of a program.\<close>

lemma prog_call_induct:
  assumes "\<And>m. (\<And>i w c m' w'. call_step E (send i) m w = Some (c, m', w') \<Longrightarrow> P m') \<Longrightarrow> P m"
  shows "P m"
  by (induction m; rule assms) (auto split: prod.splits)

abbreviation after where
  "after E send \<sigma> s n \<equiv> exec E send (map \<sigma> [0..<n]) s"

lemma after_Suc: "after E send \<sigma> s (Suc n) = exec1 E send (\<sigma> n) (after E send \<sigma> s n)"
  by (simp add: exec_def)

lemma exec1_other:
  "i \<noteq> j \<Longrightarrow> fst (exec1 E send j s) ! i = fst s ! i"
  "is_Ret (th_prog (fst s ! i)) \<Longrightarrow> fst (exec1 E send j s) ! i = fst s ! i"
  "length (fst (exec1 E send j s)) = length (fst s)"
  by (auto simp: exec1_def nth_list_update split: prod.split option.split)

lemma after_length: "length (fst (after E send \<sigma> s n)) = length (fst s)"
  by (induction n) (simp_all add: after_Suc exec1_other(3) del: upt_Suc, simp add: exec_def)

text \<open>The next time a thread is scheduled.\<close>

lemma next_turn:
  assumes "\<exists>n' \<ge> n. \<sigma> n' = i"
  shows "\<exists>n' \<ge> n. \<sigma> n' = i \<and> fst (after E send \<sigma> s n') ! i = fst (after E send \<sigma> s n) ! i"
proof -
  define k where "k = (LEAST n'. n \<le> n' \<and> \<sigma> n' = i)"
  have k: "n \<le> k" "\<sigma> k = i" using LeastI_ex [of "\<lambda>n'. n \<le> n' \<and> \<sigma> n' = i"] assms by (auto simp: k_def)
  have "fst (after E send \<sigma> s j) ! i = fst (after E send \<sigma> s n) ! i" if "n \<le> j" "j \<le> k" for j
    using that
  proof (induction rule: dec_induct)
    case (step j)
    have "\<sigma> j \<noteq> i" using not_less_Least [of j "\<lambda>n'. n \<le> n' \<and> \<sigma> n' = i"] step by (auto simp: k_def)
    then show ?case using step by (simp add: after_Suc exec1_other(1) del: upt_Suc)
  qed simp
  with k show ?thesis by blast
qed

lemma fair_thread:
  assumes "\<And>n. \<exists>n' \<ge> n. \<sigma> n' = i" and "i < length (fst s)"
  shows "\<exists>n' \<ge> n. is_Ret (th_prog (fst (after E send \<sigma> s n') ! i))"
proof -
  have "\<exists>n' \<ge> n. is_Ret (th_prog (fst (after E send \<sigma> s n') ! i))"
    if "th_prog (fst (after E send \<sigma> s n) ! i) = m" for m n
    using that
  proof (induction m arbitrary: n rule: prog_call_induct [of E send])
    case (1 m)
    obtain k where k: "k \<ge> n" "\<sigma> k = i" "fst (after E send \<sigma> s k) ! i = fst (after E send \<sigma> s n) ! i"
      using next_turn [OF assms(1)] by blast
    obtain ths w where a: "after E send \<sigma> s k = (ths, w)" by fastforce
    have i: "i < length ths" using after_length [where n = k and s = s] a assms(2) by (metis fst_conv)
    have m: "th_prog (ths ! i) = m" using k(3) a 1(2) by simp
    show ?case
    proof (cases "call_step E (send i) m w")
      case None
      then show ?thesis using k(1) a m by (auto simp: call_step_None)
    next
      case (Some x)
      obtain c m' w' where x: "call_step E (send i) m w = Some (c, m', w')" using Some by (cases x) auto
      have "th_prog (fst (after E send \<sigma> s (Suc k)) ! i) = m'"
        using a i m x k(2) by (simp add: after_Suc exec1_def del: upt_Suc)
      from 1(1) [OF x this] k(1) show ?thesis by (meson Suc_leD le_trans)
    qed
  qed
  then show ?thesis by blast
qed

text \<open>A thread that has returned stays as it is.\<close>

lemma after_stable:
  assumes "is_Ret (th_prog (fst (after E send \<sigma> s n) ! i))" and "n \<le> n'"
  shows "fst (after E send \<sigma> s n') ! i = fst (after E send \<sigma> s n) ! i"
  using assms(2)
proof (induction rule: dec_induct)
  case (step j)
  then show ?case using assms(1) exec1_other(2) [of "after E send \<sigma> s j" i] by (simp add: after_Suc del: upt_Suc)
qed simp

lemma fair_all:
  assumes "\<forall>i < length (fst s). \<forall>n. \<exists>n' \<ge> n. \<sigma> n' = i"
  shows "\<exists>n. \<forall>n' \<ge> n. \<forall>i < length (fst s). is_Ret (th_prog (fst (after E send \<sigma> s n') ! i))"
proof -
  have "\<forall>i. \<exists>n. i < length (fst s) \<longrightarrow> is_Ret (th_prog (fst (after E send \<sigma> s n) ! i))"
    using fair_thread [where n = 0] assms by blast
  then have "\<exists>f. \<forall>i. i < length (fst s) \<longrightarrow> is_Ret (th_prog (fst (after E send \<sigma> s (f i)) ! i))"
    by (rule choice)
  then obtain f where f: "\<And>i. i < length (fst s) \<Longrightarrow> is_Ret (th_prog (fst (after E send \<sigma> s (f i)) ! i))" by blast
  have "is_Ret (th_prog (fst (after E send \<sigma> s n') ! i))" if "(\<Sum>i < length (fst s). f i) \<le> n'" "i < length (fst s)" for n' i
  proof -
    have "f i \<le> (\<Sum>i < length (fst s). f i)" using that(2) by (intro member_le_sum) auto
    then have "f i \<le> n'" using that(1) by simp
    from after_stable [OF f [OF that(2)] this] f [OF that(2)] show ?thesis by simp
  qed
  then show ?thesis by blast
qed



section \<open>Many streams of one relay\<close>

text \<open>Streams of a relay before any of them has made a call.\<close>

definition streams ::
  "'x externals \<Rightarrow> ConfigT \<Rightarrow> stream_event list list \<Rightarrow> (go_error option option \<times> proc) thread list" where
  "streams E cfg evss = threads (map (stream_prog E cfg) evss)"

text \<open>A thread that has not started or has no call left.\<close>

definition th_at_rest :: "'a thread \<Rightarrow> bool" where
  "th_at_rest th \<longleftrightarrow> th_trace th = [] \<or> is_Ret (th_prog th)"

lemma th_returned_Ret: "th_returned th \<Longrightarrow> is_Ret (th_prog th)"
  by (cases "th_prog th") (simp_all add: th_returned_def)

lemma th_returned_rest: "th_returned th \<Longrightarrow> th_at_rest th"
  by (simp add: th_at_rest_def th_returned_Ret)

text \<open>A stream that returned a gRPC error.\<close>

definition th_failed :: "(go_error option option \<times> proc) thread \<Rightarrow> bool" where
  "th_failed th \<longleftrightarrow> (case th_prog th of Ret (Some r, p) \<Rightarrow> counted (Return r) = 1 | _ \<Rightarrow> False)"

lemma streams_follow:
  assumes "exec E send sched (streams E cfg evss, w) = (ths, w')"
  shows "length ths = length evss"
    "i < length evss \<Longrightarrow> follow (stream_prog E cfg (evss ! i)) (th_trace (ths ! i)) = Some (th_prog (ths ! i))"
  using exec_follow [OF assms [unfolded streams_def]] by simp_all

lemma streams_member:
  assumes "exec E send sched (streams E cfg evss, w) = (ths, w')" and "th \<in> set ths"
  shows "\<exists>evs \<in> set evss. follow (stream_prog E cfg evs) (th_trace th) = Some (th_prog th)"
  using streams_follow [OF assms(1)] assms(2) by (metis in_set_conv_nth nth_mem)

lemma sum_list_count: "(\<Sum>x\<leftarrow>xs. if P x then 1 else 0 :: int64) = of_nat (length (filter P xs))"
  by (induction xs) simp_all

lemma counted_alt: "counted c = (if counted c = 1 then 1 else 0)"
  by (simp add: counted_def split: control.split option.split go_error.split)

lemma rest_counters:
  assumes "follow (stream_prog E cfg evs) (th_trace th) = Some (th_prog th)" and "list_all ctx_ok evs" and "th_at_rest th"
  shows "counter_value RequestsTotal (emitted (th_trace th)) = (if th_returned th then 1 else 0)"
    "counter_value ErrorsTotal (emitted (th_trace th)) = (if th_failed th then 1 else 0)"
proof -
  have "counter_value RequestsTotal (emitted (th_trace th)) = (if th_returned th then 1 else 0)
    \<and> counter_value ErrorsTotal (emitted (th_trace th)) = (if th_failed th then 1 else 0)"
  proof (cases "th_trace th = []")
    case True
    then have "th_prog th = stream_prog E cfg evs" using assms(1) by simp
    then show ?thesis using True by (simp add: th_returned_def th_failed_def stream_prog_def Process_prog_def)
  next
    case False
    then obtain r p where m: "th_prog th = Ret (r, p)"
      using assms(3) by (cases "th_prog th") (auto simp: th_at_rest_def)
    from thread_counters [OF assms(1) [unfolded m] assms(2)] counted_alt m show ?thesis
      by (cases r) (auto simp: th_returned_def th_failed_def)
  qed
  then show "counter_value RequestsTotal (emitted (th_trace th)) = (if th_returned th then 1 else 0)"
    "counter_value ErrorsTotal (emitted (th_trace th)) = (if th_failed th then 1 else 0)" by simp_all
qed

lemma streams_counter:
  assumes "exec E send sched (streams E cfg evss, w) = (ths, w')"
    and "\<And>th. th \<in> set ths \<Longrightarrow> counter_value j (emitted (th_trace th)) = (if P th then 1 else 0)"
  shows "counter_value j (metrics_log w') = counter_value j (metrics_log w) + of_nat (length (filter P ths))"
proof -
  have "(\<Sum>th\<leftarrow>ths. counter_value j (emitted (th_trace th))) = (\<Sum>th\<leftarrow>ths. if P th then 1 else 0)"
    using assms(2) by (intro arg_cong [of _ _ sum_list] map_cong) auto
  with exec_shared(1) [OF assms(1) [unfolded streams_def]] show ?thesis by (simp add: sum_list_count)
qed

text \<open>The responses a thread has sent when it has no call left.\<close>

definition th_sent :: "('r \<times> proc) thread \<Rightarrow> ProcessingResponse list" where
  "th_sent th = (case th_prog th of Ret (r, p) \<Rightarrow> pr_sent p | _ \<Rightarrow> [])"

lemma fair_returned:
  assumes "\<forall>i < length evss. \<forall>n. \<exists>n' \<ge> n. \<sigma> n' = i" and "list_all (list_ex ends_stream) evss"
  shows "\<exists>n. \<forall>n' \<ge> n. list_all th_returned (fst (after E send \<sigma> (streams E cfg evss, w) n'))"
proof -
  let ?s = "(streams E cfg evss, w)"
  have l: "length (fst ?s) = length evss" by (simp add: streams_def threads_def)
  then obtain n where n: "\<And>n' i. n' \<ge> n \<Longrightarrow> i < length evss \<Longrightarrow> is_Ret (th_prog (fst (after E send \<sigma> ?s n') ! i))"
    using fair_all [of ?s \<sigma>] assms(1) by metis
  have "list_all th_returned (fst (after E send \<sigma> ?s n'))" if "n' \<ge> n" for n'
  proof -
    obtain ths w' where a: "after E send \<sigma> ?s n' = (ths, w')" by fastforce
    have "th_returned (ths ! i)" if i: "i < length evss" for i
    proof -
      obtain r p where m: "th_prog (ths ! i) = Ret (r, p)"
        using n [OF \<open>n' \<ge> n\<close> i] a by (cases "th_prog (ths ! i)") auto
      have "list_ex ends_stream (evss ! i)" using assms(2) i by (simp add: list_all_length)
      then have "r \<noteq> None"
        by (rule_tac follow_returned [OF streams_follow(2) [OF a i, unfolded m]]) (metis Process_ends fst_conv)
      with m show ?thesis by (auto simp: th_returned_def)
    qed
    with streams_follow(1) [OF a] a show ?thesis by (simp add: list_all_length)
  qed
  then show ?thesis by blast
qed


section \<open>Properties\<close>

text \<open>
  Cutting the handler at its calls loses nothing. Performing the calls of the program of a
  stream one after the other gives the return value, the local state, the responses, the
  requests, the metrics and the Redis traffic of the sequential \<open>Process\<close>, for the handler
  set up from any configuration and in every environment.
\<close>

lemma stream_prog_equivalent:
  assumes "setup_relay E cfg w0 = (Inr runner, w1)"
  shows "run E send (stream_prog E cfg evs) w =
    (case Process E send (runner_handler runner) evs w of (r, p, w') \<Rightarrow> ((r, p), w'))"
  using assms by (rule stream_prog_run)

lemma stream_prog_equivalent_example:
  "\<exists>runner w1. setup_relay example_externals example_config example_world = (Inr runner, w1)
     \<and> run example_externals example_send
         (stream_prog example_externals example_config [example_headers ''POST'' [], body_event ''opaque'' True]) w1 =
       (case Process example_externals example_send (runner_handler runner)
              [example_headers ''POST'' [], body_event ''opaque'' True] w1 of (r, p, w') \<Rightarrow> ((r, p), w'))"
  using example_setup stream_prog_equivalent by metis

text \<open>
  C8: what leaves a relay under concurrency. For any number of streams and any interleaving
  of their single calls, at every moment all requests sent to gateways are clean: a key
  configuration request, or a body within the limit under a header that holds a content type
  and an empty user agent only. There are at most as many requests as stream events.
\<close>

theorem concurrent_requests_clean:
  assumes "setup_relay E cfg w0 = (Inr runner, w1)" and "0 \<le> sint (MaxRequestBodySize cfg)"
    and "list_all (list_all (size_ok (runner_handler runner))) evss"
    and "exec E send sched (streams E cfg evss, w) = (ths, w')"
  shows "\<exists>reqs. outbound w' = outbound w @ reqs \<and> length reqs \<le> (\<Sum>evs\<leftarrow>evss. length evs)
     \<and> list_all (clean_request (\<lambda>b. int (length b) \<le> sint (MaxRequestBodySize cfg))) reqs"
proof -
  note f = streams_follow [OF assms(4)]
  have t: "length (fetched (th_trace (ths ! i))) \<le> length (evss ! i)"
    "list_all (clean_request (\<lambda>b. int (length b) \<le> sint (MaxRequestBodySize cfg))) (fetched (th_trace (ths ! i)))"
    if "i < length evss" for i
    using thread_requests [OF f(2) [OF that] assms(2) _ handler_limit [OF assms(1)]] assms(3) that
    by (simp_all add: list_all_length)
  obtain reqs where r: "outbound w' = outbound w @ reqs" "mset reqs = (\<Sum>th\<leftarrow>ths. mset (fetched (th_trace th)))"
    using exec_shared(2) [OF assms(4) [unfolded streams_def]] by blast
  have m: "mset reqs = mset (concat (map (\<lambda>th. fetched (th_trace th)) ths))"
    using r(2) by (simp add: mset_concat comp_def)
  have "length reqs = (\<Sum>th\<leftarrow>ths. length (fetched (th_trace th)))"
    using mset_eq_length [OF m] by (simp add: length_concat comp_def)
  also have "\<dots> \<le> (\<Sum>evs\<leftarrow>evss. length evs)"
    unfolding sum_list_sum_nth using t(1) f(1) by (simp add: atLeast0LessThan) (rule sum_mono, simp)
  finally have "length reqs \<le> (\<Sum>evs\<leftarrow>evss. length evs)" .
  moreover have "list_all (clean_request (\<lambda>b. int (length b) \<le> sint (MaxRequestBodySize cfg))) reqs"
    using mset_eq_setD [OF m] t(2) f(1) by (fastforce simp: list_all_iff in_set_conv_nth)
  ultimately show ?thesis using r(1) by blast
qed


text \<open>Two streams for the examples: one relays a body, the other ends at once.\<close>

definition example_streams :: "stream_event list list" where
  "example_streams =
     [[example_headers ''POST'' [], body_event ''opaque'' True, Recv (Inl EOF)], [Recv (Inl (LibraryError ''reset''))]]"

lemma example_streams_ok:
  "list_all (list_all ctx_ok) example_streams" "list_all (list_ex ends_stream) example_streams"
  "sv_maxRequestBodySize s = 10 \<Longrightarrow> list_all (list_all (size_ok s)) example_streams"
  by (simp_all add: example_streams_def ctx_ok_def ends_stream_def size_ok_def example_headers_def body_event_def)

text \<open>A fair schedule of two threads.\<close>

definition alternate :: "nat \<Rightarrow> nat" where
  "alternate n = n mod 2"

lemma alternate_fair: "\<forall>i < length example_streams. \<forall>n. \<exists>n' \<ge> n. alternate n' = i"
proof (intro allI impI)
  fix i n :: nat
  assume "i < length example_streams"
  then have "alternate (2 * n + i) = i" by (simp add: example_streams_def alternate_def)
  then show "\<exists>n' \<ge> n. alternate n' = i" by (intro exI [of _ "2 * n + i"]) simp
qed

lemma example_run:
  obtains sched ths w' where
    "exec example_externals (\<lambda>_. example_send) sched (streams example_externals example_config example_streams, w) = (ths, w')"
    "list_all th_returned ths" "length ths = 2"
proof -
  obtain n where "list_all th_returned
      (fst (after example_externals (\<lambda>_. example_send) alternate (streams example_externals example_config example_streams, w) n))"
    using fair_returned [OF alternate_fair example_streams_ok(2)] by blast
  then obtain ths w' where e: "exec example_externals (\<lambda>_. example_send) (map alternate [0..<n])
      (streams example_externals example_config example_streams, w) = (ths, w')" and "list_all th_returned ths"
    by (metis prod.collapse)
  moreover have "length ths = 2" using streams_follow(1) [OF e] by (simp add: example_streams_def)
  ultimately show thesis using that by blast
qed

theorem concurrent_requests_clean_witness:
  "\<exists>runner w1 sched ths w' reqs. setup_relay example_externals example_config example_world = (Inr runner, w1)
     \<and> exec example_externals (\<lambda>_. example_send) sched (streams example_externals example_config example_streams, w1) = (ths, w')
     \<and> list_all th_returned ths \<and> outbound w' = outbound w1 @ reqs
     \<and> list_all (clean_request (\<lambda>b. int (length b) \<le> 10)) reqs"
proof -
  obtain runner w1 where s: "setup_relay example_externals example_config example_world = (Inr runner, w1)"
    using example_setup by blast
  obtain sched ths w' where e: "exec example_externals (\<lambda>_. example_send) sched
      (streams example_externals example_config example_streams, w1) = (ths, w')" "list_all th_returned ths"
    by (rule example_run)
  have mx: "MaxRequestBodySize example_config = 10" by (simp add: example_config_def)
  from concurrent_requests_clean [OF s _ example_streams_ok(3) e(1)] handler_limit [OF s] mx s e show ?thesis by auto
qed

text \<open>
  C7: the shared metrics are exact under concurrency. For any number of streams and any
  interleaving of their single calls, the gauge of active requests is at every moment its
  initial value plus the number of streams that have started and not returned. Whenever no
  stream is between two calls, the request counter has risen by the number of streams that
  returned, and the error counter by the number that returned a gRPC error.
\<close>

theorem concurrent_metrics_exact:
  assumes "exec E send sched (streams E cfg evss, w) = (ths, w')" and "list_all (list_all ctx_ok) evss"
  shows "counter_value ActiveRequests (metrics_log w') =
       counter_value ActiveRequests (metrics_log w) + of_nat (length (filter th_open ths))
     \<and> (list_all th_at_rest ths \<longrightarrow>
         counter_value RequestsTotal (metrics_log w') =
           counter_value RequestsTotal (metrics_log w) + of_nat (length (filter th_returned ths))
         \<and> counter_value ErrorsTotal (metrics_log w') =
           counter_value ErrorsTotal (metrics_log w) + of_nat (length (filter th_failed ths)))"
proof (intro conjI impI)
  note c = streams_counter [OF assms(1)]
  show "counter_value ActiveRequests (metrics_log w') =
      counter_value ActiveRequests (metrics_log w) + of_nat (length (filter th_open ths))"
  proof (rule c)
    fix th assume "th \<in> set ths"
    from streams_member [OF assms(1) this] thread_gauge
    show "counter_value ActiveRequests (emitted (th_trace th)) = (if th_open th then 1 else 0)"
      by (metis (full_types) old.unit.exhaust thread.surjective)
  qed
  assume rest: "list_all th_at_rest ths"
  have r: "counter_value RequestsTotal (emitted (th_trace th)) = (if th_returned th then 1 else 0)"
    "counter_value ErrorsTotal (emitted (th_trace th)) = (if th_failed th then 1 else 0)" if th: "th \<in> set ths" for th
  proof -
    obtain evs where "evs \<in> set evss" "follow (stream_prog E cfg evs) (th_trace th) = Some (th_prog th)"
      using streams_member [OF assms(1) th] by blast
    from rest_counters [OF this(2)] this(1) assms(2) rest th
    show "counter_value RequestsTotal (emitted (th_trace th)) = (if th_returned th then 1 else 0)"
      "counter_value ErrorsTotal (emitted (th_trace th)) = (if th_failed th then 1 else 0)"
      by (simp_all add: list_all_iff)
  qed
  show "counter_value RequestsTotal (metrics_log w') =
      counter_value RequestsTotal (metrics_log w) + of_nat (length (filter th_returned ths))"
    by (rule c) (rule r(1))
  show "counter_value ErrorsTotal (metrics_log w') =
      counter_value ErrorsTotal (metrics_log w) + of_nat (length (filter th_failed ths))"
    by (rule c) (rule r(2))
qed

text \<open>Both streams have made their first call, and then both have returned.\<close>

theorem concurrent_metrics_exact_witness:
  "(\<exists>ths w'. exec example_externals (\<lambda>_. example_send) [0, 1] (streams example_externals example_config example_streams, example_world)
       = (ths, w') \<and> counter_value ActiveRequests (metrics_log w') = 2)
   \<and> (\<exists>sched ths w'. exec example_externals (\<lambda>_. example_send) sched
        (streams example_externals example_config example_streams, example_world) = (ths, w')
      \<and> counter_value ActiveRequests (metrics_log w') = 0 \<and> counter_value RequestsTotal (metrics_log w') = 2)"
proof
  let ?s = "(streams example_externals example_config example_streams, example_world)"
  obtain ths w' where e: "exec example_externals (\<lambda>_. example_send) [0, 1] ?s = (ths, w')" by fastforce
  then have "filter th_open ths = ths" "length ths = 2"
    by (auto simp: exec_def exec1_def streams_def threads_def example_streams_def stream_prog_def Process_prog_def
        th_open_def th_returned_def)
  with concurrent_metrics_exact [OF e example_streams_ok(1)] e
  show "\<exists>ths w'. exec example_externals (\<lambda>_. example_send) [0, 1] ?s = (ths, w')
      \<and> counter_value ActiveRequests (metrics_log w') = 2"
    by (auto simp: example_world_def)
  obtain sched ths w' where e: "exec example_externals (\<lambda>_. example_send) sched ?s = (ths, w')"
    "list_all th_returned ths" "length ths = 2" by (rule example_run)
  have "list_all th_at_rest ths" "filter th_open ths = []" "filter th_returned ths = ths"
    using e(2) by (auto simp: list_all_iff th_open_def th_returned_rest filter_empty_conv filter_id_conv)
  with concurrent_metrics_exact [OF e(1) example_streams_ok(1)] e
  show "\<exists>sched ths w'. exec example_externals (\<lambda>_. example_send) sched ?s = (ths, w')
      \<and> counter_value ActiveRequests (metrics_log w') = 0 \<and> counter_value RequestsTotal (metrics_log w') = 2"
    by (auto simp: example_world_def)
qed


text \<open>
  C9: streams do not disturb each other. When gateways, Redis lookups and the stream's own
  \<open>Send\<close> answer each call the same way every time, then under any interleaving with any other
  streams a stream returns exactly what it returns when it runs alone, from any world: the
  same error, the same responses with the same bytes, the same sizes and the same status.
  What the clock says and how Redis answers the traffic pipelines makes no difference.
\<close>

theorem concurrent_streams_isolated:
  assumes "setup_relay E cfg w0 = (Inr runner, w1)" and "steady E send"
    and "exec E send sched (streams E cfg evss, w) = (ths, w')"
    and "i < length evss" and "th_prog (ths ! i) = Ret (r, p)"
  shows "\<exists>w''. Process E (send i) (runner_handler runner) (evss ! i) alone = (r, p, w'')"
proof -
  let ?v = "\<lambda>i. verdict (\<lambda>t req. fst (http_do E t req (env alone)))
    (\<lambda>rdb t key field. fst (redis_hget E rdb t key field (env alone))) (\<lambda>resp. fst (send i resp (env alone)))
    (stream_prog E cfg (evss ! i))"
  have s: "steadily E (send i) (env alone) (map (stream_prog E cfg) evss ! i) (?v i)"
    if "i < length (map (stream_prog E cfg) evss)" for i
    using that by (simp add: stream_settled)
  have "(r, p) = ?v i"
    using spec [OF steady_exec [OF assms(2) assms(3) [unfolded streams_def] s], of i] assms(4,5) by simp
  moreover have "fst (run E (send i) (stream_prog E cfg (evss ! i)) alone) = ?v i"
    using s [of i] assms(4) by (intro steady_run [OF assms(2)]) simp
  ultimately have "fst (run E (send i) (stream_prog E cfg (evss ! i)) alone) = (r, p)" by (simp only:)
  then show ?thesis by (auto simp: stream_prog_run [OF assms(1)] split: prod.splits)
qed

theorem concurrent_streams_isolated_witness:
  "\<exists>runner w1 sched ths w' r p w''. setup_relay example_externals example_config example_world = (Inr runner, w1)
     \<and> exec example_externals (\<lambda>_. example_send) sched (streams example_externals example_config example_streams, w1) = (ths, w')
     \<and> th_prog (ths ! 0) = Ret (Some r, p)
     \<and> Process example_externals example_send (runner_handler runner)
         [example_headers ''POST'' [], body_event ''opaque'' True, Recv (Inl EOF)] example_world = (Some r, p, w'')"
proof -
  obtain runner w1 where s: "setup_relay example_externals example_config example_world = (Inr runner, w1)"
    using example_setup by blast
  obtain sched ths w' where e: "exec example_externals (\<lambda>_. example_send) sched
      (streams example_externals example_config example_streams, w1) = (ths, w')" "list_all th_returned ths" "length ths = 2"
    by (rule example_run)
  have "th_returned (ths ! 0)" using e(2,3) by (simp add: list_all_length)
  then obtain r p where m: "th_prog (ths ! 0) = Ret (Some r, p)"
    by (cases "th_prog (ths ! 0)") (auto simp: th_returned_def split: option.splits)
  have "steady example_externals (\<lambda>_. example_send)"
    by (simp add: steady_def example_externals_def example_send_def)
  from concurrent_streams_isolated [OF s this e(1) _ m, of example_world]
  obtain w'' where "Process example_externals example_send (runner_handler runner) (example_streams ! 0) example_world
      = (Some r, p, w'')" by (auto simp: example_streams_def)
  with s e(1) m show ?thesis unfolding example_streams_def nth_Cons_0 by blast
qed

text \<open>
  C22: every stream that ends returns. Under every fair schedule of the single calls of any
  number of streams, each of which ends by a done context, by the end of its input or by a
  receive error, from some point on all of them have returned. No stream can keep another
  from returning.
\<close>

theorem fair_streams_return:
  assumes "\<forall>i < length evss. \<forall>n. \<exists>n' \<ge> n. \<sigma> n' = i" and "list_all (list_ex ends_stream) evss"
  shows "\<exists>n. \<forall>n' \<ge> n. list_all th_returned (fst (exec E send (map \<sigma> [0..<n']) (streams E cfg evss, w)))"
  using assms by (rule fair_returned)

theorem fair_streams_return_witness:
  "\<exists>n. \<forall>n' \<ge> n. list_all th_returned (fst (exec example_externals (\<lambda>_. example_send) (map alternate [0..<n'])
     (streams example_externals example_config example_streams, example_world)))"
  by (rule fair_streams_return [OF alternate_fair example_streams_ok(2)])

end
