(* ===== verification/Delivery.thy ===== *)
theory Delivery
  imports Concurrency
begin

text \<open>
  What the environment answers to a thread. Between two calls of a stream the other streams
  may bring the environment into any state, so from the view of one thread every call is
  answered in some state of the environment, chosen anew each time (\<open>wild\<close>). A thread of any
  execution behaves like the sequential \<open>Process\<close> in this environment, which gives only answers
  the real one can give. So theorems about \<open>Process\<close> under hypotheses on all answers of the
  environment carry over to concurrent streams; the delivery of a request is one of them.
\<close>

section \<open>Answers of the environment\<close>

definition plausible :: "'x externals \<Rightarrow> 'x SendFn \<Rightarrow> env_call \<Rightarrow> bool" where
  "plausible E send c \<longleftrightarrow>
     (case c of
        EClock t \<Rightarrow> \<exists>x. t = fst (time_now E x)
      | EFetch t req r \<Rightarrow> \<exists>x. r = fst (http_do E t req x)
      | ELookup rdb t key field r \<Rightarrow> \<exists>x. r = fst (redis_hget E rdb t key field x)
      | EExec rdb cmds r \<Rightarrow> \<exists>x. r = fst (redis_exec E rdb cmds x)
      | EEmit op \<Rightarrow> True
      | EReply resp r \<Rightarrow> \<exists>x. r = fst (send resp x))"

lemma call_step_plausible: "call_step E send m w = Some (c, m', w') \<Longrightarrow> plausible E send c"
  by (cases m)
    (auto simp: plausible_def Now_def Do_def HGet_def Pipeline_Exec_def Send_def split: prod.splits intro: exI [of _ "env w"],
     (metis fst_conv)+)

lemma exec_plausible:
  assumes "exec E send sched (threads ms, w0) = (ths, w)" and "i < length ms"
  shows "list_all (plausible E (send i)) (th_trace (ths ! i))"
proof -
  have "length ths = length ms \<and> (\<forall>i < length ms. list_all (plausible E (send i)) (th_trace (ths ! i)))"
    using assms(1)
  proof (induction rule: exec_induct)
    case (step ths w i c m w')
    then show ?case by (auto simp: nth_list_update dest: call_step_plausible)
  qed (simp add: threads_def)
  with assms(2) show ?thesis by simp
qed

text \<open>
  The environment that answers each call like \<open>E\<close> in a state of its own, taken from a
  sequence; Redis answers pings, so a relay can be set up in it.
\<close>

definition wild :: "'x externals \<Rightarrow> (nat \<Rightarrow> 'x) externals" where
  "wild E =
     \<lparr>uni_lower = uni_lower E,
      time_now = (\<lambda>xs. (fst (time_now E (xs 0)), xs \<circ> Suc)),
      parse_url_err = parse_url_err E,
      http_do = (\<lambda>t req xs. (fst (http_do E t req (xs 0)), xs \<circ> Suc)),
      redis_hget = (\<lambda>rdb t key field xs. (fst (redis_hget E rdb t key field (xs 0)), xs \<circ> Suc)),
      redis_exec = (\<lambda>rdb cmds xs. (fst (redis_exec E rdb cmds (xs 0)), xs \<circ> Suc)),
      redis_ping = (\<lambda>_ _ xs. (None, xs))\<rparr>"

definition wild_send :: "'x SendFn \<Rightarrow> (nat \<Rightarrow> 'x) SendFn" where
  "wild_send send resp xs = (fst (send resp (xs 0)), xs \<circ> Suc)"

lemma wild_pure [simp]: "uni_lower (wild E) = uni_lower E" "parse_url_err (wild E) = parse_url_err E"
  by (simp_all add: wild_def)

lemma case_nat_Suc [simp]: "case_nat x xs \<circ> Suc = xs"
  by (simp add: fun_eq_iff)

text \<open>A plausible trace is a run in the wild environment.\<close>

lemma wild_call:
  assumes "follow m [c] = Some m'" and "plausible E send c"
  shows "\<exists>xs'. \<forall>l out ps.
    run (wild E) (wild_send send) m \<lparr>env = xs', metrics_log = l, outbound = out, pipelines = ps\<rparr> =
    run (wild E) (wild_send send) m'
      \<lparr>env = xs, metrics_log = l @ emitted [c], outbound = out @ fetched [c], pipelines = ps @ piped [c]\<rparr>"
proof (cases "\<exists>op. c = EEmit op")
  case True
  then show ?thesis
    using assms(1) by (cases m) (auto simp: with_metrics_def split: if_splits intro!: exI [of _ xs])
next
  case False
  have "\<exists>x. \<forall>l out ps.
    run (wild E) (wild_send send) m \<lparr>env = case_nat x xs, metrics_log = l, outbound = out, pipelines = ps\<rparr> =
    run (wild E) (wild_send send) m'
      \<lparr>env = xs, metrics_log = l @ emitted [c], outbound = out @ fetched [c], pipelines = ps @ piped [c]\<rparr>"
    using assms False
    by (cases m; cases c)
      (auto simp: plausible_def wild_def wild_send_def Now_def Do_def HGet_def Pipeline_Exec_def Send_def
        split: if_splits)
  then show ?thesis by blast
qed

lemma follow_wild:
  assumes "follow m tr = Some m'" and "list_all (plausible E send) tr"
  shows "\<exists>xs'. \<forall>l out ps.
    run (wild E) (wild_send send) m \<lparr>env = xs', metrics_log = l, outbound = out, pipelines = ps\<rparr> =
    run (wild E) (wild_send send) m'
      \<lparr>env = xs, metrics_log = l @ emitted tr, outbound = out @ fetched tr, pipelines = ps @ piped tr\<rparr>"
  using assms
proof (induction tr arbitrary: m)
  case (Cons c tr)
  obtain m1 where m1: "follow m [c] = Some m1" "follow m1 tr = Some m'"
    using Cons.prems(1) follow_append [of m "[c]" tr] by (auto split: option.splits)
  obtain xs1 where "\<And>l out ps.
    run (wild E) (wild_send send) m1 \<lparr>env = xs1, metrics_log = l, outbound = out, pipelines = ps\<rparr> =
    run (wild E) (wild_send send) m'
      \<lparr>env = xs, metrics_log = l @ emitted tr, outbound = out @ fetched tr, pipelines = ps @ piped tr\<rparr>"
    using Cons.IH [OF m1(2)] Cons.prems(2) by auto
  moreover obtain xs2 where "\<And>l out ps.
    run (wild E) (wild_send send) m \<lparr>env = xs2, metrics_log = l, outbound = out, pipelines = ps\<rparr> =
    run (wild E) (wild_send send) m1
      \<lparr>env = xs1, metrics_log = l @ emitted [c], outbound = out @ fetched [c], pipelines = ps @ piped [c]\<rparr>"
    using wild_call [OF m1(1)] Cons.prems(2) by force
  ultimately show ?case
    using trace_append [of "[c]" tr] by (intro exI [of _ xs2]) simp
qed (auto intro!: exI [of _ xs])



section \<open>Threads as sequential runs\<close>

lemma wild_returned:
  assumes "exec E send sched (streams E cfg evss, w) = (ths, w')"
    and "i < length evss" and "th_prog (ths ! i) = Ret (r, p)"
  obtains runner w0 w1 xs where "setup_relay (wild E) cfg w0 = (Inr runner, w1)"
    "Process (wild E) (wild_send (send i)) (runner_handler runner) (evss ! i)
       \<lparr>env = xs, metrics_log = [], outbound = [], pipelines = []\<rparr> =
      (r, p, \<lparr>env = (\<lambda>_. env w), metrics_log = emitted (th_trace (ths ! i)), outbound = fetched (th_trace (ths ! i)),
              pipelines = piped (th_trace (ths ! i))\<rparr>)"
proof -
  have "fst (redis_ping (wild E) ro t x) = None" for ro t x by (simp add: wild_def)
  then obtain runner w1 where s: "setup_relay (wild E) cfg \<lparr>env = (\<lambda>_. env w), metrics_log = [], outbound = [], pipelines = []\<rparr>
      = (Inr runner, w1)" using setup_relay_up by blast
  have "list_all (plausible E (send i)) (th_trace (ths ! i))"
    using exec_plausible [OF assms(1) [unfolded streams_def]] assms(2) by simp
  from follow_wild [OF streams_follow(2) [OF assms(1,2)] this, of "\<lambda>_. env w"] obtain xs where
    "\<And>l out ps. run (wild E) (wild_send (send i)) (stream_prog E cfg (evss ! i))
        \<lparr>env = xs, metrics_log = l, outbound = out, pipelines = ps\<rparr> =
      run (wild E) (wild_send (send i)) (th_prog (ths ! i))
        \<lparr>env = (\<lambda>_. env w), metrics_log = l @ emitted (th_trace (ths ! i)), outbound = out @ fetched (th_trace (ths ! i)),
         pipelines = ps @ piped (th_trace (ths ! i))\<rparr>" by blast
  from this [of "[]" "[]" "[]"] assms(3) have "run (wild E) (wild_send (send i)) (stream_prog E cfg (evss ! i))
      \<lparr>env = xs, metrics_log = [], outbound = [], pipelines = []\<rparr> =
    ((r, p), \<lparr>env = (\<lambda>_. env w), metrics_log = emitted (th_trace (ths ! i)), outbound = fetched (th_trace (ths ! i)),
              pipelines = piped (th_trace (ths ! i))\<rparr>)" by simp
  moreover have "stream_prog (wild E) cfg (evss ! i) = stream_prog E cfg (evss ! i)" by (rule stream_prog_cong) simp_all
  ultimately show thesis
    using that [OF s] stream_prog_run [OF s, of "wild_send (send i)" "evss ! i"] by (auto split: prod.splits)
qed

text \<open>An environment that gives only answers another one can give.\<close>

definition answers_like :: "'y externals \<Rightarrow> 'y SendFn \<Rightarrow> 'x externals \<Rightarrow> 'x SendFn \<Rightarrow> bool" where
  "answers_like E' send' E send \<longleftrightarrow>
     uni_lower E' = uni_lower E \<and> parse_url_err E' = parse_url_err E
     \<and> (\<forall>y. \<exists>x. fst (time_now E' y) = fst (time_now E x))
     \<and> (\<forall>t req y. \<exists>x. fst (http_do E' t req y) = fst (http_do E t req x))
     \<and> (\<forall>rdb t key field y. \<exists>x. fst (redis_hget E' rdb t key field y) = fst (redis_hget E rdb t key field x))
     \<and> (\<forall>rdb cmds y. \<exists>x. fst (redis_exec E' rdb cmds y) = fst (redis_exec E rdb cmds x))
     \<and> (\<forall>resp y. \<exists>x. fst (send' resp y) = fst (send resp x))"

lemma wild_answers: "answers_like (wild E) (wild_send send) E send"
  by (auto simp: answers_like_def wild_def wild_send_def)


section \<open>Delivery by one thread\<close>

text \<open>
  A request that a relay delivers: the static map names a gateway for its host, the headers are
  accepted, the body is within the limit, and the gateway answers with a success, whatever
  state everything else is in.
\<close>

definition relayable ::
  "'x externals \<Rightarrow> ConfigT \<Rightarrow> HttpHeaders option \<Rightarrow> bytes \<Rightarrow> string \<Rightarrow> http_response \<Rightarrow> bool" where
  "relayable E cfg v body url rsp \<longleftrightarrow>
     DomainMap cfg (request_host (uni_lower E) v) = Some url \<and> url \<noteq> [] \<and> parse_url_err E url = None
     \<and> accepted_headers (uni_lower E) v \<and> int (length body) \<le> sint (MaxRequestBodySize cfg)
     \<and> (\<forall>x. fst (http_do E (Timeout cfg) (relayed_request url body) x) = DoOk rsp)
     \<and> rs_BodyErr rsp = None \<and> 200 \<le> rs_StatusCode rsp \<and> rs_StatusCode rsp < 300"

lemma thread_delivers:
  assumes e: "exec E send sched (streams E cfg evss, w) = (ths, w')"
    and stream: "i < length evss" "evss ! i = request_events v cs c" and ret: "th_returned (ths ! i)"
    and rel: "relayable E cfg v (concat cs @ c) url rsp" and send: "\<And>r x. fst (send i r x) = None"
  shows "\<exists>p. th_prog (ths ! i) = Ret (Some None, p) \<and> pr_sent p = [relayed_response (rs_Body rsp)]
     \<and> fetched (th_trace (ths ! i)) = [relayed_request url (concat cs @ c)]"
proof -
  obtain r p where m: "th_prog (ths ! i) = Ret (r, p)"
    using ret by (cases "th_prog (ths ! i)") (auto simp: th_returned_def)
  obtain runner w0 w1 xs where s: "setup_relay (wild E) cfg w0 = (Inr runner, w1)"
    and P: "Process (wild E) (wild_send (send i)) (runner_handler runner) (evss ! i)
       \<lparr>env = xs, metrics_log = [], outbound = [], pipelines = []\<rparr> =
      (r, p, \<lparr>env = (\<lambda>_. env w), metrics_log = emitted (th_trace (ths ! i)), outbound = fetched (th_trace (ths ! i)),
              pipelines = piped (th_trace (ths ! i))\<rparr>)"
    by (rule wild_returned [OF e stream(1) m])
  have "fst (http_do (wild E) (Timeout cfg) (relayed_request url (concat cs @ c)) x) = DoOk rsp" for x
    using rel by (simp add: wild_def relayable_def)
  moreover have "fst (wild_send (send i) r x) = None" for r x by (simp add: wild_send_def send)
  ultimately obtain p' w2 where "Process (wild E) (wild_send (send i)) (runner_handler runner) (request_events v cs c)
       \<lparr>env = xs, metrics_log = [], outbound = [], pipelines = []\<rparr> = (Some None, p', w2)"
    "pr_sent p' = [relayed_response (rs_Body rsp)]" "outbound w2 = [relayed_request url (concat cs @ c)]"
    using relay_delivers [OF s, where send = "wild_send (send i)" and v = v and url = url and cs = cs and c = c
        and rsp = rsp and w = "\<lparr>env = xs, metrics_log = [], outbound = [], pipelines = []\<rparr>"] rel
    by (auto simp: relayable_def)
  with P stream(2) m show ?thesis by simp
qed


section \<open>Properties\<close>

text \<open>
  Every thread behaves like the sequential handler. Under any interleaving, a stream that
  has returned or waits for its next message did what \<open>Process\<close> of a relay set up from the
  same configuration does on the same events in some environment that gives to every call an
  answer the real environment can give to it: the same result, and as its own part of the
  shared world exactly the metric calls, requests and pipelines of that run.
\<close>

lemma concurrent_stream_is_sequential:
  fixes E :: "'x externals"
  assumes "exec E send sched (streams E cfg evss, w) = (ths, w')"
    and "i < length evss" and "th_prog (ths ! i) = Ret (r, p)"
  shows "\<exists>(E' :: (nat \<Rightarrow> 'x) externals) send' runner w0 w1 wa wz.
     answers_like E' send' E (send i)
     \<and> setup_relay E' cfg w0 = (Inr runner, w1)
     \<and> Process E' send' (runner_handler runner) (evss ! i) wa = (r, p, wz)
     \<and> metrics_log wz = metrics_log wa @ emitted (th_trace (ths ! i))
     \<and> outbound wz = outbound wa @ fetched (th_trace (ths ! i))
     \<and> pipelines wz = pipelines wa @ piped (th_trace (ths ! i))"
proof (rule wild_returned [OF assms])
  fix runner w0 w1 and xs :: "nat \<Rightarrow> 'x"
  let ?wa = "\<lparr>env = xs, metrics_log = [], outbound = [], pipelines = []\<rparr>"
  let ?wz = "\<lparr>env = (\<lambda>_. env w), metrics_log = emitted (th_trace (ths ! i)), outbound = fetched (th_trace (ths ! i)),
      pipelines = piped (th_trace (ths ! i))\<rparr>"
  assume "setup_relay (wild E) cfg w0 = (Inr runner, w1)"
    "Process (wild E) (wild_send (send i)) (runner_handler runner) (evss ! i) ?wa = (r, p, ?wz)"
  then show ?thesis
    by (intro exI [of _ "wild E"] exI [of _ "wild_send (send i)"] exI [of _ runner] exI [of _ w0] exI [of _ w1]
        exI [of _ ?wa] exI [of _ ?wz]) (simp add: wild_answers)
qed

lemma concurrent_stream_is_sequential_example:
  "\<exists>sched ths w' r p (E' :: (nat \<Rightarrow> unit) externals) send' runner wa wz.
     exec example_externals (\<lambda>_. example_send) sched (streams example_externals example_config example_streams, example_world)
       = (ths, w')
     \<and> th_prog (ths ! 1) = Ret (r, p)
     \<and> Process E' send' (runner_handler runner) [Recv (Inl (LibraryError ''reset''))] wa = (r, p, wz)
     \<and> metrics_log wz = metrics_log wa @ emitted (th_trace (ths ! 1))"
proof -
  obtain sched ths w' where e: "exec example_externals (\<lambda>_. example_send) sched
      (streams example_externals example_config example_streams, example_world) = (ths, w')"
      "list_all th_returned ths" "length ths = 2" by (rule example_run)
  have "th_returned (ths ! 1)" using e(2,3) by (simp add: list_all_length)
  then obtain r p where m: "th_prog (ths ! 1) = Ret (r, p)"
    by (cases "th_prog (ths ! 1)") (auto simp: th_returned_def)
  from concurrent_stream_is_sequential [OF e(1) _ m] e(1) m show ?thesis
    by (simp add: example_streams_def) blast
qed

text \<open>
  C6: requests are delivered under concurrency. Any number of streams that end run on a relay
  of any configuration whose static map names a gateway for the host of one of them, which is
  a request with accepted headers and a body in any pieces within the limit. When the gateway
  answers that request with a success, whatever state everything else is in, then under every
  fair schedule of single calls, from some point on that stream has returned without error,
  has made exactly one request, to that gateway, with the concatenated body, and has sent
  exactly one response, a 200 with the bytes of the answer.
\<close>

theorem concurrent_relay_delivers:
  assumes fair: "\<forall>j < length evss. \<forall>n. \<exists>n' \<ge> n. \<sigma> n' = j" and ends: "list_all (list_ex ends_stream) evss"
    and stream: "i < length evss" "evss ! i = request_events v cs c"
    and gw: "DomainMap cfg (request_host (uni_lower E) v) = Some url" "url \<noteq> []" "parse_url_err E url = None"
    and hdr: "accepted_headers (uni_lower E) v"
    and fit: "int (length (concat cs @ c)) \<le> sint (MaxRequestBodySize cfg)"
    and answer: "\<And>x. fst (http_do E (Timeout cfg) (relayed_request url (concat cs @ c)) x) = DoOk rsp"
    and ok: "rs_BodyErr rsp = None" "200 \<le> rs_StatusCode rsp" "rs_StatusCode rsp < 300"
    and send: "\<And>r x. fst (send i r x) = None"
  shows "\<exists>n. \<forall>n' \<ge> n. case exec E send (map \<sigma> [0..<n']) (streams E cfg evss, w) of (ths, w') \<Rightarrow>
     \<exists>p. th_prog (ths ! i) = Ret (Some None, p) \<and> pr_sent p = [relayed_response (rs_Body rsp)]
       \<and> fetched (th_trace (ths ! i)) = [relayed_request url (concat cs @ c)]"
proof -
  obtain n where n: "\<And>n'. n' \<ge> n \<Longrightarrow> list_all th_returned (fst (exec E send (map \<sigma> [0..<n']) (streams E cfg evss, w)))"
    using fair_returned [OF fair ends] by blast
  have "\<exists>p. th_prog (ths ! i) = Ret (Some None, p) \<and> pr_sent p = [relayed_response (rs_Body rsp)]
      \<and> fetched (th_trace (ths ! i)) = [relayed_request url (concat cs @ c)]"
    if "n' \<ge> n" and e: "exec E send (map \<sigma> [0..<n']) (streams E cfg evss, w) = (ths, w')" for n' ths w'
  proof -
    have "th_returned (ths ! i)"
      using n [OF that(1)] e stream(1) streams_follow(1) [OF e] by (simp add: list_all_length)
    from thread_delivers [OF e stream this] assms(5-) show ?thesis by (simp add: relayable_def)
  qed
  then show ?thesis by (intro exI [of _ n] allI impI) (auto split: prod.split)
qed


text \<open>A request in three pieces beside a stream that fails.\<close>

theorem concurrent_relay_delivers_witness:
  "\<exists>n ths w' p. exec example_externals (\<lambda>_. example_send) (map alternate [0..<n])
       (streams example_externals example_config
         [request_events (Some \<lparr>hh_Headers = Some [raw_header '':method'' ''POST'', raw_header ''Host'' ''EXAMPLE.test'',
            raw_header ''content-length'' ''6'']\<rparr>) [''op'', ''aq''] ''ue'', [Recv (Inl (LibraryError ''reset''))]],
        example_world) = (ths, w')
     \<and> th_prog (ths ! 0) = Ret (Some None, p) \<and> pr_sent p = [relayed_response ''opaque'']
     \<and> fetched (th_trace (ths ! 0)) = [relayed_request ''https://g'' ''opaque'']"
proof -
  let ?v = "Some \<lparr>hh_Headers = Some [raw_header '':method'' ''POST'', raw_header ''Host'' ''EXAMPLE.test'',
            raw_header ''content-length'' ''6'']\<rparr>"
  let ?evss = "[request_events ?v [''op'', ''aq''] ''ue'', [Recv (Inl (LibraryError ''reset''))]]"
  let ?rsp = "\<lparr>rs_StatusCode = 200, rs_Header = Map.empty, rs_Body = ''opaque'', rs_BodyErr = None\<rparr>"
  have lc: "uni_lower example_externals = id" by (simp add: example_externals_def)
  have h: "request_host id ?v = ''example.test''" and a: "accepted_headers id ?v" by code_simp+
  have f: "\<forall>j < length ?evss. \<forall>n. \<exists>n' \<ge> n. alternate n' = j"
    using alternate_fair by (simp add: example_streams_def)
  have e: "list_all (list_ex ends_stream) ?evss" by (simp add: request_events_def ends_stream_def)
  have "\<exists>n. \<forall>n' \<ge> n. case exec example_externals (\<lambda>_. example_send) (map alternate [0..<n'])
        (streams example_externals example_config ?evss, example_world) of (ths, w') \<Rightarrow>
     \<exists>p. th_prog (ths ! 0) = Ret (Some None, p) \<and> pr_sent p = [relayed_response (rs_Body ?rsp)]
       \<and> fetched (th_trace (ths ! 0)) = [relayed_request ''https://g'' (concat [''op'', ''aq''] @ ''ue'')]"
    by (rule concurrent_relay_delivers [OF f e, where v = ?v])
      (simp_all add: lc h a, simp_all add: example_config_def example_externals_def example_send_def)
  then obtain n where "case exec example_externals (\<lambda>_. example_send) (map alternate [0..<n])
        (streams example_externals example_config ?evss, example_world) of (ths, w') \<Rightarrow>
     \<exists>p. th_prog (ths ! 0) = Ret (Some None, p) \<and> pr_sent p = [relayed_response (rs_Body ?rsp)]
       \<and> fetched (th_trace (ths ! 0)) = [relayed_request ''https://g'' (concat [''op'', ''aq''] @ ''ue'')]" by (meson order_refl)
  then show ?thesis by (auto split: prod.splits)
qed

end
