(* ===== verification/Accounting.thy ===== *)
theory Accounting
  imports Wiring "HOL-Library.Sublist"
begin

text \<open>
  Traffic accounting of whole streams. The relay keeps two records of the bytes it moves: the
  counters \<open>TrafficBytesIn\<close> and \<open>TrafficBytesOut\<close>, and the increments it hands to Redis. The
  locale \<open>accounting_server\<close> adds to the contracts of a stream server what the recorder hands to
  Redis, and shows that both records follow the responses the stream relays: one booking per
  relayed response, with its size, the size of the request it answers, a host the stream
  named and a time the clock shows.
\<close>

section \<open>What is accounted\<close>

text \<open>The increments of a hash field among pipelines handed to Redis.\<close>

fun field_increment :: "string \<Rightarrow> redis_cmd \<Rightarrow> int64" where
  "field_increment field (HIncrBy key f n) = (if f = field then n else 0)"
| "field_increment field (Expire key ttl) = 0"

definition handed :: "string \<Rightarrow> redis_cmd list list \<Rightarrow> int64" where
  "handed field pipes = (\<Sum>cmds\<leftarrow>pipes. \<Sum>cmd\<leftarrow>cmds. field_increment field cmd)"

lemma handed_append [simp]: "handed f (ps @ qs) = handed f ps + handed f qs"
  by (simp add: handed_def)

lemma handed_Nil [simp]: "handed f [] = 0"
  by (simp add: handed_def)

text \<open>Relayed responses by their sizes; no other response counts as traffic.\<close>

definition relayed_size :: "ProcessingResponse \<Rightarrow> int64 option" where
  "relayed_size r =
     (case r of
        PR_Immediate ir \<Rightarrow>
          if ir_SetHeaders ir = [(''content-type'', ContentTypeOHTTPRes)] then Some (len64 (ir_Body ir)) else None
      | PR_Other \<Rightarrow> None)"

fun relayed_sizes :: "ProcessingResponse list \<Rightarrow> int64 list" where
  "relayed_sizes [] = []"
| "relayed_sizes (r # rs) = (case relayed_size r of None \<Rightarrow> relayed_sizes rs | Some n \<Rightarrow> n # relayed_sizes rs)"

definition relayed_bytes :: "ProcessingResponse list \<Rightarrow> int64" where
  "relayed_bytes rs = sum_list (relayed_sizes rs)"

lemma relayed_sizes_append [simp]: "relayed_sizes (rs @ ss) = relayed_sizes rs @ relayed_sizes ss"
  by (induction rs) (simp_all split: option.split)

lemma relayed_sizes_simps [simp]:
  "relayed_sizes [relayed_response b] = [len64 b]" "relayed_sizes [bad_gateway] = []" "relayed_sizes (plain_error c) = []"
  by (simp_all add: relayed_size_def relayed_response_def bad_gateway_def plain_error_def
      immediateErrorResponse_def ContentTypeOHTTPRes_def Let_def)

lemma relayed_bytes_simps [simp]: "relayed_bytes [] = 0" "relayed_bytes (rs @ ss) = relayed_bytes rs + relayed_bytes ss"
  by (simp_all add: relayed_bytes_def)

text \<open>A booking: the traffic of one relayed response, and the pipeline that carries it.\<close>

record booking =
  bk_host :: string
  bk_time :: instant
  bk_in :: int64
  bk_out :: int64

definition carries :: "booking \<Rightarrow> redis_cmd list \<Rightarrow> bool" where
  "carries b cmds \<longleftrightarrow>
     (let key = generateKey (bk_host b) (bk_time b)
      in \<exists>ttl. cmds = [HIncrBy key ''bytes_in'' (bk_in b), HIncrBy key ''bytes_out'' (bk_out b), Expire key ttl])"

lemma handed_carried:
  assumes "list_all2 carries bs pipes"
  shows "handed ''bytes_in'' pipes = (\<Sum>b\<leftarrow>bs. bk_in b)" "handed ''bytes_out'' pipes = (\<Sum>b\<leftarrow>bs. bk_out b)"
  using assms by (induction rule: list_all2_induct) (auto simp: handed_def carries_def Let_def)

text \<open>
  The bookings of the responses \<open>rs\<close>, in their order, to hosts of a given set and at times the
  clock shows.
\<close>

definition bookings_for :: "instant set \<Rightarrow> string set \<Rightarrow> ProcessingResponse list \<Rightarrow> booking list \<Rightarrow> bool" where
  "bookings_for clock hosts rs bs \<longleftrightarrow>
     map bk_out bs = relayed_sizes rs \<and> list_all (\<lambda>b. bk_host b \<in> hosts \<and> bk_time b \<in> clock) bs"

lemma bookings_for_append:
  "bookings_for clock hosts rs bs \<Longrightarrow> bookings_for clock hosts rs' bs' \<Longrightarrow> bookings_for clock hosts (rs @ rs') (bs @ bs')"
  by (simp add: bookings_for_def)

lemma bookings_for_none: "relayed_sizes rs = [] \<Longrightarrow> bookings_for clock hosts rs bs \<longleftrightarrow> bs = []"
  by (auto simp: bookings_for_def)

text \<open>
  From \<open>w\<close> to \<open>w'\<close> the bookings \<open>bs\<close> were made: the two counters rose by their sums, Redis
  was handed one pipeline for each when the relay uses Redis and nothing otherwise, and they
  belong to requests sent on the way, in this order and with the sizes of their bodies.
\<close>

definition accounted :: "bool \<Rightarrow> booking list \<Rightarrow> 'x world \<Rightarrow> 'x world \<Rightarrow> bool" where
  "accounted redis bs w w' \<longleftrightarrow>
     counter_value TrafficBytesOut (metrics_log w') = counter_value TrafficBytesOut (metrics_log w) + (\<Sum>b\<leftarrow>bs. bk_out b)
     \<and> counter_value TrafficBytesIn (metrics_log w') = counter_value TrafficBytesIn (metrics_log w) + (\<Sum>b\<leftarrow>bs. bk_in b)
     \<and> (\<exists>pipes. pipelines w' = pipelines w @ pipes \<and> list_all2 carries (if redis then bs else []) pipes)
     \<and> (\<exists>reqs. outbound w' = outbound w @ reqs \<and> subseq (map bk_in bs) (map (\<lambda>req. len64 (rq_Body req)) reqs))"

lemma accounted_same:
  assumes "pipelines w' = pipelines w"
    and "counter_value TrafficBytesOut (metrics_log w') = counter_value TrafficBytesOut (metrics_log w)"
    and "counter_value TrafficBytesIn (metrics_log w') = counter_value TrafficBytesIn (metrics_log w)"
    and "\<exists>reqs. outbound w' = outbound w @ reqs"
  shows "accounted redis [] w w'"
  using assms by (auto simp: accounted_def)

lemma accounted_trans:
  assumes "accounted redis as w w1" and "accounted redis bs w1 w2"
  shows "accounted redis (as @ bs) w w2"
proof -
  obtain p r where "pipelines w1 = pipelines w @ p" "list_all2 carries (if redis then as else []) p"
    "outbound w1 = outbound w @ r" "subseq (map bk_in as) (map (\<lambda>req. len64 (rq_Body req)) r)"
    using assms(1) by (auto simp: accounted_def)
  moreover obtain q s where "pipelines w2 = pipelines w1 @ q" "list_all2 carries (if redis then bs else []) q"
    "outbound w2 = outbound w1 @ s" "subseq (map bk_in bs) (map (\<lambda>req. len64 (rq_Body req)) s)"
    using assms(2) by (auto simp: accounted_def)
  ultimately have
    "\<exists>pipes. pipelines w2 = pipelines w @ pipes \<and> list_all2 carries (if redis then as @ bs else []) pipes"
    "\<exists>reqs. outbound w2 = outbound w @ reqs \<and> subseq (map bk_in (as @ bs)) (map (\<lambda>req. len64 (rq_Body req)) reqs)"
    using list_all2_appendI [of carries as p bs q] list_emb_append_mono [of "(=)" "map bk_in as" _ "map bk_in bs"]
    by (auto split: if_splits)
  with assms show ?thesis
    by (simp add: accounted_def add.assoc)
qed

lemma accounted_frame:
  assumes "accounted redis bs w w1" and "pipelines w2 = pipelines w1" and "outbound w2 = outbound w1"
    and "counter_value TrafficBytesOut (metrics_log w2) = counter_value TrafficBytesOut (metrics_log w1)"
    and "counter_value TrafficBytesIn (metrics_log w2) = counter_value TrafficBytesIn (metrics_log w1)"
  shows "accounted redis bs w w2"
  using accounted_trans [OF assms(1) accounted_same [OF assms(2,4,5)]] assms(3) by simp

text \<open>The hosts a stream names; the empty one stands for what comes before the first header message.\<close>

definition event_hosts :: "(rune \<Rightarrow> rune) \<Rightarrow> stream_event \<Rightarrow> string set" where
  "event_hosts lc ev = (case ev of Recv (Inr (RequestHeaders v)) \<Rightarrow> {request_host lc v} | _ \<Rightarrow> {})"

definition stream_hosts :: "(rune \<Rightarrow> rune) \<Rightarrow> stream_event list \<Rightarrow> string set" where
  "stream_hosts lc evs =
     (if evs \<noteq> [] \<and> event_hosts lc (hd evs) \<noteq> {} then {} else {[]}) \<union> (\<Union>ev \<in> set evs. event_hosts lc ev)"

lemma event_hosts_headers: "event_hosts lc ev \<noteq> {} \<longleftrightarrow> (\<exists>v. ev = Recv (Inr (RequestHeaders v)))"
  by (auto simp: event_hosts_def split: stream_event.split sum.split ProcessingRequest.split)


section \<open>Streams\<close>

locale accounting_server = stream_server relay keyConfig recordTraffic
  for relay :: "'x RelayerFn" and keyConfig :: "'x KeyConfigSource" and recordTraffic :: "'x TrafficFn" +
  fixes redis :: bool and clock :: "instant set"
  assumes record_carries: "\<exists>t \<in> clock. \<exists>pipes. pipelines (snd (recordTraffic host i out w)) = pipelines w @ pipes
    \<and> list_all2 carries (if redis then [\<lparr>bk_host = host, bk_time = t, bk_in = i, bk_out = out\<rparr>] else []) pipes"
begin

lemma account_books:
  "\<exists>t \<in> clock. let w' = account (NewServer relay keyConfig mx (Some recordTraffic)) host i out w in
     outbound w' = outbound w
     \<and> counter_value TrafficBytesOut (metrics_log w') = counter_value TrafficBytesOut (metrics_log w) + out
     \<and> counter_value TrafficBytesIn (metrics_log w') = counter_value TrafficBytesIn (metrics_log w) + i
     \<and> (\<exists>pipes. pipelines w' = pipelines w @ pipes
        \<and> list_all2 carries (if redis then [\<lparr>bk_host = host, bk_time = t, bk_in = i, bk_out = out\<rparr>] else []) pipes)"
  using record_carries [of host i out "with_metrics (RecordTrafficIO host i out) w"]
  by (auto simp: account_def NewServer_def tr.record_metrics tr.record_outbound frame)

text \<open>What one event does for a stream whose hosts are in \<open>hosts\<close>.\<close>

abbreviation books where
  "books hosts rs w w' \<equiv> \<exists>bs. bookings_for clock hosts rs bs \<and> accounted redis bs w w'"

lemma forwardAndRespond_accounted:
  assumes "forwardAndRespond (NewServer relay keyConfig mx (Some recordTraffic)) st w = (Inr rs, w')"
    and "st_host st \<in> hosts"
  shows "books hosts rs w w'"
proof -
  let ?s = "NewServer relay keyConfig mx (Some recordTraffic)" and ?host = "st_host st" and ?i = "len64 (st_body st)"
  have c: "\<not> st_configRequest st" using assms by (auto simp: forwardAndRespond_def)
  obtain r w1 where r: "relay ?host (st_body st) (forwarded_type (st_reqContentType st)) (st_httpMethod st) w = (r, w1)"
    by fastforce
  have "sv_relayer ?s ?host (st_body st) (forwarded_type (st_reqContentType st)) (st_httpMethod st) w = (r, w1)"
    using r by (simp add: NewServer_def)
  note out = trans [OF assms(1) [symmetric] forwardAndRespond_out [OF c this]]
  have relayed: "accounted redis [] w w1"
    using rl.relay_effect [of "st_body st" "forwarded_type (st_reqContentType st)" "st_httpMethod st" w ?host] r
    by (intro accounted_same) (auto simp: relay_effect_def)
  show ?thesis
  proof (cases "gateway_failed r")
    case True
    with out relayed show ?thesis by (auto simp: bookings_for_none simp del: relayed_sizes.simps)
  next
    case False
    then obtain rsp where rsp: "r = Inr rsp" by (cases r) (auto simp: gateway_failed_def)
    obtain req where req: "outbound w1 = outbound w @ [req]" "rq_Body req = st_body st"
      using rl.relay_answer_request [OF r [unfolded rsp]] by (auto simp: relay_request_def)
    let ?b = "\<lambda>t. \<lparr>bk_host = ?host, bk_time = t, bk_in = ?i, bk_out = len64 (rs_Body rsp)\<rparr>"
    obtain t where "t \<in> clock" "accounted redis [?b t] w w'"
      using account_books [of mx ?host ?i "len64 (rs_Body rsp)" w1] out False rsp relayed req
      by (auto simp: accounted_def Let_def)
    with out False rsp assms(2) show ?thesis
      by (intro exI [of _ "[?b t]"]) (simp add: bookings_for_def del: relayed_sizes.simps)
  qed
qed

lemma on_request_headers_accounted:
  assumes "on_request_headers lc (NewServer relay keyConfig mx (Some recordTraffic)) v st w = (Inr rs, st', w')"
  shows "relayed_sizes rs = [] \<and> accounted redis [] w w'"
proof -
  let ?s = "NewServer relay keyConfig mx (Some recordTraffic)"
  have key: "relayed_sizes rs = [] \<and> accounted redis [] w w'" if "respondKeyConfig lc ?s v st w = (Inr rs, w')" for st rs w'
  proof -
    have "relayed_sizes rs = []"
      using that by (auto simp: respondKeyConfig_def relayed_size_def immediateErrorResponse_def
          ContentTypeOHTTPRes_def ContentTypeOHTTPKeys_def Let_def split: if_splits prod.splits sum.splits)
    moreover have "w' = w \<or> w' = snd (keyConfig (st_host st) w)"
      using that by (auto simp: respondKeyConfig_def NewServer_def Let_def split: if_splits prod.splits sum.splits)
    ultimately show ?thesis
      using kc.kc_metrics [of "st_host st" w] kc.kc_pipelines [of "st_host st" w] kc.kc_outbound [of "st_host st" w]
      by (auto intro!: accounted_same)
  qed
  have same: "accounted redis [] w w" by (simp add: accounted_same)
  show ?thesis
  proof (cases "extractHeaderValue lc v '':path'' = configsPath")
    case True
    with assms have "respondKeyConfig lc ?s v (noted lc v st) w = (Inr rs, w')"
      by (metis (no_types, lifting) on_request_headers_alt prod.collapse prod.inject)
    from key [OF this] show ?thesis by simp
  next
    case False
    with assms have "w' = w" "relayed_sizes rs = []"
      by (auto simp: on_request_headers_alt split: if_splits)
    with same show ?thesis by simp
  qed
qed

lemma dispatch_accounted:
  assumes "dispatch lc (NewServer relay keyConfig mx (Some recordTraffic)) req p w = (Some (Inr rs), p', w')"
    and "st_host (pr_st p) \<in> hosts \<or> event_hosts lc (Recv (Inr req)) \<noteq> {}"
  shows "books hosts rs w w' \<and> pr_sent p' = pr_sent p"
proof (cases req)
  case (RequestHeaders v)
  with assms(1) have "relayed_sizes rs = [] \<and> accounted redis [] w w'" "pr_sent p' = pr_sent p"
    by (auto simp: dispatch_def split: prod.splits dest: on_request_headers_accounted)
  then show ?thesis by (simp add: bookings_for_none)
next
  case (RequestBody v)
  with assms(1) obtain st' where
    "on_request_body (NewServer relay keyConfig mx (Some recordTraffic)) v (pr_st p) w = (Inr rs, st', w')"
    "pr_sent p' = pr_sent p"
    by (auto simp: dispatch_def Let_def split: prod.splits)
  then show ?thesis
    using assms(2)
    by (auto simp: event_hosts_headers RequestBody on_request_body_def immediateErrorResponse_plain Let_def bookings_for_none accounted_same
        split: if_splits prod.splits dest!: forwardAndRespond_accounted [where hosts = hosts])
qed (use assms(1) in \<open>auto simp: dispatch_def accounted_same bookings_for_none\<close>)

lemma dispatch_unaccounted:
  assumes "dispatch lc (NewServer relay keyConfig mx (Some recordTraffic)) req p w = (r, p', w')"
    and "\<And>rs. r \<noteq> Some (Inr rs)"
  shows "w' = w \<and> pr_sent p' = pr_sent p"
proof (cases req)
  case (RequestHeaders v)
  with assms show ?thesis
    by (auto simp: dispatch_def on_request_headers_alt respondKeyConfig_def Let_def split: prod.splits sum.splits if_splits)
next
  case (RequestBody v)
  with assms show ?thesis
    by (cases "fst (forwardAndRespond (NewServer relay keyConfig mx (Some recordTraffic))
          ((pr_st p)\<lparr>st_body := st_body (pr_st p) @ hb_Body v\<rparr>) w)")
      (auto simp: dispatch_def on_request_body_def Let_def split: prod.splits if_splits dest: forwardAndRespond_error)
qed (use assms in \<open>auto simp: dispatch_def\<close>)

text \<open>The host a stream is about stays among the hosts its header messages name.\<close>

lemma dispatch_host:
  assumes "dispatch lc (NewServer relay keyConfig mx (Some recordTraffic)) req p w = (r, p', w')"
    and "st_host (pr_st p) \<in> hosts \<or> event_hosts lc (Recv (Inr req)) \<noteq> {}" and "event_hosts lc (Recv (Inr req)) \<subseteq> hosts"
  shows "st_host (pr_st p') \<in> hosts"
  using assms
  by (cases req)
    (auto simp: dispatch_def event_hosts_def on_request_headers_alt noted_def on_request_body_def Let_def
      split: prod.splits if_splits)

lemma process_step_accounted:
  assumes "process_step E send (NewServer relay keyConfig mx (Some recordTraffic)) ev p w = (c, p', w')"
    and "st_host (pr_st p) \<in> hosts \<or> event_hosts (uni_lower E) ev \<noteq> {}" and "event_hosts (uni_lower E) ev \<subseteq> hosts"
  shows "st_host (pr_st p') \<in> hosts \<and> (\<exists>rs. pr_sent p' = pr_sent p @ rs \<and> books hosts rs w w')"
proof (cases "\<exists>req. ev = Recv (Inr req)")
  case True
  let ?s = "NewServer relay keyConfig mx (Some recordTraffic)"
  obtain req where ev: "ev = Recv (Inr req)" using True ..
  obtain r p1 w1 where d: "dispatch (uni_lower E) ?s req p w = (r, p1, w1)" by (metis prod_cases3)
  note host = dispatch_host [OF d assms(2,3) [unfolded ev]] and h = assms(2) [unfolded ev]
  show ?thesis
  proof (cases "\<exists>rs. r = Some (Inr rs)")
    case True
    then obtain rs where rs: "r = Some (Inr rs)" ..
    obtain bs where a: "bookings_for clock hosts rs bs" "accounted redis bs w w1" "pr_sent p1 = pr_sent p"
      using dispatch_accounted [OF d [unfolded rs] h] by blast
    have s: "send_responses send rs p1 w1 = (c, p', w')" using assms(1) d rs by (simp add: ev process_step_def)
    have "length rs \<le> 1" using dispatch_responses [OF d [unfolded rs]] by (simp add: client_responses_def)
    then have "pr_sent p' = pr_sent p1 @ rs" "pr_st p' = pr_st p1"
      using s by (cases rs; auto simp: Let_def split: prod.splits option.splits)+
    moreover have "accounted redis bs w w'"
      using accounted_frame [OF a(2)] send_responses_frame(3,4) [OF s] send_responses_counters [OF s] by auto
    ultimately show ?thesis using a(1,3) host by auto
  next
    case False
    then have "w1 = w \<and> pr_sent p1 = pr_sent p" by (intro dispatch_unaccounted [OF d]) blast
    moreover have "p' = p1 \<and> (\<exists>t. w' = with_metrics (RecordError t) w1)"
      using assms(1) d False by (auto simp: ev process_step_def split: option.splits sum.splits)
    ultimately show ?thesis using host by (auto intro!: exI [of _ "[]"] accounted_same simp: bookings_for_none frame)
  qed
next
  case False
  with assms(1,2) show ?thesis
    by (auto simp: event_hosts_headers process_step_def frame bookings_for_none intro!: exI [of _ "[]"] accounted_same
        split: stream_event.splits sum.splits if_splits)
qed

lemma process_loop_accounted:
  assumes "process_loop E send (NewServer relay keyConfig mx (Some recordTraffic)) evs p w = (r, p', w')"
    and "st_host (pr_st p) \<in> hosts \<or> (evs \<noteq> [] \<and> event_hosts (uni_lower E) (hd evs) \<noteq> {})"
    and "(\<Union>ev \<in> set evs. event_hosts (uni_lower E) ev) \<subseteq> hosts"
  shows "\<exists>rs. pr_sent p' = pr_sent p @ rs \<and> books hosts rs w w'"
  using assms
proof (induction evs arbitrary: p w)
  case Nil
  then show ?case by (auto simp: accounted_same bookings_for_none)
next
  case (Cons ev evs)
  let ?s = "NewServer relay keyConfig mx (Some recordTraffic)"
  obtain c p1 w1 where st: "process_step E send ?s ev p w = (c, p1, w1)" by (metis prod_cases3)
  obtain r1 b1 where r1: "st_host (pr_st p1) \<in> hosts" "pr_sent p1 = pr_sent p @ r1"
    "bookings_for clock hosts r1 b1" "accounted redis b1 w w1"
    using process_step_accounted [OF st, of hosts] Cons.prems(2,3) by (simp, blast)
  show ?case
  proof (cases c)
    case Continue
    with Cons.prems(1) st have "process_loop E send ?s evs p1 w1 = (r, p', w')" by simp
    from Cons.IH [OF this disjI1 [OF r1(1)]] Cons.prems(3)
    obtain r2 b2 where "pr_sent p' = pr_sent p1 @ r2" "bookings_for clock hosts r2 b2" "accounted redis b2 w1 w'" by auto
    with accounted_trans [OF r1(4)] bookings_for_append [OF r1(3)] r1(2) show ?thesis
      by (metis append_assoc)
  next
    case (Return x)
    with Cons.prems st r1 show ?thesis by auto
  qed
qed

lemma Process_accounted:
  assumes "Process E send (NewServer relay keyConfig mx (Some recordTraffic)) evs w = (r, p, w')"
  shows "books (stream_hosts (uni_lower E) evs) (pr_sent p) w w'"
proof -
  let ?s = "NewServer relay keyConfig mx (Some recordTraffic)" and ?hosts = "stream_hosts (uni_lower E) evs"
  obtain t0 w0 where n0: "Now E (with_metrics (\<lambda>l. l @ [AddInt64 ActiveRequests 1 []]) w) = (t0, w0)" by fastforce
  have a0: "accounted redis [] w w0"
    using Now_case [OF n0] by (intro accounted_same) (simp_all add: frame)
  obtain x p1 w1 where l: "process_loop E send ?s evs proc_init w0 = (x, p1, w1)" by (metis prod_cases3)
  obtain t2 w2 where n2: "Now E w1 = (t2, w2)" by fastforce
  have same: "p = p1" "pipelines w' = pipelines w1" "outbound w' = outbound w1"
      "counter_value TrafficBytesOut (metrics_log w') = counter_value TrafficBytesOut (metrics_log w1)"
      "counter_value TrafficBytesIn (metrics_log w') = counter_value TrafficBytesIn (metrics_log w1)"
    using assms n0 l n2 Now_case [OF n2] by (auto simp: Process_def Let_def frame split: option.splits)
  have "st_host (pr_st proc_init) \<in> ?hosts \<or> (evs \<noteq> [] \<and> event_hosts (uni_lower E) (hd evs) \<noteq> {})"
    "(\<Union>ev \<in> set evs. event_hosts (uni_lower E) ev) \<subseteq> ?hosts"
    by (simp_all add: proc_init_def stream_hosts_def)
  from process_loop_accounted [OF l this] obtain bs where "bookings_for clock ?hosts (pr_sent p1) bs"
    "accounted redis bs w0 w1" by (auto simp: proc_init_def)
  with same accounted_frame [OF accounted_trans [OF a0] same(2-5)] show ?thesis by auto
qed

end


section \<open>The two wirings\<close>

text \<open>The times a clock can show.\<close>

abbreviation clock_of :: "'x externals \<Rightarrow> instant set" where
  "clock_of E \<equiv> range (\<lambda>x. fst (time_now E x))"

interpretation static_accounting: accounting_server
  "Relay E (NewHTTPRelayer t (StaticMapURLSource m))" "NewHttpKeyConfigSource E t (StaticMapURLSource m)"
  NoOpRecordTraffic False "clock_of E" for E t m
  by unfold_locales (simp add: NoOpRecordTraffic_def)

lemma RecordTraffic_carries:
  assumes "rtm_rdb tm = Some rdb"
  shows "\<exists>t \<in> clock_of E. \<exists>pipes. pipelines (snd (RecordTraffic E (Some tm) host i out w)) = pipelines w @ pipes
    \<and> list_all2 carries [\<lparr>bk_host = host, bk_time = t, bk_in = i, bk_out = out\<rparr>] pipes"
proof -
  obtain t w1 where n: "Now E w = (t, w1)" by fastforce
  then have "t \<in> clock_of E" by (auto simp: Now_def split: prod.splits intro!: image_eqI [of _ _ "env w"])
  with assms n show ?thesis
    by (intro bexI [of _ t]) (simp add: RecordTraffic_world frame Now_case(3) carries_def Let_def)
qed

definition uses_redis :: "ConfigT \<Rightarrow> bool" where
  "uses_redis cfg \<longleftrightarrow> RedisEnable cfg \<and> TrimSpace (RedisAddr cfg) \<noteq> []"

lemma setup_relay_accounting:
  assumes "setup_relay E cfg w = (Inr runner, w')"
  obtains relay kc rec where "accounting_server relay kc rec (uses_redis cfg) (clock_of E)"
    "runner_handler runner = NewServer relay kc (MaxRequestBodySize cfg) (Some rec)"
proof -
  obtain src rec w1 where g: "gateway_sources E cfg w = (Inr (src, rec), w1)"
    using assms by (auto simp: setup_relay_def split: prod.splits sum.splits)
  let ?rl = "Relay E (NewHTTPRelayer (Timeout cfg) src)" and ?kc = "NewHttpKeyConfigSource E (Timeout cfg) src"
  have h: "runner_handler runner = NewServer ?rl ?kc (MaxRequestBodySize cfg) (Some rec)"
    using assms g by (auto simp: setup_relay_def runner_handler_def NewExtProcServerRunner_def Let_def)
  have "accounting_server ?rl ?kc rec (uses_redis cfg) (clock_of E)"
    using g
  proof (cases rule: gateway_sources_cases)
    case static
    then have "uses_redis cfg = False" by (simp add: uses_redis_def)
    with static static_accounting.accounting_server_axioms show ?thesis by simp
  next
    case (redis r tm)
    then have "uses_redis cfg" by (simp add: uses_redis_def)
    moreover have "accounting_server_axioms rec True (clock_of E)"
      unfolding accounting_server_axioms_def if_True redis(2) by (intro allI RecordTraffic_carries [OF redis(6)])
    moreover have "stream_server ?rl ?kc rec"
      using redis by (simp add: redis_stream.stream_server_axioms)
    ultimately show ?thesis by (simp add: accounting_server_def)
  qed
  then show thesis using h by (rule that)
qed

lemma configured_accounting:
  assumes "setup_relay E cfg w0 = (Inr runner, w1)"
    and "Process E send (runner_handler runner) evs w = (r, p, w')"
  obtains bs where "bookings_for (clock_of E) (stream_hosts (uni_lower E) evs) (pr_sent p) bs"
    "accounted (uses_redis cfg) bs w w'"
  using setup_relay_accounting [OF assms(1)] accounting_server.Process_accounted assms(2) by metis

end
