(* ===== verification/Ledger.thy ===== *)
theory Ledger
  imports Delivery Accounting
begin

text \<open>
  Traffic of concurrent streams, in the metrics and in Redis. Every stream makes one booking
  per response it relays (\<open>Accounting\<close>); under any interleaving the shared counters are the sum
  of all bookings, and the store of Redis is the ledger by host and hour (\<open>Traffic\<close>) with all of
  them booked, but for what Redis drops of pipelines it answers with an error. Booking commutes,
  so the order in which the pipelines arrive makes no difference.
\<close>

section \<open>The bookings of a thread\<close>

text \<open>What the calls of a thread are when they make the bookings \<open>bs\<close>.\<close>

definition trace_books :: "bool \<Rightarrow> booking list \<Rightarrow> env_call list \<Rightarrow> bool" where
  "trace_books redis bs tr \<longleftrightarrow>
     counter_value TrafficBytesOut (emitted tr) = (\<Sum>b\<leftarrow>bs. bk_out b)
     \<and> counter_value TrafficBytesIn (emitted tr) = (\<Sum>b\<leftarrow>bs. bk_in b)
     \<and> list_all2 carries (if redis then bs else []) (piped tr)
     \<and> subseq (map bk_in bs) (map (\<lambda>req. len64 (rq_Body req)) (fetched tr))"

lemma trace_books_Nil: "trace_books redis [] []"
  by (simp add: trace_books_def)

lemma bookings_for_clock:
  "bookings_for clock hosts rs bs \<Longrightarrow> clock \<subseteq> clock' \<Longrightarrow> bookings_for clock' hosts rs bs"
  by (auto simp: bookings_for_def list_all_iff)

lemma rest_books:
  assumes "exec E send sched (streams E cfg evss, w) = (ths, w')" and "i < length evss" and "th_at_rest (ths ! i)"
  shows "\<exists>bs. bookings_for (clock_of E) (stream_hosts (uni_lower E) (evss ! i)) (th_sent (ths ! i)) bs
     \<and> trace_books (uses_redis cfg) bs (th_trace (ths ! i))"
proof (cases "th_trace (ths ! i) = []")
  case True
  then have "th_prog (ths ! i) = stream_prog E cfg (evss ! i)" using streams_follow(2) [OF assms(1,2)] by simp
  then have "th_sent (ths ! i) = []" by (simp add: th_sent_def stream_prog_def Process_prog_def)
  with True show ?thesis by (intro exI [of _ "[]"]) (simp add: bookings_for_none trace_books_Nil)
next
  case False
  then obtain r p where m: "th_prog (ths ! i) = Ret (r, p)"
    using assms(3) by (cases "th_prog (ths ! i)") (auto simp: th_at_rest_def)
  obtain runner w0 w1 xs where s: "setup_relay (wild E) cfg w0 = (Inr runner, w1)"
    and P: "Process (wild E) (wild_send (send i)) (runner_handler runner) (evss ! i)
       \<lparr>env = xs, metrics_log = [], outbound = [], pipelines = []\<rparr> =
      (r, p, \<lparr>env = (\<lambda>_. env w), metrics_log = emitted (th_trace (ths ! i)), outbound = fetched (th_trace (ths ! i)),
              pipelines = piped (th_trace (ths ! i))\<rparr>)"
    by (rule wild_returned [OF assms(1,2) m])
  have "clock_of (wild E) \<subseteq> clock_of E" by (auto simp: wild_def)
  moreover obtain bs where "bookings_for (clock_of (wild E)) (stream_hosts (uni_lower E) (evss ! i)) (pr_sent p) bs"
    "trace_books (uses_redis cfg) bs (th_trace (ths ! i))"
    by (rule configured_accounting [OF s P]) (simp add: accounted_def trace_books_def)
  ultimately show ?thesis
    by (intro exI [of _ bs]) (auto simp: th_sent_def m intro: bookings_for_clock)
qed

text \<open>The bookings of all threads.\<close>

definition thread_bookings ::
  "'x externals \<Rightarrow> ConfigT \<Rightarrow> stream_event list list \<Rightarrow> (go_error option option \<times> proc) thread list \<Rightarrow> booking list list \<Rightarrow> bool" where
  "thread_bookings E cfg evss ths bss \<longleftrightarrow>
     length bss = length evss
     \<and> (\<forall>i < length evss.
          bookings_for (clock_of E) (stream_hosts (uni_lower E) (evss ! i)) (th_sent (ths ! i)) (bss ! i)
          \<and> trace_books (uses_redis cfg) (bss ! i) (th_trace (ths ! i)))"

lemma rest_bookings:
  assumes "exec E send sched (streams E cfg evss, w) = (ths, w')" and "list_all th_at_rest ths"
  shows "\<exists>bss. thread_bookings E cfg evss ths bss"
proof -
  have "\<exists>bs. bookings_for (clock_of E) (stream_hosts (uni_lower E) (evss ! i)) (th_sent (ths ! i)) bs
      \<and> trace_books (uses_redis cfg) bs (th_trace (ths ! i))" if "i < length evss" for i
    using rest_books [OF assms(1) that] assms(2) streams_follow(1) [OF assms(1)] that by (simp add: list_all_length)
  then obtain f where "\<And>i. i < length evss \<Longrightarrow>
      bookings_for (clock_of E) (stream_hosts (uni_lower E) (evss ! i)) (th_sent (ths ! i)) (f i)
      \<and> trace_books (uses_redis cfg) (f i) (th_trace (ths ! i))" by metis
  then show ?thesis by (intro exI [of _ "map f [0..<length evss]"]) (simp add: thread_bookings_def)
qed

lemma sum_concat: "(\<Sum>x\<leftarrow>concat xss. f x :: int64) = (\<Sum>xs\<leftarrow>xss. \<Sum>x\<leftarrow>xs. f x)"
  by (induction xss) simp_all

lemma sum_by_index:
  assumes "length xs = length ys" and "\<And>i. i < length xs \<Longrightarrow> f (xs ! i) = g (ys ! i)"
  shows "(\<Sum>x\<leftarrow>xs. f x) = (\<Sum>y\<leftarrow>ys. g y)"
proof -
  have "map f xs = map g ys" using assms by (intro nth_equalityI) simp_all
  then show ?thesis by simp
qed

lemma mset_concat_piped: "(\<Sum>th\<leftarrow>ths. mset (piped (th_trace th))) = mset (concat (map (\<lambda>th. piped (th_trace th)) ths))"
  by (simp add: mset_concat comp_def)

text \<open>The shared world after the bookings of all threads; \<open>pipes\<close> in the order they were handed over.\<close>

lemma exec_books:
  assumes "exec E send sched (streams E cfg evss, w) = (ths, w')" and "thread_bookings E cfg evss ths bss"
  shows "counter_value TrafficBytesOut (metrics_log w') =
      counter_value TrafficBytesOut (metrics_log w) + (\<Sum>b\<leftarrow>concat bss. bk_out b)"
    and "counter_value TrafficBytesIn (metrics_log w') =
      counter_value TrafficBytesIn (metrics_log w) + (\<Sum>b\<leftarrow>concat bss. bk_in b)"
    and "pipelines w' = pipelines w @ pipes \<Longrightarrow>
      \<exists>bs. list_all2 carries bs pipes \<and> mset bs = mset (if uses_redis cfg then concat bss else [])"
proof -
  have l: "length ths = length bss" and b: "\<And>i. i < length ths \<Longrightarrow> trace_books (uses_redis cfg) (bss ! i) (th_trace (ths ! i))"
    using assms(2) streams_follow(1) [OF assms(1)] by (simp_all add: thread_bookings_def)
  note sh = exec_shared [OF assms(1) [unfolded streams_def]]
  show "counter_value TrafficBytesOut (metrics_log w') =
      counter_value TrafficBytesOut (metrics_log w) + (\<Sum>b\<leftarrow>concat bss. bk_out b)"
    "counter_value TrafficBytesIn (metrics_log w') =
      counter_value TrafficBytesIn (metrics_log w) + (\<Sum>b\<leftarrow>concat bss. bk_in b)"
    using b unfolding sh(1) sum_concat trace_books_def
    by (simp_all add: sum_by_index [OF l])
  assume p: "pipelines w' = pipelines w @ pipes"
  let ?bs = "concat (map (\<lambda>bs. if uses_redis cfg then bs else []) bss)"
    and ?ps = "concat (map (\<lambda>th. piped (th_trace th)) ths)"
  have "list_all2 (list_all2 carries) (map (\<lambda>bs. if uses_redis cfg then bs else []) bss) (map (\<lambda>th. piped (th_trace th)) ths)"
    using l b by (simp add: list_all2_conv_all_nth trace_books_def)
  then have "list_all2 carries ?bs ?ps" by (rule concat_transfer [THEN rel_funD])
  moreover have "mset pipes = mset ?ps" using sh(3) p by (auto simp: mset_concat_piped)
  ultimately obtain bs where "list_all2 carries bs pipes" "mset bs = mset ?bs"
    using list_all2_reorder_left_invariance [of "carries\<inverse>\<inverse>" ?ps ?bs pipes] by (auto simp: list.rel_flip)
  moreover have "?bs = (if uses_redis cfg then concat bss else [])" by simp
  ultimately show "\<exists>bs. list_all2 carries bs pipes \<and> mset bs = mset (if uses_redis cfg then concat bss else [])"
    by metis
qed


section \<open>The store\<close>

text \<open>
  What is assumed of Redis and its client. \<open>store x\<close> is what the counters of Redis are once every
  command already on its way has been executed. The client sends a pipeline up to \<open>R\<close>
  times, once and up to \<open>MaxRetries\<close> times again (three by default, which \<open>runRelayServer\<close>
  leaves as it is, so \<open>R\<close> is 4). A pipeline is no transaction: of every attempt any of the
  commands are executed, in their order. When the client reports no error, some attempt was
  executed completely, which does not mean that no other was. This holds for the keys
  \<open>live\<close>, those that Redis does not expire and nobody else writes in the meantime, and the other
  calls of the relay leave these alone.
\<close>

definition on_keys :: "string set \<Rightarrow> redis_counters \<Rightarrow> redis_counters \<Rightarrow> bool" where
  "on_keys live s s' \<longleftrightarrow> (\<forall>key \<in> live. \<forall>field. s (key, field) = s' (key, field))"

definition attempted :: "nat \<Rightarrow> redis_cmd list list \<Rightarrow> redis_cmd list \<Rightarrow> bool" where
  "attempted R attempts cmds \<longleftrightarrow> length attempts \<le> R \<and> list_all (\<lambda>kept. subseq kept cmds) attempts"

definition redis_retries ::
  "nat \<Rightarrow> string set \<Rightarrow> 'x externals \<Rightarrow> (nat \<Rightarrow> 'x SendFn) \<Rightarrow> ('x \<Rightarrow> redis_counters) \<Rightarrow> bool" where
  "redis_retries R live E send store \<longleftrightarrow>
     (\<forall>rdb cmds x. \<exists>attempts. attempted R attempts cmds
        \<and> on_keys live (store (snd (redis_exec E rdb cmds x))) (fold apply_cmd (concat attempts) (store x))
        \<and> (fst (redis_exec E rdb cmds x) = None \<longrightarrow> cmds \<in> set attempts))
     \<and> (\<forall>x. on_keys live (store (snd (time_now E x))) (store x))
     \<and> (\<forall>t req x. on_keys live (store (snd (http_do E t req x))) (store x))
     \<and> (\<forall>rdb t key field x. on_keys live (store (snd (redis_hget E rdb t key field x))) (store x))
     \<and> (\<forall>i resp x. on_keys live (store (snd (send i resp x))) (store x))"

text \<open>A Redis that is always up: every pipeline is executed completely and exactly once.\<close>

definition redis_executes :: "'x externals \<Rightarrow> (nat \<Rightarrow> 'x SendFn) \<Rightarrow> ('x \<Rightarrow> redis_counters) \<Rightarrow> bool" where
  "redis_executes E send store \<longleftrightarrow>
     (\<forall>rdb cmds x. fst (redis_exec E rdb cmds x) = None
        \<and> store (snd (redis_exec E rdb cmds x)) = fold apply_cmd cmds (store x))
     \<and> (\<forall>x. store (snd (time_now E x)) = store x)
     \<and> (\<forall>t req x. store (snd (http_do E t req x)) = store x)
     \<and> (\<forall>rdb t key field x. store (snd (redis_hget E rdb t key field x)) = store x)
     \<and> (\<forall>i resp x. store (snd (send i resp x)) = store x)"

lemma on_keys_refl: "on_keys live s s"
  by (simp add: on_keys_def)

lemma on_keys_trans: "on_keys live s t \<Longrightarrow> on_keys live t u \<Longrightarrow> on_keys live s u"
  by (simp add: on_keys_def)

lemma on_keys_UNIV: "on_keys UNIV s t \<longleftrightarrow> s = t"
  by (auto simp: on_keys_def fun_eq_iff)

lemma on_keys_fold: "on_keys live s t \<Longrightarrow> on_keys live (fold apply_cmd cmds s) (fold apply_cmd cmds t)"
proof (induction cmds arbitrary: s t)
  case (Cons c cmds)
  have "on_keys live (apply_cmd c s) (apply_cmd c t)" using Cons.prems by (cases c) (auto simp: on_keys_def)
  with Cons.IH show ?case by simp
qed simp

lemma redis_executes_retries:
  assumes "redis_executes E send store" shows "redis_retries 1 UNIV E send store"
proof -
  have "\<exists>attempts. attempted 1 attempts cmds
      \<and> on_keys UNIV (store (snd (redis_exec E rdb cmds x))) (fold apply_cmd (concat attempts) (store x))
      \<and> (fst (redis_exec E rdb cmds x) = None \<longrightarrow> cmds \<in> set attempts)" for rdb cmds x
    using assms by (intro exI [of _ "[cmds]"]) (simp add: redis_executes_def attempted_def on_keys_UNIV)
  with assms show ?thesis by (simp add: redis_retries_def redis_executes_def on_keys_UNIV)
qed

text \<open>The positions at which two lists miss a relation.\<close>

definition misses :: "('a \<Rightarrow> 'b \<Rightarrow> bool) \<Rightarrow> 'a list \<Rightarrow> 'b list \<Rightarrow> nat" where
  "misses P xs ys = length (filter (\<lambda>(x, y). \<not> P x y) (zip xs ys))"

lemma misses_simps [simp]:
  "misses P [] ys = 0" "misses P (x # xs) (y # ys) = (if P x y then 0 else 1) + misses P xs ys"
  by (simp_all add: misses_def)

lemma misses_append [simp]:
  "length xs = length ys \<Longrightarrow> misses P (xs @ xs') (ys @ ys') = misses P xs ys + misses P xs' ys'"
  by (simp add: misses_def)

lemma misses_0: "length xs = length ys \<Longrightarrow> misses P xs ys = 0 \<Longrightarrow> list_all2 P xs ys"
  by (induction xs ys rule: list_induct2) (simp_all split: if_splits)

text \<open>The pipelines of a trace that were answered with an error.\<close>

fun pipeline_errors :: "env_call list \<Rightarrow> nat" where
  "pipeline_errors [] = 0"
| "pipeline_errors (EExec rdb cmds (Some err) # tr) = Suc (pipeline_errors tr)"
| "pipeline_errors (c # tr) = pipeline_errors tr"

lemma pipeline_errors_append [simp]: "pipeline_errors (tr @ tr') = pipeline_errors tr + pipeline_errors tr'"
  by (induction tr rule: pipeline_errors.induct) simp_all

lemma pipeline_errors_none:
  assumes "\<And>rdb cmds x. fst (redis_exec E rdb cmds x) = None" and "list_all (plausible E send) tr"
  shows "pipeline_errors tr = 0"
  using assms(2)
proof (induction tr rule: pipeline_errors.induct)
  case (2 rdb cmds err tr)
  then show ?case using assms(1) by (simp add: plausible_def)
qed simp_all

lemma redis_retries_only:
  assumes "redis_retries R live E send store"
  shows "time_now E x = (t, y) \<Longrightarrow> on_keys live (store y) (store x)"
    "http_do E d req x = (resp, y) \<Longrightarrow> on_keys live (store y) (store x)"
    "redis_hget E rdb d key field x = (res, y) \<Longrightarrow> on_keys live (store y) (store x)"
    "send i r x = (e, y) \<Longrightarrow> on_keys live (store y) (store x)"
  using assms unfolding redis_retries_def by (metis snd_conv)+

lemma call_step_store:
  assumes "redis_retries R live E send store" and "call_step E (send i) m w = Some (c, m', w')"
  shows "\<exists>ass. on_keys live (store (env w')) (fold apply_cmd (concat (concat ass)) (store (env w)))
     \<and> list_all2 (attempted R) ass (piped [c]) \<and> misses (\<lambda>as cmds. cmds \<in> set as) ass (piped [c]) \<le> pipeline_errors [c]"
proof (cases m)
  case (Exec rdb cmds k)
  obtain r y where e: "redis_exec E rdb cmds (env w) = (r, y)" by fastforce
  then have c: "c = EExec rdb cmds r" "env w' = y"
    using assms(2) Exec by (auto simp: Pipeline_Exec_def frame)
  obtain as where "attempted R as cmds" "on_keys live (store y) (fold apply_cmd (concat as) (store (env w)))"
    "r = None \<longrightarrow> cmds \<in> set as"
    using assms(1) e unfolding redis_retries_def by (metis fst_conv snd_conv)
  with c show ?thesis by (intro exI [of _ "[as]"]) (cases r; simp)
next
  case (Ret a)
  with assms(2) show ?thesis by simp
qed (use assms(2) in \<open>auto simp: Now_def Do_def HGet_def Send_def with_metrics_def on_keys_refl split: prod.splits
      intro!: exI [of _ "[]"] dest: redis_retries_only [OF assms(1)]\<close>)

lemma exec_store:
  assumes "redis_retries R live E send store" and "exec E send sched (threads ms, w0) = (ths, w)"
  shows "\<exists>pipes ass. pipelines w = pipelines w0 @ pipes \<and> list_all2 (attempted R) ass pipes
     \<and> on_keys live (store (env w)) (fold apply_cmd (concat (concat ass)) (store (env w0)))
     \<and> misses (\<lambda>as cmds. cmds \<in> set as) ass pipes \<le> (\<Sum>th\<leftarrow>ths. pipeline_errors (th_trace th))"
  using assms(2)
proof (induction rule: exec_induct)
  case (step ths w i c m w')
  then obtain ps as where ps: "pipelines w = pipelines w0 @ ps" "list_all2 (attempted R) as ps"
    "on_keys live (store (env w)) (fold apply_cmd (concat (concat as)) (store (env w0)))"
    "misses (\<lambda>as cmds. cmds \<in> set as) as ps \<le> (\<Sum>th\<leftarrow>ths. pipeline_errors (th_trace th))" by blast
  obtain bs where bs: "on_keys live (store (env w')) (fold apply_cmd (concat (concat bs)) (store (env w)))"
    "list_all2 (attempted R) bs (piped [c])"
    "misses (\<lambda>as cmds. cmds \<in> set as) bs (piped [c]) \<le> pipeline_errors [c]"
    using call_step_store [OF assms(1) step.hyps(2)] by blast
  have "on_keys live (store (env w')) (fold apply_cmd (concat (concat (as @ bs))) (store (env w0)))"
    using on_keys_trans [OF bs(1) on_keys_fold [OF ps(3)]] by simp
  moreover have "(\<Sum>th\<leftarrow>ths[i := \<lparr>th_prog = m, th_trace = th_trace (ths ! i) @ [c]\<rparr>]. pipeline_errors (th_trace th)) =
      (\<Sum>th\<leftarrow>ths. pipeline_errors (th_trace th)) + pipeline_errors [c]"
    by (rule sum_list_update_add [OF step.hyps(1)]) simp
  ultimately show ?case using ps bs call_step_world(3) [OF step.hyps(2)]
    by (intro exI [of _ "ps @ piped [c]"] exI [of _ "as @ bs"])
      (simp add: list_all2_appendI list_all2_lengthD del: piped.simps pipeline_errors.simps)
qed (auto simp: threads_def on_keys_refl intro!: exI [of _ "[]"])


section \<open>Booking\<close>

definition entry :: "booking \<Rightarrow> string \<times> int \<times> int64 \<times> int64" where
  "entry b = (bk_host b, hour_number (bk_time b), bk_in b, bk_out b)"

text \<open>What the attempts at a pipeline make of a booking: each sum is booked between \<open>lo\<close> and \<open>R\<close> times.\<close>

definition booked :: "nat \<Rightarrow> nat \<Rightarrow> booking \<Rightarrow> booking \<Rightarrow> bool" where
  "booked lo R e b \<longleftrightarrow> bk_host e = bk_host b \<and> bk_time e = bk_time b
     \<and> (\<exists>m. lo \<le> m \<and> m \<le> R \<and> bk_in e = of_nat m * bk_in b)
     \<and> (\<exists>n. lo \<le> n \<and> n \<le> R \<and> bk_out e = of_nat n * bk_out b)"

lemma booked_once: "booked 1 1 e b \<longleftrightarrow> e = b"
proof -
  have "(\<exists>m. 1 \<le> m \<and> m \<le> (1 :: nat) \<and> x = of_nat m * y) \<longleftrightarrow> x = y" for x y :: int64
    by (metis le_antisym le_refl mult_1 of_nat_1)
  then show ?thesis by (auto simp: booked_def)
qed

text \<open>The two increments of a booking.\<close>

definition increase :: "string \<Rightarrow> int64 \<Rightarrow> int64 \<Rightarrow> redis_counters \<Rightarrow> redis_counters" where
  "increase key i out s = s((key, ''bytes_in'') := s (key, ''bytes_in'') + i, (key, ''bytes_out'') := s (key, ''bytes_out'') + out)"

lemma increase_0: "increase key 0 0 s = s"
  by (simp add: increase_def fun_eq_iff)

lemma increase_increase: "increase key i out (increase key i' out' s) = increase key (i' + i) (out' + out) s"
  by (auto simp: increase_def fun_eq_iff)

lemma subseq_ConsE:
  assumes "subseq ks (c # cs)"
  obtains xs ks' where "ks = xs @ ks'" "xs = [] \<or> xs = [c]" "subseq ks' cs"
proof (cases "\<exists>zs. ks = c # zs \<and> subseq zs cs")
  case True
  then show thesis using that [of "[c]"] by auto
next
  case False
  then have "subseq ks cs" using assms by (cases ks) (auto split: if_splits)
  then show thesis using that [of "[]"] by simp
qed

lemma subseq_three:
  assumes "subseq ks [a, b, c]"
  obtains xs ys zs where "ks = xs @ ys @ zs" "xs = [] \<or> xs = [a]" "ys = [] \<or> ys = [b]" "zs = [] \<or> zs = [c]"
proof -
  obtain xs k1 where 1: "ks = xs @ k1" "xs = [] \<or> xs = [a]" "subseq k1 [b, c]" using assms by (rule subseq_ConsE)
  obtain ys k2 where 2: "k1 = ys @ k2" "ys = [] \<or> ys = [b]" "subseq k2 [c]" using 1(3) by (rule subseq_ConsE)
  obtain zs k3 where 3: "k2 = zs @ k3" "zs = [] \<or> zs = [c]" "subseq k3 []" using 2(3) by (rule subseq_ConsE)
  have "k3 = []" using 3(3) by (cases k3) simp_all
  with 1 2 3 that show thesis by simp
qed

lemma carried_part:
  assumes "carries b cmds" and "subseq kept cmds"
  shows "\<exists>i j. i \<le> 1 \<and> j \<le> 1 \<and> (kept = cmds \<longrightarrow> i = 1 \<and> j = 1)
     \<and> (\<forall>s. fold apply_cmd kept s =
         increase (generateKey (bk_host b) (bk_time b)) (of_nat i * bk_in b) (of_nat j * bk_out b) s)"
proof -
  let ?key = "generateKey (bk_host b) (bk_time b)"
  obtain ttl where cmds: "cmds = [HIncrBy ?key ''bytes_in'' (bk_in b), HIncrBy ?key ''bytes_out'' (bk_out b), Expire ?key ttl]"
    using assms(1) by (auto simp: carries_def Let_def)
  with assms(2) have "subseq kept [HIncrBy ?key ''bytes_in'' (bk_in b), HIncrBy ?key ''bytes_out'' (bk_out b), Expire ?key ttl]"
    by (simp only:)
  then obtain xs ys zs where kept: "kept = xs @ ys @ zs"
    and x: "xs = [] \<or> xs = [HIncrBy ?key ''bytes_in'' (bk_in b)]"
    and y: "ys = [] \<or> ys = [HIncrBy ?key ''bytes_out'' (bk_out b)]" and z: "zs = [] \<or> zs = [Expire ?key ttl]"
    by (rule subseq_three)
  have "fold apply_cmd kept s = increase ?key (of_nat (length xs) * bk_in b) (of_nat (length ys) * bk_out b) s" for s
    using x y z unfolding kept by (elim disjE) (simp_all add: fun_eq_iff increase_def)
  moreover have "length xs = 1 \<and> length ys = 1" if "kept = cmds"
    using x y z that unfolding kept cmds by (elim disjE) simp_all
  moreover have "length xs \<le> 1" "length ys \<le> 1" using x y by auto
  ultimately show ?thesis by blast
qed

lemma carried_attempts:
  assumes "carries b cmds" and "list_all (\<lambda>kept. subseq kept cmds) attempts"
  shows "\<exists>m n. m \<le> length attempts \<and> n \<le> length attempts \<and> (cmds \<in> set attempts \<longrightarrow> 1 \<le> m \<and> 1 \<le> n)
     \<and> (\<forall>s. fold apply_cmd (concat attempts) s =
         increase (generateKey (bk_host b) (bk_time b)) (of_nat m * bk_in b) (of_nat n * bk_out b) s)"
  using assms(2)
proof (induction attempts)
  case Nil
  show ?case by (intro exI [of _ 0]) (simp add: increase_0)
next
  case (Cons kept attempts)
  let ?key = "generateKey (bk_host b) (bk_time b)"
  obtain m n where mn: "m \<le> length attempts" "n \<le> length attempts" "cmds \<in> set attempts \<longrightarrow> 1 \<le> m \<and> 1 \<le> n"
    "\<And>s. fold apply_cmd (concat attempts) s = increase ?key (of_nat m * bk_in b) (of_nat n * bk_out b) s"
    using Cons by auto
  obtain i j where ij: "i \<le> 1" "j \<le> 1" "kept = cmds \<longrightarrow> i = 1 \<and> j = 1"
    "\<And>s. fold apply_cmd kept s = increase ?key (of_nat i * bk_in b) (of_nat j * bk_out b) s"
    using carried_part [OF assms(1), of kept] Cons.prems by auto
  show ?case
    using mn(1-3) ij(1-3) by (intro exI [of _ "i + m"] exI [of _ "j + n"])
      (auto simp: mn(4) ij(4) increase_increase distrib_right)
qed

lemma attempted_booking:
  assumes "carries b cmds" and "attempted R attempts cmds"
  shows "\<exists>e. booked 0 R e b \<and> (cmds \<in> set attempts \<longrightarrow> booked 1 R e b)
     \<and> (\<forall>s. fold apply_cmd (concat attempts) s = increase (generateKey (bk_host e) (bk_time e)) (bk_in e) (bk_out e) s)"
proof -
  obtain m n where mn: "m \<le> length attempts" "n \<le> length attempts" "cmds \<in> set attempts \<longrightarrow> 1 \<le> m \<and> 1 \<le> n"
    "\<forall>s. fold apply_cmd (concat attempts) s =
         increase (generateKey (bk_host b) (bk_time b)) (of_nat m * bk_in b) (of_nat n * bk_out b) s"
    using carried_attempts assms by (metis attempted_def)
  let ?e = "b\<lparr>bk_in := of_nat m * bk_in b, bk_out := of_nat n * bk_out b\<rparr>"
  have "m \<le> R" "n \<le> R" using mn(1,2) assms(2) by (simp_all add: attempted_def)
  then have "booked 0 R ?e b" "cmds \<in> set attempts \<longrightarrow> booked 1 R ?e b"
    using mn(3) by (auto simp: booked_def)
  with mn(4) show ?thesis by (intro exI [of _ ?e]) simp
qed

lemma ledger_of_carried:
  assumes "list_all2 carries bs pipes" and "list_all2 (attempted R) ass pipes" and "list_all (\<lambda>b. four_digit_year (bk_time b)) bs"
  shows "\<exists>es. (\<forall>s. ledger_of (fold apply_cmd (concat (concat ass)) s) = fold book (map entry es) (ledger_of s))
     \<and> list_all2 (booked 0 R) es bs \<and> misses (booked 1 R) es bs \<le> misses (\<lambda>as cmds. cmds \<in> set as) ass pipes"
  using assms
proof (induction bs pipes arbitrary: ass rule: list_all2_induct)
  case (Cons b bs cmds pipes)
  then obtain r rs where ass: "ass = r # rs" "attempted R r cmds" "list_all2 (attempted R) rs pipes" by (auto simp: list_all2_Cons2)
  obtain e where e: "booked 0 R e b" "cmds \<in> set r \<longrightarrow> booked 1 R e b"
    and s: "\<And>s. fold apply_cmd (concat r) s = increase (generateKey (bk_host e) (bk_time e)) (bk_in e) (bk_out e) s"
    using attempted_booking [OF Cons.hyps(1) ass(2)] by blast
  have "four_digit_year (bk_time e)" using e(1) Cons.prems(2) by (simp add: booked_def)
  from ledger_of_increments [OF this]
  have l: "ledger_of (fold apply_cmd (concat r) s) = book (entry e) (ledger_of s)" for s
    by (simp only: s increase_def entry_def)
  have "list_all (\<lambda>b. four_digit_year (bk_time b)) bs" using Cons.prems(2) by simp
  from Cons.IH [OF ass(3) this] obtain es where
    "\<forall>s. ledger_of (fold apply_cmd (concat (concat rs)) s) = fold book (map entry es) (ledger_of s)"
    "list_all2 (booked 0 R) es bs" "misses (booked 1 R) es bs \<le> misses (\<lambda>as cmds. cmds \<in> set as) rs pipes" by blast
  with e l ass(1) show ?case by (intro exI [of _ "e # es"]) auto
qed (intro exI [of _ "[]"], simp)

text \<open>The order of bookings makes no difference.\<close>

lemma book_commute: "book x \<circ> book y = book y \<circ> book x"
  by (cases x; cases y) (auto simp: fun_eq_iff ac_simps)

lemma fold_book_mset: "mset xs = mset ys \<Longrightarrow> fold book xs = fold book ys"
  using book_commute by (rule fold_multiset_equiv)

text \<open>The ledger at the entries whose key is live.\<close>

definition live_entry :: "string set \<Rightarrow> string \<times> int \<Rightarrow> bool" where
  "live_entry live p \<longleftrightarrow> generateKey (fst p) (hour_start (snd p)) \<in> live"

lemma ledger_on_keys: "on_keys live s t \<Longrightarrow> live_entry live p \<Longrightarrow> ledger_of s p = ledger_of t p"
  by (cases p) (simp add: ledger_of_def on_keys_def live_entry_def)

text \<open>The store at rest, over all interleavings.\<close>

lemma stored_ledger:
  assumes "exec E send sched (streams E cfg evss, w) = (ths, w')" and b: "thread_bookings E cfg evss ths bss"
    and "uses_redis cfg" and "redis_retries R live E send store" and y: "\<And>x. four_digit_year (fst (time_now E x))"
  shows "\<exists>bs es. (\<forall>p. live_entry live p \<longrightarrow>
         ledger_of (store (env w')) p = fold book (map entry es) (ledger_of (store (env w))) p)
     \<and> mset bs = mset (concat bss) \<and> list_all2 (booked 0 R) es bs
     \<and> misses (booked 1 R) es bs \<le> (\<Sum>th\<leftarrow>ths. pipeline_errors (th_trace th))"
proof -
  obtain pipes ass where p: "pipelines w' = pipelines w @ pipes" "list_all2 (attempted R) ass pipes"
    "on_keys live (store (env w')) (fold apply_cmd (concat (concat ass)) (store (env w)))"
    "misses (\<lambda>as cmds. cmds \<in> set as) ass pipes \<le> (\<Sum>th\<leftarrow>ths. pipeline_errors (th_trace th))"
    using exec_store [OF assms(4) assms(1) [unfolded streams_def]] by blast
  obtain bs where bs: "list_all2 carries bs pipes" "mset bs = mset (concat bss)"
    using exec_books(3) [OF assms(1) b p(1)] assms(3) by auto
  have "four_digit_year (bk_time x)" if x: "x \<in> set (concat bss)" for x
  proof -
    obtain bs where "bs \<in> set bss" "x \<in> set bs" using x by auto
    then obtain i where "i < length bss" "x \<in> set (bss ! i)" by (auto simp: in_set_conv_nth)
    then have "bk_time x \<in> clock_of E" using b by (simp add: thread_bookings_def bookings_for_def list_all_iff)
    with y show ?thesis by auto
  qed
  then have "list_all (\<lambda>b. four_digit_year (bk_time b)) bs"
    using mset_eq_setD [OF bs(2)] unfolding list_all_iff by blast
  from ledger_of_carried [OF bs(1) p(2) this]
  obtain es where "\<forall>s. ledger_of (fold apply_cmd (concat (concat ass)) s) = fold book (map entry es) (ledger_of s)"
    "list_all2 (booked 0 R) es bs" "misses (booked 1 R) es bs \<le> misses (\<lambda>as cmds. cmds \<in> set as) ass pipes" by blast
  with p(4) bs(2) ledger_on_keys [OF p(3)] show ?thesis by (intro exI [of _ bs] exI [of _ es]) simp
qed

text \<open>When Redis executes every pipeline once, every booking is in the ledger once.\<close>

lemma stored_ledger_exact:
  assumes "exec E send sched (streams E cfg evss, w) = (ths, w')" and b: "thread_bookings E cfg evss ths bss"
    and "uses_redis cfg" and redis: "redis_executes E send store" and "\<And>x. four_digit_year (fst (time_now E x))"
  shows "ledger_of (store (env w')) = fold book (map entry (concat bss)) (ledger_of (store (env w)))"
proof -
  obtain bs es where es: "\<And>p. ledger_of (store (env w')) p = fold book (map entry es) (ledger_of (store (env w))) p"
    "mset bs = mset (concat bss)" "list_all2 (booked 0 1) es bs"
    "misses (booked 1 1) es bs \<le> (\<Sum>th\<leftarrow>ths. pipeline_errors (th_trace th))"
    using stored_ledger [OF assms(1-3) redis_executes_retries [OF redis] assms(5)] by (auto simp: live_entry_def)
  have up: "\<And>rdb cmds x. fst (redis_exec E rdb cmds x) = None" using redis by (simp add: redis_executes_def)
  have "pipeline_errors (th_trace th) = 0" if th: "th \<in> set ths" for th
  proof -
    obtain i where i: "i < length evss" "th = ths ! i"
      using th streams_follow(1) [OF assms(1)] by (auto simp: in_set_conv_nth)
    then have "list_all (plausible E (send i)) (th_trace th)"
      using exec_plausible [OF assms(1) [unfolded streams_def]] by simp
    with up show ?thesis by (rule pipeline_errors_none)
  qed
  then have "(\<Sum>th\<leftarrow>ths. pipeline_errors (th_trace th)) = 0" by (simp add: sum_list_0 cong: map_cong)
  with es(3,4) have "list_all2 (booked 1 1) es bs" by (intro misses_0) (simp_all add: list_all2_lengthD)
  then have "es = bs" unfolding booked_once by (simp add: list_all2_eq [symmetric] list.rel_eq)
  with es(2) have "fold book (map entry es) = fold book (map entry (concat bss))" by (intro fold_book_mset) simp
  with es(1) show ?thesis by (intro ext) simp
qed

text \<open>A stream that is one delivered request makes one booking.\<close>

lemma stream_hosts_request: "stream_hosts lc (request_events v cs c) = {request_host lc v}"
  by (auto simp: stream_hosts_def request_events_def headers_event_def body_event_def event_hosts_def)

lemma request_booking:
  assumes e: "exec E send sched (streams E cfg evss, w) = (ths, w')" and b: "thread_bookings E cfg evss ths bss"
    and i: "i < length evss" "evss ! i = request_events v cs c" and ret: "list_all th_returned ths"
    and rel: "relayable E cfg v (concat cs @ c) url rsp" and send: "\<And>r x. fst (send i r x) = None"
  shows "\<exists>t \<in> clock_of E. map entry (bss ! i) =
     [(request_host (uni_lower E) v, hour_number t, len64 (concat cs @ c), len64 (rs_Body rsp))]"
proof -
  have "th_returned (ths ! i)" using ret i(1) streams_follow(1) [OF e] by (simp add: list_all_length)
  then obtain p where "th_prog (ths ! i) = Ret (Some None, p)" "pr_sent p = [relayed_response (rs_Body rsp)]"
    and f: "fetched (th_trace (ths ! i)) = [relayed_request url (concat cs @ c)]"
    using thread_delivers [OF e i _ rel send] by blast
  then have "th_sent (ths ! i) = [relayed_response (rs_Body rsp)]" by (simp add: th_sent_def)
  with b i have m: "map bk_out (bss ! i) = [len64 (rs_Body rsp)]"
      "list_all (\<lambda>b. bk_host b = request_host (uni_lower E) v \<and> bk_time b \<in> clock_of E) (bss ! i)"
      "subseq (map bk_in (bss ! i)) [len64 (concat cs @ c)]"
    by (auto simp: thread_bookings_def bookings_for_def trace_books_def stream_hosts_request f relayed_request_def
        simp del: relayed_sizes.simps)
  from m(1) obtain x where x: "bss ! i = [x]" "bk_out x = len64 (rs_Body rsp)" by auto
  with m(2,3) show ?thesis by (auto simp: entry_def split: if_splits)
qed


section \<open>Properties\<close>

text \<open>
  C10: traffic is accounted exactly once, in both books. For any number of streams and any
  interleaving of their single calls, whenever no stream is between two calls: the counter of
  outgoing bytes has risen by exactly the bytes of the relayed responses of all streams, no
  other response counts, and when the relay uses Redis the increments handed to Redis add up
  to what the two counters rose by; without Redis nothing is handed to it.
\<close>

theorem concurrent_traffic_accounted:
  assumes "exec E send sched (streams E cfg evss, w) = (ths, w')" and "list_all th_at_rest ths"
  shows "counter_value TrafficBytesOut (metrics_log w') =
       counter_value TrafficBytesOut (metrics_log w) + (\<Sum>th\<leftarrow>ths. relayed_bytes (th_sent th))
     \<and> (\<exists>pipes. pipelines w' = pipelines w @ pipes
        \<and> handed ''bytes_out'' pipes = (if uses_redis cfg then \<Sum>th\<leftarrow>ths. relayed_bytes (th_sent th) else 0)
        \<and> handed ''bytes_in'' pipes =
            (if uses_redis cfg
             then counter_value TrafficBytesIn (metrics_log w') - counter_value TrafficBytesIn (metrics_log w) else 0))"
proof -
  obtain bss where b: "thread_bookings E cfg evss ths bss" using rest_bookings [OF assms] by blast
  note x = exec_books [OF assms(1) b]
  have "(\<Sum>th\<leftarrow>ths. relayed_bytes (th_sent th)) = (\<Sum>bs\<leftarrow>bss. \<Sum>b\<leftarrow>bs. bk_out b)"
    using b streams_follow(1) [OF assms(1)]
    by (intro sum_by_index) (simp_all add: thread_bookings_def relayed_bytes_def bookings_for_def)
  then have out: "(\<Sum>th\<leftarrow>ths. relayed_bytes (th_sent th)) = (\<Sum>b\<leftarrow>concat bss. bk_out b)" by (simp add: sum_concat)
  obtain pipes where p: "pipelines w' = pipelines w @ pipes"
    using exec_shared(3) [OF assms(1) [unfolded streams_def]] by blast
  then obtain bs where bs: "list_all2 carries bs pipes" "mset bs = mset (if uses_redis cfg then concat bss else [])"
    using x(3) by blast
  have "(\<Sum>b\<leftarrow>bs. f b) = (if uses_redis cfg then \<Sum>b\<leftarrow>concat bss. f b else 0)" for f :: "booking \<Rightarrow> int64"
    using bs(2) by (cases "uses_redis cfg") (simp_all add: mset_map flip: sum_mset_sum_list)
  with handed_carried [OF bs(1)] x(1,2) out p show ?thesis by auto
qed

theorem concurrent_traffic_accounted_witness:
  "\<exists>sched ths w'. exec example_externals (\<lambda>_. example_send) sched
        (streams example_externals example_config example_streams, example_world) = (ths, w')
     \<and> list_all th_returned ths
     \<and> counter_value TrafficBytesOut (metrics_log w') = (\<Sum>th\<leftarrow>ths. relayed_bytes (th_sent th))
     \<and> handed ''bytes_out'' (pipelines w') = (\<Sum>th\<leftarrow>ths. relayed_bytes (th_sent th))"
proof -
  obtain sched ths w' where e: "exec example_externals (\<lambda>_. example_send) sched
      (streams example_externals example_config example_streams, example_world) = (ths, w')"
      "list_all th_returned ths" by (rule example_run)
  have "list_all th_at_rest ths" using e(2) by (auto simp: list_all_iff th_returned_rest)
  moreover have "uses_redis example_config"
    by code_simp
  ultimately show ?thesis
    using concurrent_traffic_accounted [OF e(1)] e by (auto simp: example_world_def)
qed

text \<open>
  C11: Redis holds the ledger of all streams, up to what a store without transactions and a
  retrying client allow. For any number of streams of a relay that uses Redis, under any
  interleaving of their single calls, whenever no stream is between two calls: the counters in
  Redis are the ledger they were with the bookings of all relayed responses, and no other
  live entry has changed. Each booking stands for one relayed response; its two sums are in the ledger
  at most as often as the client sends a pipeline, and at least once, except for at most as
  many bookings as there were pipelines answered with an error, which the relay drops. (So a
  client that does not retry books every response whose pipeline succeeds exactly once; the
  one the relay uses may book it up to four times.) The bookings of a stream carry, in order,
  the sizes of its relayed responses, the sizes of bodies it sent to a gateway, hosts it
  named, and hours the clock shows.
\<close>

theorem concurrent_ledger:
  assumes "exec E send sched (streams E cfg evss, w) = (ths, w')" and "list_all th_at_rest ths"
    and "uses_redis cfg" and "redis_retries R live E send store" and "\<And>x. four_digit_year (fst (time_now E x))"
  shows "\<exists>bss bs es. length bss = length evss \<and> mset bs = mset (concat bss)
     \<and> (\<forall>p. live_entry live p \<longrightarrow>
          ledger_of (store (env w')) p = fold book (map entry es) (ledger_of (store (env w))) p)
     \<and> list_all2 (booked 0 R) es bs \<and> misses (booked 1 R) es bs \<le> (\<Sum>th\<leftarrow>ths. pipeline_errors (th_trace th))
     \<and> (\<forall>i < length evss.
          map bk_out (bss ! i) = relayed_sizes (th_sent (ths ! i))
          \<and> subseq (map bk_in (bss ! i)) (map (\<lambda>req. len64 (rq_Body req)) (fetched (th_trace (ths ! i))))
          \<and> (\<forall>b \<in> set (bss ! i). bk_host b \<in> stream_hosts (uni_lower E) (evss ! i) \<and> bk_time b \<in> clock_of E))"
proof -
  obtain bss where b: "thread_bookings E cfg evss ths bss" using rest_bookings [OF assms(1,2)] by blast
  obtain bs es where "\<forall>p. live_entry live p \<longrightarrow>
      ledger_of (store (env w')) p = fold book (map entry es) (ledger_of (store (env w))) p"
    "mset bs = mset (concat bss)" "list_all2 (booked 0 R) es bs"
    "misses (booked 1 R) es bs \<le> (\<Sum>th\<leftarrow>ths. pipeline_errors (th_trace th))"
    using stored_ledger [OF assms(1) b assms(3-5)] by blast
  with b show ?thesis
    by (intro exI [of _ bss] exI [of _ bs] exI [of _ es])
      (simp add: thread_bookings_def trace_books_def bookings_for_def list_all_iff)
qed

text \<open>A Redis that is its counters, and gateways that send the body back.\<close>

definition echoing_redis :: "redis_counters externals" where
  "echoing_redis = example_redis\<lparr>http_do := (\<lambda>_ req x.
     (DoOk \<lparr>rs_StatusCode = 200, rs_Header = Map.empty, rs_Body = rq_Body req, rs_BodyErr = None\<rparr>, x))\<rparr>"

definition counters_send :: "redis_counters SendFn" where
  "counters_send resp x = (None, x)"

lemma echoing_redis_store: "redis_executes echoing_redis (\<lambda>_. counters_send) id"
  by (simp add: redis_executes_def echoing_redis_def example_redis_def counters_send_def)

text \<open>
  The same Redis behind a connection that always breaks after the first command of the first
  attempt: the client sends the pipeline a second time, and that attempt succeeds.
\<close>

definition retried_redis :: "redis_counters externals" where
  "retried_redis = echoing_redis\<lparr>redis_exec := (\<lambda>_ cmds x. (None, fold apply_cmd cmds (fold apply_cmd (take 1 cmds) x)))\<rparr>"

lemma retried_redis_store: "redis_retries 4 UNIV retried_redis (\<lambda>_. counters_send) id"
proof -
  have "\<exists>attempts. attempted 4 attempts cmds
      \<and> fold apply_cmd cmds (fold apply_cmd (take 1 cmds) x) = fold apply_cmd (concat attempts) x
      \<and> cmds \<in> set attempts" for cmds and x :: redis_counters
    by (intro exI [of _ "[take 1 cmds, cmds]"]) (simp add: attempted_def prefix_imp_subseq take_is_prefix)
  then show ?thesis
    by (simp add: redis_retries_def retried_redis_def echoing_redis_def example_redis_def counters_send_def on_keys_UNIV)
qed

lemma echoing_redis_clock: "fst (time_now echoing_redis x) = 0" "uni_lower echoing_redis = id"
  by (simp_all add: echoing_redis_def example_redis_def)

lemma retried_redis_clock: "fst (time_now retried_redis x) = 0"
  by (simp add: retried_redis_def echoing_redis_clock)

lemma year_0: "four_digit_year 0"
  by code_simp

lemma example_uses_redis: "uses_redis example_config"
  by code_simp

definition fresh_world :: "redis_counters world" where
  "fresh_world = \<lparr>env = (\<lambda>_. 0), metrics_log = [], outbound = [], pipelines = []\<rparr>"

theorem concurrent_ledger_witness:
  "\<exists>sched ths w' bss bs es. exec retried_redis (\<lambda>_. counters_send) sched
        (streams retried_redis example_config example_streams, fresh_world) = (ths, w')
     \<and> list_all th_returned ths
     \<and> ledger_of (env w') = fold book (map entry es) (\<lambda>_. (0, 0)) \<and> list_all2 (booked 0 4) es bs
     \<and> mset bs = mset (concat bss) \<and> map bk_out (bss ! 0) = relayed_sizes (th_sent (ths ! 0))"
proof -
  obtain n where "list_all th_returned (fst (exec retried_redis (\<lambda>_. counters_send) (map alternate [0..<n])
      (streams retried_redis example_config example_streams, fresh_world)))"
    using fair_returned [OF alternate_fair example_streams_ok(2)] by blast
  then obtain ths w' where e: "exec retried_redis (\<lambda>_. counters_send) (map alternate [0..<n])
      (streams retried_redis example_config example_streams, fresh_world) = (ths, w')" and r: "list_all th_returned ths"
    by (metis prod.collapse)
  have "list_all th_at_rest ths" using r by (auto simp: list_all_iff th_returned_rest)
  from concurrent_ledger [OF e this example_uses_redis retried_redis_store]
  obtain bss bs es where "\<And>p. ledger_of (id (env w')) p = fold book (map entry es) (ledger_of (id (env fresh_world))) p"
    "mset bs = mset (concat bss)" "list_all2 (booked 0 4) es bs" "\<forall>i < length example_streams. map bk_out (bss ! i) = relayed_sizes (th_sent (ths ! i))"
    unfolding retried_redis_clock by (auto simp: year_0 live_entry_def)
  moreover have fresh: "ledger_of (id (env fresh_world)) = (\<lambda>_. (0, 0))" by (auto simp: fresh_world_def ledger_of_def)
  moreover have "0 < length example_streams" by (simp add: example_streams_def)
  ultimately have "ledger_of (env w') = fold book (map entry es) (ledger_of (id (env fresh_world)))"
    "list_all2 (booked 0 4) es bs" "mset bs = mset (concat bss)" "map bk_out (bss ! 0) = relayed_sizes (th_sent (ths ! 0))"
    by (auto intro: ext)
  with e r show ?thesis unfolding fresh by blast
qed

text \<open>
  C12: every delivered request is in the ledger. Any number of streams, each a request with
  accepted headers and a body in any pieces within the limit, for a host of the static map whose
  gateway answers it with a success, and a Redis that executes every pipeline once and answers
  it without error: under every fair schedule of their single calls, from some point on the
  ledger in Redis is the initial one with exactly one booking per request, under the host the
  request names and an hour the clock shows, of the length of its body and the length of the
  answer.
\<close>

theorem concurrent_requests_booked:
  assumes fair: "\<forall>j < length rqs. \<forall>n. \<exists>n' \<ge> n. \<sigma> n' = j"
    and rel: "\<And>i v cs c. i < length rqs \<Longrightarrow> rqs ! i = (v, cs, c) \<Longrightarrow> relayable E cfg v (concat cs @ c) (url i) (rsp i)"
    and send: "\<And>i r x. fst (send i r x) = None"
    and redis: "uses_redis cfg" "redis_executes E send store" "\<And>x. four_digit_year (fst (time_now E x))"
  shows "\<exists>n. \<forall>n' \<ge> n.
     case exec E send (map \<sigma> [0..<n']) (streams E cfg (map (\<lambda>(v, cs, c). request_events v cs c) rqs), w) of (ths, w') \<Rightarrow>
       \<exists>hr. range hr \<subseteq> hour_number ` clock_of E
         \<and> ledger_of (store (env w')) =
             fold book (map (\<lambda>i. case rqs ! i of (v, cs, c) \<Rightarrow>
                 (request_host (uni_lower E) v, hr i, len64 (concat cs @ c), len64 (rs_Body (rsp i)))) [0..<length rqs])
               (ledger_of (store (env w)))"
proof -
  let ?evss = "map (\<lambda>(v, cs, c). request_events v cs c) rqs"
  have ends: "list_all (list_ex ends_stream) ?evss"
    by (auto simp: list_all_iff request_events_def ends_stream_def)
  obtain n where n: "\<And>n'. n' \<ge> n \<Longrightarrow> list_all th_returned (fst (exec E send (map \<sigma> [0..<n']) (streams E cfg ?evss, w)))"
    using fair_returned [OF _ ends] fair by (metis length_map)
  have "\<exists>hr. range hr \<subseteq> hour_number ` clock_of E
      \<and> ledger_of (store (env w')) =
          fold book (map (\<lambda>i. case rqs ! i of (v, cs, c) \<Rightarrow>
              (request_host (uni_lower E) v, hr i, len64 (concat cs @ c), len64 (rs_Body (rsp i)))) [0..<length rqs])
            (ledger_of (store (env w)))"
    if "n' \<ge> n" and e: "exec E send (map \<sigma> [0..<n']) (streams E cfg ?evss, w) = (ths, w')" for n' ths w'
  proof -
    have r: "list_all th_returned ths" using n [OF that(1)] e by simp
    then have "list_all th_at_rest ths" by (auto simp: list_all_iff th_returned_rest)
    then obtain bss where b: "thread_bookings E cfg ?evss ths bss" using rest_bookings [OF e] by blast
    let ?entry = "\<lambda>i t. case rqs ! i of (v, cs, c) \<Rightarrow>
      (request_host (uni_lower E) v, hour_number t, len64 (concat cs @ c), len64 (rs_Body (rsp i)))"
    have "\<exists>t. t \<in> clock_of E \<and> (i < length rqs \<longrightarrow> map entry (bss ! i) = [?entry i t])" for i
    proof (cases "i < length rqs")
      case True
      obtain v cs c where q: "rqs ! i = (v, cs, c)" by (metis prod_cases3)
      have "i < length ?evss" "?evss ! i = request_events v cs c" using True q by simp_all
      from request_booking [OF e b this r rel [OF True q] send] q True show ?thesis by auto
    qed auto
    then have "\<exists>f. \<forall>i. f i \<in> clock_of E \<and> (i < length rqs \<longrightarrow> map entry (bss ! i) = [?entry i (f i)])"
      by (intro choice) blast
    then obtain f where f: "\<And>i. f i \<in> clock_of E" "\<And>i. i < length rqs \<Longrightarrow> map entry (bss ! i) = [?entry i (f i)]"
      by blast
    have l: "length bss = length rqs" using b by (simp add: thread_bookings_def)
    have "map (map entry) bss = map (\<lambda>i. [?entry i (f i)]) [0..<length rqs]"
      by (rule nth_equalityI) (simp_all add: l f(2))
    then have "map entry (concat bss) = map (\<lambda>i. ?entry i (f i)) [0..<length rqs]"
      by (simp only: map_concat concat_map_singleton)
    with stored_ledger_exact [OF e b redis] f(1) show ?thesis
      by (intro exI [of _ "\<lambda>i. hour_number (f i)"]) auto
  qed
  then show ?thesis by (intro exI [of _ n] allI impI) (auto split: prod.split)
qed

text \<open>Two requests for one host, of six and of two bytes.\<close>

definition two_requests :: "(HttpHeaders option \<times> bytes list \<times> bytes) list" where
  "two_requests =
     (let v = Some \<lparr>hh_Headers = Some [raw_header '':method'' ''POST'', raw_header ''Host'' ''EXAMPLE.test'',
            raw_header ''content-length'' ''6'']\<rparr>
      in [(v, [''op'', ''aq''], ''ue''), (v, [], ''ab'')])"

theorem concurrent_requests_booked_witness:
  "\<exists>n ths w'. exec echoing_redis (\<lambda>_. counters_send) (map alternate [0..<n])
       (streams echoing_redis example_config (map (\<lambda>(v, cs, c). request_events v cs c) two_requests), fresh_world) = (ths, w')
     \<and> ledger_of (env w') (''example.test'', 0) = (8, 8)"
proof -
  let ?v = "Some \<lparr>hh_Headers = Some [raw_header '':method'' ''POST'', raw_header ''Host'' ''EXAMPLE.test'',
            raw_header ''content-length'' ''6'']\<rparr>"
  let ?body = "\<lambda>i :: nat. case two_requests ! i of (v, cs, c) \<Rightarrow> concat cs @ c"
  let ?rsp = "\<lambda>i. \<lparr>rs_StatusCode = 200, rs_Header = Map.empty, rs_Body = ?body i, rs_BodyErr = None\<rparr>"
  have two: "two_requests = [(?v, [''op'', ''aq''], ''ue''), (?v, [], ''ab'')]" by (simp add: two_requests_def Let_def)
  have h: "request_host id ?v = ''example.test''" and a: "accepted_headers id ?v" by code_simp+
  have fair: "\<forall>j < length two_requests. \<forall>n. \<exists>n' \<ge> n. alternate n' = j"
    using alternate_fair by (simp add: two example_streams_def)
  have rel: "relayable echoing_redis example_config v (concat cs @ c) ''https://g'' (?rsp i)"
    if "i < length two_requests" "two_requests ! i = (v, cs, c)" for i v cs c
  proof -
    have "v = ?v" "length (concat cs @ c) \<le> 6" using that by (auto simp: two less_Suc_eq)
    then show ?thesis
      by (simp add: relayable_def echoing_redis_clock that(2) h a)
        (simp add: example_config_def echoing_redis_def example_redis_def relayed_request_def)
  qed
  let ?run = "\<lambda>n. exec echoing_redis (\<lambda>_. counters_send) (map alternate [0..<n])
    (streams echoing_redis example_config (map (\<lambda>(v, cs, c). request_events v cs c) two_requests), fresh_world)"
  let ?booked = "\<lambda>w' hr. range hr \<subseteq> hour_number ` clock_of echoing_redis
     \<and> ledger_of (id (env w')) = fold book (map (\<lambda>i. case two_requests ! i of (v, cs, c) \<Rightarrow>
           (request_host (uni_lower echoing_redis) v, hr i, len64 (concat cs @ c), len64 (rs_Body (?rsp i))))
         [0..<length two_requests]) (ledger_of (id (env fresh_world)))"
  have "\<exists>n. \<forall>n' \<ge> n. case ?run n' of (ths, w') \<Rightarrow> \<exists>hr. ?booked w' hr"
    by (rule concurrent_requests_booked [OF fair rel _ example_uses_redis echoing_redis_store])
      (simp_all add: counters_send_def echoing_redis_clock year_0)
  then obtain n ths w' hr where e: "?run n = (ths, w')" and l: "?booked w' hr" by fastforce
  have "hr i = 0" for i
    using l by (auto simp: echoing_redis_clock image_iff subset_iff)
  with l have "ledger_of (env w') (''example.test'', 0) = (8, 8)"
    by (simp add: echoing_redis_clock two h len64_def fresh_world_def ledger_of_def)
  with e show ?thesis by blast
qed

end
