(* ===== verification/KeyConfig.thy ===== *)
theory KeyConfig
  imports Go_Strings "HOL-Library.Multiset"
begin

text \<open>
  \<open>pkg/echo-gateway/keyconfig/key_config.go\<close>: key configurations as YAML files. The YAML
  codec and the KEM schemes are parameters. The identifiers of the HPKE library are the
  constants the code names, with one more constructor for any other number; the zero value of
  an identifier is such another number. \<open>Scheme\<close> panics on an identifier without a scheme, so
  reading a file has panics besides errors.
\<close>

section \<open>Identifiers\<close>

datatype AEAD = AEAD_AES128GCM | AEAD_AES256GCM | AEAD_ChaCha20Poly1305 | AEAD_other nat
datatype KDF = KDF_HKDF_SHA256 | KDF_HKDF_SHA384 | KDF_HKDF_SHA512 | KDF_other nat
datatype KEM = KEM_P256_HKDF_SHA256 | KEM_P384_HKDF_SHA384 | KEM_P521_HKDF_SHA512 | KEM_X25519_HKDF_SHA256
  | KEM_X448_HKDF_SHA512 | KEM_X25519_KYBER768_DRAFT00 | KEM_XWING | KEM_other nat

definition nameToAEADID :: "(string \<times> AEAD) list" where
  "nameToAEADID = [(''AES128GCM'', AEAD_AES128GCM), (''AES256GCM'', AEAD_AES256GCM),
                   (''ChaCha20Poly1305'', AEAD_ChaCha20Poly1305)]"

definition nameToKDFID :: "(string \<times> KDF) list" where
  "nameToKDFID = [(''SHA256'', KDF_HKDF_SHA256), (''SHA384'', KDF_HKDF_SHA384), (''SHA512'', KDF_HKDF_SHA512)]"

definition nameToKemID :: "(string \<times> KEM) list" where
  "nameToKemID =
     [(''P256_HKDF_SHA256'', KEM_P256_HKDF_SHA256), (''P384_HKDF_SHA384'', KEM_P384_HKDF_SHA384),
      (''P521_HKDF_SHA512'', KEM_P521_HKDF_SHA512), (''X25519_HKDF_SHA256'', KEM_X25519_HKDF_SHA256),
      (''X448_HKDF_SHA512'', KEM_X448_HKDF_SHA512), (''X25519_KYBER768_DRAFT00'', KEM_X25519_KYBER768_DRAFT00),
      (''KEM_XWING'', KEM_XWING)]"

text \<open>Ranging over a Go map meets the entries in any order: the order of the list.\<close>

fun idToStr :: "'a \<Rightarrow> (string \<times> 'a) list \<Rightarrow> string" where
  "idToStr s [] = []"
| "idToStr s ((k, v) # m) = (if v = s then k else idToStr s m)"


section \<open>Hexadecimal\<close>

definition hex_digit :: "nat \<Rightarrow> char" where
  "hex_digit n = char_of (if n < 10 then 48 + n else 87 + n)"

fun EncodeToString :: "bytes \<Rightarrow> string" where
  "EncodeToString [] = []"
| "EncodeToString (b # bs) = hex_digit (byte b div 16) # hex_digit (byte b mod 16) # EncodeToString bs"

definition fromHexChar :: "char \<Rightarrow> nat option" where
  "fromHexChar c =
     (let n = byte c
      in if 48 \<le> n \<and> n \<le> 57 then Some (n - 48)
         else if 97 \<le> n \<and> n \<le> 102 then Some (n - 87)
         else if 65 \<le> n \<and> n \<le> 70 then Some (n - 55)
         else None)"

definition InvalidByteError :: "char \<Rightarrow> go_error" where
  "InvalidByteError c = Errorf ''encoding/hex: invalid byte: %#U'' [[c]] None"

definition ErrLength :: go_error where
  "ErrLength = ErrorsNew ''encoding/hex: odd length hex string''"

fun DecodeString :: "string \<Rightarrow> bytes result" where
  "DecodeString [] = Inr []"
| "DecodeString [p] = (if fromHexChar p = None then Inl (InvalidByteError p) else Inl ErrLength)"
| "DecodeString (p # q # s) =
     (case fromHexChar p of
        None \<Rightarrow> Inl (InvalidByteError p)
      | Some a \<Rightarrow>
          (case fromHexChar q of
             None \<Rightarrow> Inl (InvalidByteError q)
           | Some b \<Rightarrow> map_sum id (\<lambda>bs. char_of (16 * a + b) # bs) (DecodeString s)))"


section \<open>Key configurations\<close>

record SymmetricAlgorithm =
  sa_KDFID :: KDF
  sa_AEADID :: AEAD

record 'pk KeyConfigT =
  kc_KeyID :: "8 word"
  kc_KemID :: KEM
  kc_PublicKey :: 'pk
  kc_SymmetricAlgorithms :: "SymmetricAlgorithm list"

record yamlKeyConfig =
  yk_KeyID :: "8 word"
  yk_Kem :: string
  yk_PublicKey :: string
  yk_SymmetricAlgorithms :: "(string \<times> string) list"

text \<open>The libraries: the YAML codec and, for each KEM with a scheme, its public keys.\<close>

record 'pk key_lib =
  yaml_Marshal :: "yamlKeyConfig \<Rightarrow> bytes result"
  yaml_Unmarshal :: "bytes \<Rightarrow> yamlKeyConfig result"
  pk_MarshalBinary :: "'pk \<Rightarrow> bytes result"
  kem_Scheme :: "KEM \<Rightarrow> (bytes \<Rightarrow> 'pk result) option"

text \<open>A call returns, or it panics.\<close>

datatype 'a call = Returns 'a | Panics

definition MarshalKeyConfig :: "'pk key_lib \<Rightarrow> 'pk KeyConfigT \<Rightarrow> bytes result" where
  "MarshalKeyConfig L kc =
     (case pk_MarshalBinary L (kc_PublicKey kc) of
        Inl err \<Rightarrow> Inl (Errorf ''public key: %w'' [] (Some err))
      | Inr pK \<Rightarrow>
          yaml_Marshal L
            \<lparr>yk_KeyID = kc_KeyID kc, yk_Kem = idToStr (kc_KemID kc) nameToKemID,
             yk_PublicKey = EncodeToString pK,
             yk_SymmetricAlgorithms =
               map (\<lambda>sa. (idToStr (sa_KDFID sa) nameToKDFID, idToStr (sa_AEADID sa) nameToAEADID))
                 (kc_SymmetricAlgorithms kc)\<rparr>)"

fun read_algorithms :: "(string \<times> string) list \<Rightarrow> SymmetricAlgorithm list result" where
  "read_algorithms [] = Inr []"
| "read_algorithms ((kdf, aead) # sas) =
     (case map_of nameToKDFID kdf of
        None \<Rightarrow> Inl (Errorf ''invalid KDF in item %s'' [kdf] None)
      | Some k \<Rightarrow>
          (case map_of nameToAEADID aead of
             None \<Rightarrow> Inl (Errorf ''invalid AEAD in item %s'' [aead] None)
           | Some a \<Rightarrow> map_sum id (\<lambda>r. \<lparr>sa_KDFID = k, sa_AEADID = a\<rparr> # r) (read_algorithms sas)))"

text \<open>A missing name gives the zero identifier.\<close>

definition kem_of_name :: "string \<Rightarrow> KEM" where
  "kem_of_name n = (case map_of nameToKemID n of Some k \<Rightarrow> k | None \<Rightarrow> KEM_other 0)"

definition UnmarshalKeyConfig :: "'pk key_lib \<Rightarrow> bytes \<Rightarrow> 'pk KeyConfigT result call" where
  "UnmarshalKeyConfig L data =
     (case yaml_Unmarshal L data of
        Inl err \<Rightarrow> Returns (Inl (Errorf ''yaml: %w'' [] (Some err)))
      | Inr y \<Rightarrow>
          (case DecodeString (yk_PublicKey y) of
             Inl err \<Rightarrow> Returns (Inl (Errorf ''public key: %w'' [] (Some err)))
           | Inr pK \<Rightarrow>
               if length pK = 0 then Returns (Inl (Errorf ''empty public key'' [] None))
               else
                 let kemID = kem_of_name (yk_Kem y)
                 in case kem_Scheme L kemID of
                      None \<Rightarrow> Panics
                    | Some UnmarshalBinaryPublicKey \<Rightarrow>
                        (case UnmarshalBinaryPublicKey pK of
                           Inl err \<Rightarrow> Returns (Inl (Errorf ''unmarshal binary public key: %w'' [] (Some err)))
                         | Inr pk \<Rightarrow>
                             Returns (map_sum id
                               (\<lambda>sas. \<lparr>kc_KeyID = yk_KeyID y, kc_KemID = kemID, kc_PublicKey = pk,
                                       kc_SymmetricAlgorithms = sas\<rparr>)
                               (read_algorithms (yk_SymmetricAlgorithms y))))))"


section \<open>Properties\<close>

lemma fromHexChar_hex_digit: "n < 16 \<Longrightarrow> fromHexChar (hex_digit n) = Some n"
  by (simp add: fromHexChar_def hex_digit_def Let_def)

lemma hex_roundtrip: "DecodeString (EncodeToString bs) = Inr bs"
proof (induction bs)
  case (Cons b bs)
  have "byte b < 256" by (simp add:)
  then have "byte b div 16 < 16" by (simp add: less_mult_imp_div_less)
  moreover have "char_of (16 * (byte b div 16) + byte b mod 16) = b" by (simp add:)
  ultimately show ?case using Cons by (simp add: fromHexChar_hex_digit)
qed simp

lemma idToStr_map_of:
  "distinct (map snd m) \<Longrightarrow> idToStr s m = (case map_of (map (\<lambda>(k, v). (v, k)) m) s of Some k \<Rightarrow> k | None \<Rightarrow> [])"
  by (induction m) auto

text \<open>
  The name of an identifier does not depend on the order in which the entries of the map
  are met, as the order of a Go map is not fixed: for any two orders of a map without repeated
  identifiers the same name is found.
\<close>

lemma idToStr_order:
  assumes "mset m = mset m'" and "distinct (map snd m)"
  shows "idToStr s m = idToStr s m'"
proof -
  have d': "distinct (map snd m')"
    using assms(2) mset_eq_imp_distinct_iff [of "map snd m" "map snd m'"] assms(1) by simp
  let ?flip = "map (\<lambda>(k, v). (v, k))"
  have "mset (?flip m) = mset (?flip m')" using assms(1) by simp
  then have "set (?flip m) = set (?flip m')" by (rule mset_eq_setD)
  moreover have "distinct (map fst (?flip m))" "distinct (map fst (?flip m'))"
    using assms(2) d' by (simp_all add: comp_def split_def)
  ultimately have "map_of (?flip m) = map_of (?flip m')"
    using map_of_inject_set by blast
  then show ?thesis using assms(2) d' by (simp add: idToStr_map_of)
qed

lemma idToStr_order_example: "idToStr KEM_XWING nameToKemID = idToStr KEM_XWING (rev nameToKemID)"
  by (rule idToStr_order) (simp_all add: nameToKemID_def)

text \<open>Identifiers that have a name.\<close>

fun named_kem :: "KEM \<Rightarrow> bool" where
  "named_kem (KEM_other n) = False"
| "named_kem k = True"

fun named_kdf :: "KDF \<Rightarrow> bool" where
  "named_kdf (KDF_other n) = False"
| "named_kdf k = True"

fun named_aead :: "AEAD \<Rightarrow> bool" where
  "named_aead (AEAD_other n) = False"
| "named_aead a = True"

definition named_config :: "'pk KeyConfigT \<Rightarrow> bool" where
  "named_config kc \<longleftrightarrow> named_kem (kc_KemID kc)
     \<and> list_all (\<lambda>sa. named_kdf (sa_KDFID sa) \<and> named_aead (sa_AEADID sa)) (kc_SymmetricAlgorithms kc)"

lemma names_of_ids:
  "map_of nameToKDFID (idToStr k nameToKDFID) = (if named_kdf k then Some k else None)"
  "map_of nameToAEADID (idToStr a nameToAEADID) = (if named_aead a then Some a else None)"
  "kem_of_name (idToStr e nameToKemID) = (if named_kem e then e else KEM_other 0)"
  subgoal by (cases k) (simp_all add: nameToKDFID_def)
  subgoal by (cases a) (simp_all add: nameToAEADID_def)
  subgoal by (cases e) (simp_all add: nameToKemID_def kem_of_name_def)
  done

lemma read_algorithms_names:
  "read_algorithms (map (\<lambda>sa. (idToStr (sa_KDFID sa) nameToKDFID, idToStr (sa_AEADID sa) nameToAEADID)) sas) = Inr sas
   \<longleftrightarrow> list_all (\<lambda>sa. named_kdf (sa_KDFID sa) \<and> named_aead (sa_AEADID sa)) sas"
proof (induction sas)
  case (Cons sa sas)
  obtain r where "read_algorithms (map (\<lambda>sa. (idToStr (sa_KDFID sa) nameToKDFID, idToStr (sa_AEADID sa) nameToAEADID)) sas) = r"
    by blast
  with Cons show ?case by (cases r) (auto simp: names_of_ids)
qed simp

lemma KeyConfig_read_back:
  assumes yaml: "\<And>y b. yaml_Marshal L y = Inr b \<Longrightarrow> yaml_Unmarshal L b = Inr y"
    and zero: "kem_Scheme L (KEM_other 0) = None"
    and scheme: "kem_Scheme L (kc_KemID kc) = Some rd" "pk_MarshalBinary L (kc_PublicKey kc) = Inr pK"
      "rd pK = Inr (kc_PublicKey kc)" "pK \<noteq> []"
    and written: "MarshalKeyConfig L kc = Inr b"
  shows "UnmarshalKeyConfig L b = Returns (Inr kc) \<longleftrightarrow> named_config kc"
proof -
  let ?sas = "map (\<lambda>sa. (idToStr (sa_KDFID sa) nameToKDFID, idToStr (sa_AEADID sa) nameToAEADID))
    (kc_SymmetricAlgorithms kc)"
  have y: "yaml_Unmarshal L b = Inr \<lparr>yk_KeyID = kc_KeyID kc, yk_Kem = idToStr (kc_KemID kc) nameToKemID,
      yk_PublicKey = EncodeToString pK, yk_SymmetricAlgorithms = ?sas\<rparr>"
    using written scheme(2) by (intro yaml) (simp add: MarshalKeyConfig_def)
  show ?thesis
  proof (cases "named_kem (kc_KemID kc)")
    case True
    then show ?thesis
      using scheme y read_algorithms_names [of "kc_SymmetricAlgorithms kc"]
      by (cases "read_algorithms ?sas"; cases kc)
         (auto simp: UnmarshalKeyConfig_def hex_roundtrip names_of_ids named_config_def)
  next
    case False
    then show ?thesis
      using scheme(4) y zero by (auto simp: UnmarshalKeyConfig_def hex_roundtrip names_of_ids named_config_def)
  qed
qed

lemma KeyConfig_reads_back:
  assumes "\<And>y b. yaml_Marshal L y = Inr b \<Longrightarrow> yaml_Unmarshal L b = Inr y" and "kem_Scheme L (KEM_other 0) = None"
    and "kem_Scheme L (kc_KemID kc) = Some rd" "pk_MarshalBinary L (kc_PublicKey kc) = Inr pK"
      "rd pK = Inr (kc_PublicKey kc)" "pK \<noteq> []"
    and "MarshalKeyConfig L kc = Inr b" and "named_config kc"
  shows "UnmarshalKeyConfig L b = Returns (Inr kc)"
  using KeyConfig_read_back [OF assms(1-7)] assms(8) by blast

text \<open>
  C28: a written key configuration is read back exactly when everything in it has a name. For
  a YAML codec that reads what it writes and a KEM scheme that reads back the public key,
  reading the written file gives the configuration again if and only if its KEM and all
  its KDF and AEAD identifiers are among the named ones; writing does not reject the others.
\<close>

theorem KeyConfig_roundtrip_iff:
  assumes yaml: "\<And>y b. yaml_Marshal L y = Inr b \<Longrightarrow> yaml_Unmarshal L b = Inr y"
    and zero: "kem_Scheme L (KEM_other 0) = None"
    and scheme: "kem_Scheme L (kc_KemID kc) = Some rd" "pk_MarshalBinary L (kc_PublicKey kc) = Inr pK"
      "rd pK = Inr (kc_PublicKey kc)" "pK \<noteq> []"
    and written: "MarshalKeyConfig L kc = Inr b"
  shows "UnmarshalKeyConfig L b = Returns (Inr kc) \<longleftrightarrow> named_config kc"
  using assms by (rule KeyConfig_read_back)

text \<open>A library for one key and one configuration, for examples.\<close>

definition example_lib :: "yamlKeyConfig \<Rightarrow> bytes key_lib" where
  "example_lib y0 =
     \<lparr>yaml_Marshal = (\<lambda>y. if y = y0 then Inr ''file'' else Inl (LibraryError ''yaml'')),
      yaml_Unmarshal = (\<lambda>b. if b = ''file'' then Inr y0 else Inl (LibraryError ''yaml'')),
      pk_MarshalBinary = Inr, kem_Scheme = (\<lambda>k. if named_kem k then Some Inr else None)\<rparr>"

definition example_key_config :: "bytes KeyConfigT" where
  "example_key_config =
     \<lparr>kc_KeyID = 1, kc_KemID = KEM_P256_HKDF_SHA256, kc_PublicKey = ''key'',
      kc_SymmetricAlgorithms = [\<lparr>sa_KDFID = KDF_HKDF_SHA256, sa_AEADID = AEAD_AES128GCM\<rparr>]\<rparr>"

definition example_yaml :: yamlKeyConfig where
  "example_yaml =
     \<lparr>yk_KeyID = 1, yk_Kem = ''P256_HKDF_SHA256'', yk_PublicKey = ''6b6579'',
      yk_SymmetricAlgorithms = [(''SHA256'', ''AES128GCM'')]\<rparr>"

lemma example_marshal: "MarshalKeyConfig (example_lib example_yaml) example_key_config = Inr ''file''"
proof -
  have "EncodeToString ''key'' = ''6b6579''" by code_simp
  then show ?thesis
    by (simp add: MarshalKeyConfig_def example_lib_def example_key_config_def example_yaml_def
        nameToKemID_def nameToKDFID_def nameToAEADID_def)
qed

lemma example_yaml_law:
  "yaml_Marshal (example_lib y0) y = Inr b \<Longrightarrow> yaml_Unmarshal (example_lib y0) b = Inr y"
  by (auto simp: example_lib_def split: if_splits)

theorem KeyConfig_roundtrip_iff_witness:
  "UnmarshalKeyConfig (example_lib example_yaml) ''file'' = Returns (Inr example_key_config)"
proof -
  let ?L = "example_lib example_yaml" and ?kc = "example_key_config"
  have "kem_Scheme ?L (KEM_other 0) = None" "kem_Scheme ?L (kc_KemID ?kc) = Some Inr"
    "pk_MarshalBinary ?L (kc_PublicKey ?kc) = Inr ''key''" "Inr ''key'' = Inr (kc_PublicKey ?kc)" "''key'' \<noteq> []"
    by (simp_all add: example_lib_def example_key_config_def)
  from KeyConfig_roundtrip_iff [OF example_yaml_law this example_marshal]
  show ?thesis by (simp add: named_config_def example_key_config_def)
qed

text \<open>
  C40: a key file whose KEM name is unknown does not give an error: with a public key that
  decodes, the program panics, as the missing name becomes the zero identifier, which has no
  scheme.
\<close>

theorem unknown_kem_name_panics:
  assumes "yaml_Unmarshal L data = Inr y" and "yk_Kem y \<notin> fst ` set nameToKemID"
    and "DecodeString (yk_PublicKey y) = Inr pK" and "pK \<noteq> []"
    and zero: "kem_Scheme L (KEM_other 0) = None"
  shows "UnmarshalKeyConfig L data = Panics"
proof -
  have "kem_of_name (yk_Kem y) = KEM_other 0"
    using assms(2) by (simp add: kem_of_name_def map_of_eq_None_iff [THEN iffD2])
  with assms show ?thesis by (simp add: UnmarshalKeyConfig_def)
qed

theorem unknown_kem_name_panics_witness:
  "UnmarshalKeyConfig (example_lib (example_yaml\<lparr>yk_Kem := ''P256''\<rparr>)) ''file'' = Panics"
proof (rule unknown_kem_name_panics)
  show "DecodeString (yk_PublicKey (example_yaml\<lparr>yk_Kem := ''P256''\<rparr>)) = Inr ''key''" by code_simp
qed (simp_all add: example_lib_def example_yaml_def nameToKemID_def)

end
