(* ===== verification/EchoGateway.thy ===== *)
theory EchoGateway
  imports World KeyConfig
begin

text \<open>
  \<open>cmd/echo-gateway/main.go\<close>: the gateway used to test the relay. Modelled are its HTTP
  handlers (the key configuration endpoint, the echo handler and the middleware around it),
  the key files and the command that generates them. The OHTTP library is a parameter: the
  binary form of a key configuration, the middleware that decodes the inner request, the
  private keys and key generation. Command line parsing and the HTTP server are libraries too:
  their results are arguments and events.
\<close>

section \<open>Writing responses\<close>

text \<open>
  \<open>http.ResponseWriter\<close> and the recorder of \<open>httptest\<close>: a header under construction, the
  status and the header that were sent, and the body.
\<close>

record response_writer =
  rw_Header :: header
  rw_Sent :: "(int \<times> header) option"
  rw_Body :: bytes

definition fresh_writer :: response_writer where
  "fresh_writer = \<lparr>rw_Header = Map.empty, rw_Sent = None, rw_Body = []\<rparr>"

definition WriteHeader :: "int \<Rightarrow> response_writer \<Rightarrow> response_writer" where
  "WriteHeader code w = (case rw_Sent w of None \<Rightarrow> w\<lparr>rw_Sent := Some (code, rw_Header w)\<rparr> | Some _ \<Rightarrow> w)"

definition Write :: "bytes \<Rightarrow> response_writer \<Rightarrow> response_writer" where
  "Write b w = (let w = WriteHeader 200 w in w\<lparr>rw_Body := rw_Body w @ b\<rparr>)"

definition Set :: "string \<Rightarrow> string \<Rightarrow> response_writer \<Rightarrow> response_writer" where
  "Set k v w = w\<lparr>rw_Header := Header_Set (rw_Header w) k v\<rparr>"

definition http_Error :: "string \<Rightarrow> int \<Rightarrow> response_writer \<Rightarrow> response_writer" where
  "http_Error msg code w =
     (let w = w\<lparr>rw_Header := (rw_Header w)(''Content-Length'' := None)\<rparr>;
          w = Set ''Content-Type'' ''text/plain; charset=utf-8'' w;
          w = Set ''X-Content-Type-Options'' ''nosniff'' w
      in Write (msg @ [CHR 0x0A]) (WriteHeader code w))"

text \<open>The status code a recorder reports: 200 unless one was written.\<close>

definition rec_Code :: "response_writer \<Rightarrow> int" where
  "rec_Code r = (case rw_Sent r of None \<Rightarrow> 200 | Some (code, _) \<Rightarrow> code)"


section \<open>Handlers\<close>

text \<open>A big-endian \<open>uint16\<close>.\<close>

definition put_uint16 :: "16 word \<Rightarrow> bytes" where
  "put_uint16 n = [char_of (unat n div 256), char_of (unat n mod 256)]"

definition handleWellKnownKeyConfig :: "bytes result \<Rightarrow> response_writer \<Rightarrow> response_writer" where
  "handleWellKnownKeyConfig marshalled w =
     (let w = Set ''Content-Type'' ''application/ohttp-keys'' w
      in case marshalled of
           Inl err \<Rightarrow> http_Error ''failed to marshal key config'' 500 w
         | Inr configBytes \<Rightarrow> Write (put_uint16 (word_of_nat (length configBytes)) @ configBytes) w)"

text \<open>A request with the value stored in its context under the key of the outer headers.\<close>

record gw_request =
  gr_Method :: string
  gr_Path :: string
  gr_Header :: header
  gr_Body :: bytes
  gr_BodyErr :: "go_error option"
  gr_outerHeaders :: "header option"

type_synonym handler = "gw_request \<Rightarrow> response_writer \<Rightarrow> response_writer"

definition outerHeadersFromContext :: "gw_request \<Rightarrow> header option" where
  "outerHeadersFromContext r = gr_outerHeaders r"

record echo_payload =
  ep_method :: string
  ep_path :: string
  ep_headers :: header
  ep_outer_headers :: "header option"
  ep_body :: string

definition echoHandler :: "(echo_payload \<Rightarrow> bytes result) \<Rightarrow> handler" where
  "echoHandler json_Encode r w =
     (if gr_BodyErr r \<noteq> None then http_Error ''read request body'' 500 w
      else
        let response = \<lparr>ep_method = gr_Method r, ep_path = gr_Path r, ep_headers = gr_Header r,
                        ep_outer_headers = outerHeadersFromContext r, ep_body = gr_Body r\<rparr>;
            w = Set ''Content-Type'' ''application/json'' w
        in case json_Encode response of
             Inl err \<Rightarrow> http_Error ''encode response'' 500 w
           | Inr b \<Rightarrow> Write b w)"

text \<open>\<open>maps.Copy\<close>\<close>

definition maps_Copy :: "header \<Rightarrow> header \<Rightarrow> header" where
  "maps_Copy dst src = dst ++ src"

definition captureOuterHeadersMiddleware :: "handler \<Rightarrow> handler" where
  "captureOuterHeadersMiddleware next r w =
     (let rec = next (r\<lparr>gr_outerHeaders := Some (gr_Header r)\<rparr>) fresh_writer;
          rec = rec\<lparr>rw_Header := maps_Copy (rw_Header rec) (rw_Header rec)\<rparr>;
          rec = Set ''X-Test-Gateway-Outer'' ''any value'' rec;
          w = WriteHeader (rec_Code rec) w
      in Write (rw_Body rec) w)"

definition envOr :: "(string \<rightharpoonup> string) \<Rightarrow> string \<Rightarrow> string \<Rightarrow> string" where
  "envOr environ k def = (case environ k of Some v \<Rightarrow> v | None \<Rightarrow> def)"

text \<open>The variable of a string flag after parsing: the last value given, or the default it was declared with.\<close>

definition string_flag :: "(string \<rightharpoonup> string) \<Rightarrow> string \<Rightarrow> string \<Rightarrow> string" where
  "string_flag given name def = (case given name of Some v \<Rightarrow> v | None \<Rightarrow> def)"


section \<open>Key files\<close>

text \<open>
  Files with their permissions, and the error a write of a name meets; a write that fails
  leaves the files as they are. Writing an existing file keeps its permissions.
\<close>

record file_system =
  fs_files :: "string \<rightharpoonup> bytes \<times> nat"
  fs_writeErr :: "string \<Rightarrow> go_error option"

definition perm_0644 :: nat where "perm_0644 = 6 * 64 + 4 * 8 + 4"
definition perm_0600 :: nat where "perm_0600 = 6 * 64"

definition WriteFile :: "string \<Rightarrow> bytes \<Rightarrow> nat \<Rightarrow> file_system \<Rightarrow> go_error option \<times> file_system" where
  "WriteFile name data perm fs =
     (case fs_writeErr fs name of
        Some err \<Rightarrow> (Some err, fs)
      | None \<Rightarrow>
          (None, fs\<lparr>fs_files := (fs_files fs)(name \<mapsto>
             (data, case fs_files fs name of Some (_, p) \<Rightarrow> p | None \<Rightarrow> perm))\<rparr>))"

definition ReadFile :: "string \<Rightarrow> file_system \<Rightarrow> bytes result" where
  "ReadFile name fs =
     (case fs_files fs name of Some (b, _) \<Rightarrow> Inr b | None \<Rightarrow> Inl (LibraryError ''no such file or directory''))"

text \<open>Private keys of the KEM schemes.\<close>

record ('pk, 'sk) secret_lib =
  sk_MarshalBinary :: "'sk \<Rightarrow> bytes result"
  sk_Scheme :: "KEM \<Rightarrow> (bytes \<Rightarrow> 'sk result) option"
  sk_GenerateKeyPair :: "KEM \<Rightarrow> ('pk \<times> 'sk) result"

record ('pk, 'sk) KeyPair =
  kp_SecretKey :: 'sk
  kp_KeyConfig :: "'pk KeyConfigT"

definition writeKeyConfigFile ::
  "'pk key_lib \<Rightarrow> string \<Rightarrow> 'pk KeyConfigT \<Rightarrow> file_system \<Rightarrow> go_error option \<times> file_system" where
  "writeKeyConfigFile L name kc fs =
     (case MarshalKeyConfig L kc of
        Inl err \<Rightarrow> (Some (Errorf ''marshal keyconfig to binary: %w'' [] (Some err)), fs)
      | Inr data \<Rightarrow>
          (case WriteFile name data perm_0644 fs of
             (Some err, fs) \<Rightarrow> (Some (Errorf ''write keyconfig file: %w'' [] (Some err)), fs)
           | (None, fs) \<Rightarrow> (None, fs)))"

definition writePrivateKeyFile ::
  "('pk, 'sk) secret_lib \<Rightarrow> string \<Rightarrow> 'sk \<Rightarrow> file_system \<Rightarrow> go_error option \<times> file_system" where
  "writePrivateKeyFile S name sk fs =
     (case sk_MarshalBinary S sk of
        Inl err \<Rightarrow> (Some (Errorf ''marshal private key: %w'' [] (Some err)), fs)
      | Inr b \<Rightarrow>
          (case WriteFile name b perm_0600 fs of
             (Some err, fs) \<Rightarrow> (Some (Errorf ''write private key file: %w'' [] (Some err)), fs)
           | (None, fs) \<Rightarrow> (None, fs)))"

text \<open>The command that generates the keys: the error it dies with, if any.\<close>

definition genKeyCmd ::
  "'pk key_lib \<Rightarrow> ('pk, 'sk) secret_lib \<Rightarrow> string \<Rightarrow> string \<Rightarrow> file_system \<Rightarrow>
   ('pk, 'sk) KeyPair result \<times> file_system" where
  "genKeyCmd L S keyConfigPath privKeyPath fs =
     (let kemID = KEM_P256_HKDF_SHA256
      in case sk_GenerateKeyPair S kemID of
           Inl err \<Rightarrow> (Inl (Errorf ''generate keypair: %v'' [] None), fs)
         | Inr (pubKey, privKey) \<Rightarrow>
             let kc = \<lparr>kc_KeyID = 1, kc_KemID = kemID, kc_PublicKey = pubKey,
                       kc_SymmetricAlgorithms = [\<lparr>sa_KDFID = KDF_HKDF_SHA256, sa_AEADID = AEAD_AES128GCM\<rparr>]\<rparr>
             in case writeKeyConfigFile L keyConfigPath kc fs of
                  (Some err, fs) \<Rightarrow> (Inl (Errorf ''write key config file: %v'' [] None), fs)
                | (None, fs) \<Rightarrow>
                    (case writePrivateKeyFile S privKeyPath privKey fs of
                       (Some err, fs) \<Rightarrow> (Inl (Errorf ''write private key file: %v'' [] None), fs)
                     | (None, fs) \<Rightarrow> (Inr \<lparr>kp_SecretKey = privKey, kp_KeyConfig = kc\<rparr>, fs)))"

definition readKeyConfigFile :: "'pk key_lib \<Rightarrow> string \<Rightarrow> file_system \<Rightarrow> 'pk KeyConfigT result call" where
  "readKeyConfigFile L name fs =
     (case ReadFile name fs of
        Inl err \<Rightarrow> Returns (Inl (Errorf ''read keyconfig file: %w'' [] (Some err)))
      | Inr b \<Rightarrow>
          (case UnmarshalKeyConfig L b of
             Panics \<Rightarrow> Panics
           | Returns (Inl err) \<Rightarrow> Returns (Inl (Errorf ''parse keyconfig: %w'' [] (Some err)))
           | Returns (Inr kc) \<Rightarrow> Returns (Inr kc)))"

definition readPrivateKeyFile ::
  "('pk, 'sk) secret_lib \<Rightarrow> string \<Rightarrow> KEM \<Rightarrow> file_system \<Rightarrow> 'sk result call" where
  "readPrivateKeyFile S name k fs =
     (case ReadFile name fs of
        Inl err \<Rightarrow> Returns (Inl (Errorf ''read private key file: %w'' [] (Some err)))
      | Inr b \<Rightarrow>
          (case sk_Scheme S k of
             None \<Rightarrow> Panics
           | Some UnmarshalBinaryPrivateKey \<Rightarrow>
               (case UnmarshalBinaryPrivateKey b of
                  Inl err \<Rightarrow> Returns (Inl (Errorf ''unmarshal private key: %w'' [] (Some err)))
                | Inr sk \<Rightarrow> Returns (Inr sk))))"

definition loadKeyPairFromDisk ::
  "'pk key_lib \<Rightarrow> ('pk, 'sk) secret_lib \<Rightarrow> string \<Rightarrow> string \<Rightarrow> file_system \<Rightarrow> ('pk, 'sk) KeyPair result call" where
  "loadKeyPairFromDisk L S keyConfigPath privKeyPath fs =
     (case readKeyConfigFile L keyConfigPath fs of
        Panics \<Rightarrow> Panics
      | Returns (Inl err) \<Rightarrow> Returns (Inl err)
      | Returns (Inr kc) \<Rightarrow>
          if kc_KemID kc = KEM_other 0 then Returns (Inl (ErrorsNew ''invalid keyconfig: missing KEM id''))
          else
            (case readPrivateKeyFile S privKeyPath (kc_KemID kc) fs of
               Panics \<Rightarrow> Panics
             | Returns (Inl err) \<Rightarrow> Returns (Inl err)
             | Returns (Inr sk) \<Rightarrow> Returns (Inr \<lparr>kp_SecretKey = sk, kp_KeyConfig = kc\<rparr>)))"


section \<open>The command\<close>

definition defaultKeyConfigPath :: string where "defaultKeyConfigPath = ''keyconfig-ohttp.yaml''"
definition defaultPrivateKeyPath :: string where "defaultPrivateKeyPath = ''ohttp-gateway.key''"

text \<open>What the gateway serves: an address and the key pair.\<close>

record ('pk, 'sk) gateway_setup =
  gs_addr :: string
  gs_keyPair :: "('pk, 'sk) KeyPair"

text \<open>
  \<open>main\<close> without the generation of keys, up to serving: the error it dies with, or what it
  serves. Creating the gateway and the metrics are library calls with an error.
\<close>

definition gateway_main ::
  "'pk key_lib \<Rightarrow> ('pk, 'sk) secret_lib \<Rightarrow> (('pk, 'sk) KeyPair \<Rightarrow> go_error option) \<Rightarrow> go_error option \<Rightarrow>
   (string \<rightharpoonup> string) \<Rightarrow> file_system \<Rightarrow> ('pk, 'sk) gateway_setup result call" where
  "gateway_main L S NewGateway initMetricsErr environ fs =
     (let keyConfigPath = envOr environ ''KEY_CONFIG_FILE'' defaultKeyConfigPath;
          privKeyPath = envOr environ ''PRIVATE_KEY_FILE'' defaultPrivateKeyPath
      in case loadKeyPairFromDisk L S keyConfigPath privKeyPath fs of
           Panics \<Rightarrow> Panics
         | Returns (Inl err) \<Rightarrow> Returns (Inl (Errorf ''load OHTTP key pair: %v'' [] None))
         | Returns (Inr keyPair) \<Rightarrow>
             (case NewGateway keyPair of
                Some err \<Rightarrow> Returns (Inl (Errorf ''create gateway: %v'' [] None))
              | None \<Rightarrow>
                  let port = envOr environ ''GATEWAY_PORT'' ''8888''
                  in case initMetricsErr of
                       Some err \<Rightarrow> Returns (Inl (Errorf ''init metrics: %v'' [] None))
                     | None \<Rightarrow> Returns (Inr \<lparr>gs_addr = '':'' @ port, gs_keyPair = keyPair\<rparr>)))"

text \<open>
  The whole command: \<open>gen-key\<close> as first argument generates keys at the paths given by flags,
  environment or default, anything else starts the gateway. \<open>Parse\<close> is the flag package on the
  arguments after \<open>gen-key\<close>: the flags that were set, or \<open>None\<close> where it exits with a usage
  error.
\<close>

datatype ('pk, 'sk) gateway_command =
    UsageError
  | KeysGenerated "('pk, 'sk) KeyPair result"
  | Gateway "('pk, 'sk) gateway_setup result call"

text \<open>The paths of \<open>gen-key\<close>: a flag that was set wins over the environment, which wins over the default.\<close>

definition gen_key_paths :: "(string \<rightharpoonup> string) \<Rightarrow> (string \<rightharpoonup> string) \<Rightarrow> string \<times> string" where
  "gen_key_paths flags environ =
     (string_flag flags ''keyconfig'' (envOr environ ''KEY_CONFIG_FILE'' defaultKeyConfigPath),
      string_flag flags ''priv'' (envOr environ ''PRIVATE_KEY_FILE'' defaultPrivateKeyPath))"

definition gateway_command ::
  "'pk key_lib \<Rightarrow> ('pk, 'sk) secret_lib \<Rightarrow> (('pk, 'sk) KeyPair \<Rightarrow> go_error option) \<Rightarrow> go_error option \<Rightarrow>
   (string list \<Rightarrow> (string \<rightharpoonup> string) option) \<Rightarrow> string list \<Rightarrow> (string \<rightharpoonup> string) \<Rightarrow> file_system \<Rightarrow>
   ('pk, 'sk) gateway_command \<times> file_system" where
  "gateway_command L S NewGateway initMetricsErr Parse args environ fs =
     (if 1 < length args \<and> args ! 1 = ''gen-key'' then
        (case Parse (drop 2 args) of
           None \<Rightarrow> (UsageError, fs)
         | Some flags \<Rightarrow>
             (case gen_key_paths flags environ of
                (keyConfigPath, privKeyPath) \<Rightarrow>
                  (case genKeyCmd L S keyConfigPath privKeyPath fs of (r, fs) \<Rightarrow> (KeysGenerated r, fs))))
      else (Gateway (gateway_main L S NewGateway initMetricsErr environ fs), fs))"

text \<open>
  The path cleaning of \<open>http.ServeMux\<close>: \<open>path.Clean\<close> of a rooted path drops empty and \<open>.\<close>
  segments and lets \<open>..\<close> take back the segment before it; a final slash is kept.
\<close>

fun clean_segments :: "bytes list \<Rightarrow> bytes list \<Rightarrow> bytes list" where
  "clean_segments acc [] = rev acc"
| "clean_segments acc (s # ss) =
     (if s = [] \<or> s = ''.'' then clean_segments acc ss
      else if s = ''..'' then clean_segments (tl acc) ss
      else clean_segments (s # acc) ss)"

definition cleanPath :: "string \<Rightarrow> string" where
  "cleanPath p =
     (if p = [] then ''/''
      else
        let np = CHR ''/'' # join_with CHR ''/'' (clean_segments [] (Split CHR ''/'' p))
        in if last p = CHR ''/'' \<and> np \<noteq> ''/'' then np @ ''/'' else np)"

text \<open>
  The routes: the key configuration, the metrics, and the OHTTP handler for the rest. The mux
  refuses the path of a server-wide request and redirects a path that is not clean to the
  clean one (\<open>redirect\<close> is the library's handler for a target, with status 301), but for
  \<open>CONNECT\<close>, which has no path when it names an authority. Paths are taken as they stand in the
  request line.
\<close>

definition gateway_mux ::
  "bytes result \<Rightarrow> handler \<Rightarrow> (string \<Rightarrow> handler) \<Rightarrow> (handler \<Rightarrow> handler) \<Rightarrow> (echo_payload \<Rightarrow> bytes result) \<Rightarrow> handler" where
  "gateway_mux marshalledKeyConfig promhttp_Handler redirect ohttp_Middleware json_Encode r w =
     (if gr_Path r = ''*'' then WriteHeader 400 (Set ''Connection'' ''close'' w)
      else if gr_Method r \<noteq> ''CONNECT'' \<and> cleanPath (gr_Path r) \<noteq> gr_Path r then redirect (cleanPath (gr_Path r)) r w
      else if gr_Path r = ''/.well-known/ohttp-configs'' then handleWellKnownKeyConfig marshalledKeyConfig w
      else if gr_Path r = ''/metrics'' then promhttp_Handler r w
      else if gr_Path r = [] then http_Error ''404 page not found'' 404 w
      else captureOuterHeadersMiddleware (ohttp_Middleware (echoHandler json_Encode)) r w)"

text \<open>A request for a clean path that names no other route goes to the OHTTP handler.\<close>

lemma gateway_mux_ohttp:
  assumes "cleanPath (gr_Path r) = gr_Path r" "gr_Path r \<notin> {''/.well-known/ohttp-configs'', ''/metrics''}"
  shows "gateway_mux marshalled prom redirect ohttp_Middleware json_Encode r w =
    captureOuterHeadersMiddleware (ohttp_Middleware (echoHandler json_Encode)) r w"
proof -
  have "cleanPath ''*'' = ''/*''" "cleanPath [] = ''/''" by code_simp+
  with assms(1) have "gr_Path r \<noteq> ''*''" "gr_Path r \<noteq> []" by auto
  with assms show ?thesis by (simp add: gateway_mux_def)
qed

text \<open>
  Serving: what ends the command, and the error it dies with, if any. The listening goroutine
  kills the process on an error other than that of a closed server, which it ignores; a done
  context shuts the server down.
\<close>

datatype gateway_event = GwListenReturned "go_error option" | GwCtxDone "go_error option"

fun gateway_serve :: "gateway_event list \<Rightarrow> go_error option option" where
  "gateway_serve [] = None"
| "gateway_serve (GwListenReturned None # evs) = gateway_serve evs"
| "gateway_serve (GwListenReturned (Some err) # evs) =
     (if \<not> errors_Is err ErrServerClosed then Some (Some (Errorf ''run relay: %v'' [] None)) else gateway_serve evs)"
| "gateway_serve (GwCtxDone (Some err) # evs) = Some (Some (Errorf ''server shutdown failed: %v'' [] None))"
| "gateway_serve (GwCtxDone None # evs) = Some None"

lemma gateway_serve_clean:
  "gateway_serve evs = Some None \<Longrightarrow> GwCtxDone None \<in> set evs"
  by (induction evs rule: gateway_serve.induct) (auto split: if_splits)

text \<open>How a gateway sees a request: the transport may add headers of its own.\<close>

definition gateway_view :: "header \<Rightarrow> string \<Rightarrow> http_request \<Rightarrow> gw_request" where
  "gateway_view added path req =
     \<lparr>gr_Method = rq_Method req, gr_Path = path, gr_Header = added ++ rq_Header req, gr_Body = rq_Body req,
      gr_BodyErr = None, gr_outerHeaders = None\<rparr>"

section \<open>Properties\<close>

lemma middleware_result:
  assumes "rw_Sent w = None"
  shows "captureOuterHeadersMiddleware next r w =
    (let rec = next (r\<lparr>gr_outerHeaders := Some (gr_Header r)\<rparr>) fresh_writer
     in w\<lparr>rw_Sent := Some (rec_Code rec, rw_Header w), rw_Body := rw_Body w @ rw_Body rec\<rparr>)"
  using assms
  by (simp add: captureOuterHeadersMiddleware_def Set_def Write_def WriteHeader_def rec_Code_def Let_def)

text \<open>
  C39: the middleware drops every header of the inner response. Whatever the handler behind
  it writes, the client gets its status code and its body, but only the headers that were on
  the writer before: those of the handler and the test header are put on the recorder
  alone, since the copy goes from the recorder's header to itself. The handler sees
  the headers of the outer request in its context.
\<close>

theorem middleware_drops_headers:
  assumes "rw_Sent w = None"
  shows "captureOuterHeadersMiddleware next r w =
    (let rec = next (r\<lparr>gr_outerHeaders := Some (gr_Header r)\<rparr>) fresh_writer
     in w\<lparr>rw_Sent := Some (rec_Code rec, rw_Header w), rw_Body := rw_Body w @ rw_Body rec\<rparr>)"
  using assms by (rule middleware_result)

theorem middleware_drops_headers_witness:
  "rw_Sent (captureOuterHeadersMiddleware (\<lambda>r. Set ''Content-Type'' ''message/ohttp-res'')
      \<lparr>gr_Method = ''POST'', gr_Path = ''/'', gr_Header = Map.empty, gr_Body = [], gr_BodyErr = None,
       gr_outerHeaders = None\<rparr> fresh_writer) = Some (200, Map.empty)"
  by (subst middleware_drops_headers) (simp_all add: fresh_writer_def Set_def rec_Code_def)

lemma WriteFile_ok:
  "WriteFile name data perm fs = (None, fs') \<Longrightarrow>
     ReadFile name fs' = Inr data \<and> (\<forall>n. n \<noteq> name \<longrightarrow> fs_files fs' n = fs_files fs n)
     \<and> (fs_files fs name = None \<longrightarrow> fs_files fs' name = Some (data, perm))"
  by (auto simp: WriteFile_def ReadFile_def split: option.splits)

lemma writeKeyConfigFile_ok:
  assumes "writeKeyConfigFile L name kc fs = (None, fs')"
  obtains data where "MarshalKeyConfig L kc = Inr data" "WriteFile name data perm_0644 fs = (None, fs')"
  using assms by (auto simp: writeKeyConfigFile_def split: sum.splits prod.splits option.splits)

lemma writePrivateKeyFile_ok:
  assumes "writePrivateKeyFile S name sk fs = (None, fs')"
  obtains b where "sk_MarshalBinary S sk = Inr b" "WriteFile name b perm_0600 fs = (None, fs')"
  using assms by (auto simp: writePrivateKeyFile_def split: sum.splits prod.splits option.splits)

text \<open>A gateway started after its keys were generated serves them.\<close>

lemma gateway_main_default:
  assumes "loadKeyPairFromDisk L S ''keyconfig-ohttp.yaml'' ''ohttp-gateway.key'' fs = Returns (Inr kp)"
    and "NewGateway kp = None"
  shows "gateway_main L S NewGateway None Map.empty fs = Returns (Inr \<lparr>gs_addr = '':8888'', gs_keyPair = kp\<rparr>)"
  using assms by (simp add: gateway_main_def envOr_def defaultKeyConfigPath_def defaultPrivateKeyPath_def)

text \<open>The laws of the libraries that reading generated keys relies on.\<close>

definition key_laws :: "'pk key_lib \<Rightarrow> ('pk, 'sk) secret_lib \<Rightarrow> bool" where
  "key_laws L S \<longleftrightarrow>
     (\<forall>y b. yaml_Marshal L y = Inr b \<longrightarrow> yaml_Unmarshal L b = Inr y)
     \<and> kem_Scheme L (KEM_other 0) = None
     \<and> (\<exists>rd srd. kem_Scheme L KEM_P256_HKDF_SHA256 = Some rd \<and> sk_Scheme S KEM_P256_HKDF_SHA256 = Some srd
         \<and> (\<forall>pk b. pk_MarshalBinary L pk = Inr b \<longrightarrow> b \<noteq> [] \<and> rd b = Inr pk)
         \<and> (\<forall>sk b. sk_MarshalBinary S sk = Inr b \<longrightarrow> srd b = Inr sk))"

lemma loadKeyPairFromDisk_written:
  assumes laws: "key_laws L S" and kc: "MarshalKeyConfig L kc = Inr data" "kc_KemID kc = KEM_P256_HKDF_SHA256"
      "named_config kc"
    and sk: "sk_MarshalBinary S sk = Inr b"
    and files: "ReadFile p fs = Inr data" "ReadFile q fs = Inr b"
  shows "loadKeyPairFromDisk L S p q fs = Returns (Inr \<lparr>kp_SecretKey = sk, kp_KeyConfig = kc\<rparr>)"
proof -
  obtain rd srd where s: "kem_Scheme L KEM_P256_HKDF_SHA256 = Some rd" "sk_Scheme S KEM_P256_HKDF_SHA256 = Some srd"
    and rd: "\<And>pk b. pk_MarshalBinary L pk = Inr b \<Longrightarrow> b \<noteq> [] \<and> rd b = Inr pk"
    and srd: "\<And>sk b. sk_MarshalBinary S sk = Inr b \<Longrightarrow> srd b = Inr sk"
    using laws by (auto simp: key_laws_def)
  obtain pK where pK: "pk_MarshalBinary L (kc_PublicKey kc) = Inr pK"
    using kc(1) by (auto simp: MarshalKeyConfig_def split: sum.splits)
  have "UnmarshalKeyConfig L data = Returns (Inr kc)"
    using KeyConfig_reads_back [of L kc rd pK data] laws s(1) rd [OF pK] pK kc by (auto simp: key_laws_def)
  with files s(2) srd [OF sk] kc(2) show ?thesis
    by (simp add: loadKeyPairFromDisk_def readKeyConfigFile_def readPrivateKeyFile_def)
qed

text \<open>
  Generated keys can be loaded. When key generation reports success for two different
  paths, loading from these paths gives back the generated private key and key
  configuration, and a private key file that did not exist before is readable by its owner only.
\<close>

lemma genKeyCmd_then_load:
  assumes "key_laws L S" and "p \<noteq> q" and "genKeyCmd L S p q fs = (Inr kp, fs')"
  shows "loadKeyPairFromDisk L S p q fs' = Returns (Inr kp)
     \<and> (fs_files fs q = None \<longrightarrow> (\<exists>b. fs_files fs' q = Some (b, perm_0600)))"
proof -
  obtain pub sk where g: "sk_GenerateKeyPair S KEM_P256_HKDF_SHA256 = Inr (pub, sk)"
    using assms(3) by (auto simp: genKeyCmd_def Let_def split: sum.splits)
  define kc where "kc = \<lparr>kc_KeyID = 1, kc_KemID = KEM_P256_HKDF_SHA256, kc_PublicKey = pub,
     kc_SymmetricAlgorithms = [\<lparr>sa_KDFID = KDF_HKDF_SHA256, sa_AEADID = AEAD_AES128GCM\<rparr>]\<rparr>"
  obtain fs1 where w1: "writeKeyConfigFile L p kc fs = (None, fs1)" and w2: "writePrivateKeyFile S q sk fs1 = (None, fs')"
    and kp: "kp = \<lparr>kp_SecretKey = sk, kp_KeyConfig = kc\<rparr>"
    using assms(3) g by (auto simp: genKeyCmd_def kc_def Let_def split: prod.splits option.splits)
  obtain data where d: "MarshalKeyConfig L kc = Inr data" "WriteFile p data perm_0644 fs = (None, fs1)"
    using writeKeyConfigFile_ok [OF w1] by blast
  obtain b where b: "sk_MarshalBinary S sk = Inr b" "WriteFile q b perm_0600 fs1 = (None, fs')"
    using writePrivateKeyFile_ok [OF w2] by blast
  have "ReadFile p fs' = Inr data"
    using WriteFile_ok [OF d(2)] WriteFile_ok [OF b(2)] assms(2) by (simp add: ReadFile_def)
  moreover have "ReadFile q fs' = Inr b" using WriteFile_ok [OF b(2)] by blast
  moreover have "named_config kc" "kc_KemID kc = KEM_P256_HKDF_SHA256" by (simp_all add: kc_def named_config_def)
  ultimately have "loadKeyPairFromDisk L S p q fs' = Returns (Inr kp)"
    unfolding kp using loadKeyPairFromDisk_written [OF assms(1) d(1) _ _ b(1)] by simp
  moreover have "fs_files fs q = None \<longrightarrow> fs_files fs' q = Some (b, perm_0600)"
    using WriteFile_ok [OF d(2)] WriteFile_ok [OF b(2)] assms(2) by auto
  ultimately show ?thesis by blast
qed

definition example_secrets :: "(bytes, bytes) secret_lib" where
  "example_secrets =
     \<lparr>sk_MarshalBinary = Inr, sk_Scheme = (\<lambda>k. Some Inr), sk_GenerateKeyPair = (\<lambda>k. Inr (''key'', ''secret''))\<rparr>"

definition example_key_lib :: "bytes key_lib" where
  "example_key_lib = (example_lib example_yaml)\<lparr>pk_MarshalBinary := (\<lambda>pk. if pk = [] then Inl (LibraryError ''nil'') else Inr pk)\<rparr>"

lemma example_key_laws: "key_laws example_key_lib example_secrets"
  by (auto simp: key_laws_def example_key_lib_def example_lib_def example_secrets_def split: if_splits)

lemma genKeyCmd_then_load_example:
  "\<exists>kp fs'. genKeyCmd example_key_lib example_secrets ''kc.yaml'' ''priv.key''
      \<lparr>fs_files = Map.empty, fs_writeErr = (\<lambda>_. None)\<rparr> = (Inr kp, fs')
    \<and> loadKeyPairFromDisk example_key_lib example_secrets ''kc.yaml'' ''priv.key'' fs' = Returns (Inr kp)
    \<and> (\<exists>b. fs_files fs' ''priv.key'' = Some (b, perm_0600))"
proof -
  let ?fs = "\<lparr>fs_files = Map.empty, fs_writeErr = (\<lambda>_. None)\<rparr>"
  have m: "MarshalKeyConfig example_key_lib example_key_config = Inr ''file''"
    using example_marshal
    by (simp add: MarshalKeyConfig_def example_key_lib_def example_lib_def example_key_config_def)
  have "\<exists>kp fs'. genKeyCmd example_key_lib example_secrets ''kc.yaml'' ''priv.key'' ?fs = (Inr kp, fs')"
    using m by (simp add: genKeyCmd_def example_secrets_def writeKeyConfigFile_def writePrivateKeyFile_def
        example_key_config_def WriteFile_def)
  then obtain kp fs' where "genKeyCmd example_key_lib example_secrets ''kc.yaml'' ''priv.key'' ?fs = (Inr kp, fs')"
    by blast
  with genKeyCmd_then_load [OF example_key_laws _ this] show ?thesis by auto
qed

text \<open>
  C29: a gateway started after \<open>gen-key\<close> serves the generated keys. When the command generates
  keys without flags and the same command is then started without arguments in the same
  environment, whose two paths differ, it loads exactly the generated key pair and serves it
  on the configured port; a private key file that did not exist before is readable by its
  owner only.
\<close>

theorem gen_key_then_serve:
  assumes laws: "key_laws L S"
    and paths: "q = envOr environ ''PRIVATE_KEY_FILE'' defaultPrivateKeyPath"
      "envOr environ ''KEY_CONFIG_FILE'' defaultKeyConfigPath \<noteq> q"
    and gen: "Parse [] = Some Map.empty"
      "gateway_command L S NewGateway None Parse [prog, ''gen-key''] environ fs = (KeysGenerated (Inr kp), fs')"
    and gw: "NewGateway kp = None"
  shows "gateway_command L S NewGateway None Parse [prog] environ fs' =
      (Gateway (Returns (Inr \<lparr>gs_addr = '':'' @ envOr environ ''GATEWAY_PORT'' ''8888'', gs_keyPair = kp\<rparr>)), fs')
    \<and> (fs_files fs q = None \<longrightarrow> (\<exists>b. fs_files fs' q = Some (b, perm_0600)))"
proof -
  let ?p = "envOr environ ''KEY_CONFIG_FILE'' defaultKeyConfigPath"
  have "string_flag Map.empty k d = d" for k d by (simp add: string_flag_def)
  then have "genKeyCmd L S ?p q fs = (Inr kp, fs')"
    using gen paths(1) by (auto simp: gateway_command_def gen_key_paths_def split: prod.splits)
  from genKeyCmd_then_load [OF laws paths(2) this] gw paths(1) show ?thesis
    by (simp add: gateway_command_def gateway_main_def)
qed

theorem gen_key_then_serve_witness:
  "\<exists>kp fs' b. gateway_command example_key_lib example_secrets (\<lambda>_. None) None (\<lambda>_. Some Map.empty)
       [''echo-gateway'', ''gen-key''] [''GATEWAY_PORT'' \<mapsto> ''9999''] \<lparr>fs_files = Map.empty, fs_writeErr = (\<lambda>_. None)\<rparr>
       = (KeysGenerated (Inr kp), fs')
     \<and> gateway_command example_key_lib example_secrets (\<lambda>_. None) None (\<lambda>_. Some Map.empty)
       [''echo-gateway''] [''GATEWAY_PORT'' \<mapsto> ''9999''] fs' =
         (Gateway (Returns (Inr \<lparr>gs_addr = '':9999'', gs_keyPair = kp\<rparr>)), fs')
     \<and> fs_files fs' defaultPrivateKeyPath = Some (b, perm_0600)"
proof -
  let ?fs = "\<lparr>fs_files = Map.empty, fs_writeErr = (\<lambda>_. None)\<rparr>" and ?env = "[''GATEWAY_PORT'' \<mapsto> ''9999'']"
  let ?cmd = "gateway_command example_key_lib example_secrets (\<lambda>_. None) None (\<lambda>_. Some Map.empty)"
  have m: "MarshalKeyConfig example_key_lib example_key_config = Inr ''file''"
    using example_marshal
    by (simp add: MarshalKeyConfig_def example_key_lib_def example_lib_def example_key_config_def)
  have e: "envOr ?env ''KEY_CONFIG_FILE'' defaultKeyConfigPath = defaultKeyConfigPath"
    "envOr ?env ''PRIVATE_KEY_FILE'' defaultPrivateKeyPath = defaultPrivateKeyPath"
    "envOr ?env ''GATEWAY_PORT'' ''8888'' = ''9999''" "string_flag Map.empty k d = d" for k d
    by (simp_all add: envOr_def string_flag_def)
  have "\<exists>kp fs'. ?cmd [''echo-gateway'', ''gen-key''] ?env ?fs = (KeysGenerated (Inr kp), fs')"
    using m by (simp add: gateway_command_def gen_key_paths_def e genKeyCmd_def example_secrets_def writeKeyConfigFile_def
        writePrivateKeyFile_def example_key_config_def WriteFile_def)
  then obtain kp fs' where g: "?cmd [''echo-gateway'', ''gen-key''] ?env ?fs = (KeysGenerated (Inr kp), fs')" by blast
  have "defaultKeyConfigPath \<noteq> defaultPrivateKeyPath"
    by (simp add: defaultKeyConfigPath_def defaultPrivateKeyPath_def)
  with gen_key_then_serve [OF example_key_laws refl _ _ g] g e show ?thesis by auto
qed

end
