(* ===== verification/TestClient.thy ===== *)
theory TestClient
  imports EchoGateway
begin

text \<open>
  \<open>cmd/test-client/main.go\<close>: the client that tests a relay and a gateway end to end. Modelled
  are reading and fetching the key configuration, the transport that adds an outer header, and
  the checks on the echoed payload. The OHTTP codec is a parameter; flag parsing and printing
  are not modelled.
\<close>

section \<open>The key configuration\<close>

definition wellKnownPath :: string where
  "wellKnownPath = ''/.well-known/ohttp-configs''"

definition config_url :: "string \<Rightarrow> string" where
  "config_url base = (if last base = CHR ''/'' then butlast base else base) @ wellKnownPath"

text \<open>The length prefix and the bytes after it.\<close>

definition parse_key_list :: "(bytes \<Rightarrow> 'kc result) \<Rightarrow> bytes \<Rightarrow> 'kc result" where
  "parse_key_list UnmarshalBinary b =
     (if length b < 2 then Inl (Errorf ''response too short'' [] None)
      else
        let listLen = 256 * byte (b ! 0) + byte (b ! 1)
        in if length b < 2 + listLen then Inl (Errorf ''response body shorter than declared list length'' [] None)
           else case UnmarshalBinary (drop 2 b) of
                  Inl err \<Rightarrow> Inl (Errorf ''parse key config: %w'' [] (Some err))
                | Inr kc \<Rightarrow> Inr kc)"

definition fetchKeyConfig ::
  "'x externals \<Rightarrow> (bytes \<Rightarrow> 'kc result) \<Rightarrow> string \<Rightarrow> 'x world \<Rightarrow> 'kc result \<times> 'x world" where
  "fetchKeyConfig E UnmarshalBinary base w =
     (if length base = 0 then (Inl (Errorf ''empty base url'' [] None), w)
      else
        let url = config_url base
        in case NewRequest E ''GET'' url [] of
             Inl err \<Rightarrow> (Inl (Errorf ''create request: %w'' [] (Some err)), w)
           | Inr req \<Rightarrow>
               let req = req\<lparr>rq_Header := Header_Set (rq_Header req) ''Accept'' ''application/ohttp-keys''\<rparr>
               in case Do E (5 * 1000000000) req w of
                    (DoErr err _, w) \<Rightarrow> (Inl (Errorf ''get %s: %w'' [url] (Some err)), w)
                  | (DoOk resp, w) \<Rightarrow>
                      if rs_StatusCode resp \<noteq> 200 then
                        (Inl (Errorf ''unexpected status %d'' [fmt_d (rs_StatusCode resp)] None), w)
                      else
                        (case ReadAll resp of
                           (_, Some err) \<Rightarrow> (Inl (Errorf ''read body: %w'' [] (Some err)), w)
                         | (b, None) \<Rightarrow> (parse_key_list UnmarshalBinary b, w)))"

definition client_readKeyConfigFile :: "'pk key_lib \<Rightarrow> string \<Rightarrow> file_system \<Rightarrow> 'pk KeyConfigT result call" where
  "client_readKeyConfigFile L name fs =
     (case ReadFile name fs of
        Inl err \<Rightarrow> Returns (Inl (Errorf ''read file: %w'' [] (Some err)))
      | Inr data \<Rightarrow>
          (case UnmarshalKeyConfig L data of
             Panics \<Rightarrow> Panics
           | Returns (Inl err) \<Rightarrow> Returns (Inl (Errorf ''unmarshal binary: %w'' [] (Some err)))
           | Returns (Inr kc) \<Rightarrow> Returns (Inr kc)))"


section \<open>The transport\<close>

definition headerKeyOuter :: string where "headerKeyOuter = ''X-Outer-Test-Header''"
definition headerKeyInner :: string where "headerKeyInner = ''X-Test-Header''"

text \<open>The codec gives an encapsulated request and a function that decapsulates its response.\<close>

definition RoundTrip ::
  "'x externals \<Rightarrow> (http_request \<Rightarrow> (http_request \<times> (http_response \<Rightarrow> http_response result)) result) \<Rightarrow>
   duration \<Rightarrow> http_request \<Rightarrow> 'x world \<Rightarrow> http_response result \<times> 'x world" where
  "RoundTrip E Encapsulate httpClient req w =
     (case Encapsulate req of
        Inl err \<Rightarrow> (Inl (Errorf ''outer: encapsulate request: %w'' [] (Some err)), w)
      | Inr (encapsulated, Decapsulate) \<Rightarrow>
          let encapsulated = encapsulated\<lparr>rq_Header := Header_Set (rq_Header encapsulated) headerKeyOuter ''custom-value''\<rparr>
          in case Do E httpClient encapsulated w of
               (DoErr err _, w) \<Rightarrow> (Inl (Errorf ''outer: request: %w'' [] (Some err)), w)
             | (DoOk resp, w) \<Rightarrow>
                 (case Decapsulate resp of
                    Inl err \<Rightarrow> (Inl (Errorf ''outer: decapsulate response: %w'' [] (Some err)), w)
                  | Inr resp \<Rightarrow> (Inr resp, w)))"


section \<open>The checks\<close>

datatype json = JNull | JBool bool | JNumber int | JString string | JArray "json list" | JObject "(string \<times> json) list"

text \<open>A type assertion to an object without the second result panics on anything else.\<close>

fun as_object :: "json option \<Rightarrow> (string \<times> json) list call" where
  "as_object (Some (JObject kvs)) = Returns kvs"
| "as_object _ = Panics"

definition inner_header_ok :: "(string \<times> json) list \<Rightarrow> bool" where
  "inner_header_ok headers =
     (case map_of headers headerKeyInner of
        Some (JArray (h # _)) \<Rightarrow> h = JString ''ping''
      | _ \<Rightarrow> False)"

text \<open>The failure flag after the three checks.\<close>

definition check_response :: "(string \<times> json) list \<Rightarrow> header \<Rightarrow> bool call" where
  "check_response payload respHeader =
     (case as_object (map_of payload ''headers'') of
        Panics \<Rightarrow> Panics
      | Returns headers \<Rightarrow>
          (case as_object (map_of payload ''outer-headers'') of
             Panics \<Rightarrow> Panics
           | Returns outer \<Rightarrow>
               Returns (\<not> inner_header_ok headers \<or> map_of outer headerKeyOuter \<noteq> None
                        \<or> respHeader ''X-Test-Gateway-Outer'' \<noteq> None)))"


section \<open>The command\<close>

definition defaultRelayURL :: string where
  "defaultRelayURL = ''http://localhost:7777''"

definition defaultGatewayURL :: string where
  "defaultGatewayURL = ''http://localhost:8888''"

text \<open>The client has an \<open>envOr\<close> of its own. A variable that is set to the empty string counts as set.\<close>

definition client_envOr :: "(string \<rightharpoonup> string) \<Rightarrow> string \<Rightarrow> string \<Rightarrow> string" where
  "client_envOr environ k def = (case environ k of Some v \<Rightarrow> v | None \<Rightarrow> def)"

text \<open>The flags, each with the environment variable that is its default.\<close>

record client_flags =
  cl_keyConfigPath :: string
  cl_relayURL :: string
  cl_gatewayURL :: string

definition read_client_flags :: "(string \<rightharpoonup> string) \<Rightarrow> (string \<rightharpoonup> string) \<Rightarrow> client_flags" where
  "read_client_flags args environ =
     \<lparr>cl_keyConfigPath = string_flag args ''keyconfig'' (client_envOr environ ''KEY_CONFIG_FILE'' []),
      cl_relayURL = string_flag args ''relay'' (client_envOr environ ''RELAY_URL'' defaultRelayURL),
      cl_gatewayURL = string_flag args ''gateway'' (client_envOr environ ''GATEWAY_URL'' [])\<rparr>"

text \<open>The key configuration: from the file, or from the gateway or its default.\<close>

definition client_key_config ::
  "'x externals \<Rightarrow> 'pk key_lib \<Rightarrow> (bytes \<Rightarrow> 'pk KeyConfigT result) \<Rightarrow> client_flags \<Rightarrow> file_system \<Rightarrow> 'x world \<Rightarrow>
   'pk KeyConfigT result call \<times> 'x world" where
  "client_key_config E L UnmarshalBinary fl fs w =
     (if cl_keyConfigPath fl \<noteq> [] \<and> cl_gatewayURL fl \<noteq> [] then
        (Returns (Inl (Errorf ''both keyconfig and gateway configured'' [] None)), w)
      else if cl_keyConfigPath fl \<noteq> [] then
        (case client_readKeyConfigFile L (cl_keyConfigPath fl) fs of
           Panics \<Rightarrow> (Panics, w)
         | Returns (Inl err) \<Rightarrow> (Returns (Inl (Errorf ''read key config: %v'' [] None)), w)
         | Returns (Inr kc) \<Rightarrow> (Returns (Inr kc), w))
      else
        let gw = (if cl_gatewayURL fl = [] then defaultGatewayURL else cl_gatewayURL fl)
        in case fetchKeyConfig E UnmarshalBinary gw w of
             (Inl err, w) \<Rightarrow> (Returns (Inl (Errorf ''fetch key config: %v'' [] None)), w)
           | (Inr kc, w) \<Rightarrow> (Returns (Inr kc), w))"

text \<open>The exit code of the client after its checks; a failing decoder ends it with 1 too.\<close>

definition client_exit :: "(string \<times> json) list result \<Rightarrow> header \<Rightarrow> int call" where
  "client_exit decoded respHeader =
     (case decoded of
        Inl err \<Rightarrow> Returns 1
      | Inr payload \<Rightarrow>
          (case check_response payload respHeader of
             Panics \<Rightarrow> Panics
           | Returns failure \<Rightarrow> Returns (if failure then 1 else 0)))"

text \<open>The request the client sends through the transport.\<close>

definition client_request :: http_request where
  "client_request =
     \<lparr>rq_Method = ''POST'', rq_URL = ''http://ohttp.invalid'',
      rq_Header = Header_Set (Header_Set Map.empty ''Content-Type'' ''application/json'') headerKeyInner ''ping'',
      rq_Body = [CHR ''{'', CHR 0x22] @ ''message'' @ [CHR 0x22, CHR '':'', CHR 0x22] @ ''Hello OHTTP!'' @ [CHR 0x22, CHR ''}'']\<rparr>"

text \<open>
  \<open>main\<close>: its exit code. \<open>NewTransport\<close> is the codec for a key configuration and a relay,
  \<open>client_Do\<close> what an HTTP client makes of a transport, \<open>closeErr\<close> the error of closing the
  response body, which a deferred function looks at unless the checks failed before.
\<close>

definition client_main ::
  "'x externals \<Rightarrow> 'pk key_lib \<Rightarrow> (bytes \<Rightarrow> 'pk KeyConfigT result) \<Rightarrow>
   ('pk KeyConfigT \<Rightarrow> string \<Rightarrow> (http_request \<Rightarrow> (http_request \<times> (http_response \<Rightarrow> http_response result)) result) result) \<Rightarrow>
   ((http_request \<Rightarrow> 'x world \<Rightarrow> http_response result \<times> 'x world) \<Rightarrow>
      http_request \<Rightarrow> 'x world \<Rightarrow> http_response result \<times> 'x world) \<Rightarrow>
   (http_response \<Rightarrow> (string \<times> json) list result) \<Rightarrow> go_error option \<Rightarrow>
   client_flags \<Rightarrow> file_system \<Rightarrow> 'x world \<Rightarrow> int call \<times> 'x world" where
  "client_main E L UnmarshalBinary NewTransport client_Do json_Decode closeErr fl fs w =
     (case client_key_config E L UnmarshalBinary fl fs w of
        (Panics, w) \<Rightarrow> (Panics, w)
      | (Returns (Inl err), w) \<Rightarrow> (Returns 1, w)
      | (Returns (Inr keyConfig), w) \<Rightarrow>
          (case NewTransport keyConfig (cl_relayURL fl) of
             Inl err \<Rightarrow> (Returns 1, w)
           | Inr ohttpTransport \<Rightarrow>
               (case NewRequest E ''POST'' (rq_URL client_request) (rq_Body client_request) of
                  Inl err \<Rightarrow> (Returns 1, w)
                | Inr req \<Rightarrow>
                    let req = req\<lparr>rq_Header := rq_Header client_request\<rparr>
                    in case client_Do (RoundTrip E ohttpTransport (9 * 1000000000)) req w of
                         (Inl err, w) \<Rightarrow> (Returns 1, w)
                       | (Inr resp, w) \<Rightarrow>
                           (case client_exit (json_Decode resp) (rs_Header resp) of
                              Panics \<Rightarrow> (Panics, w)
                            | Returns code \<Rightarrow> (Returns (if code = 0 \<and> closeErr \<noteq> None then 1 else code), w)))))"

lemma client_request_built:
  assumes "NewRequest E ''POST'' (rq_URL client_request) (rq_Body client_request) = Inr req"
  shows "req\<lparr>rq_Header := rq_Header client_request\<rparr> = client_request"
  using NewRequest_ok [OF assms] by (simp add: client_request_def)

text \<open>
  The client succeeds only after a response that passed its checks to the very request it
  built, sent through the transport of the configured relay.
\<close>

lemma client_main_success:
  assumes "client_main E L rd NewTransport client_Do json_Decode closeErr fl fs w = (Returns 0, w')"
  shows "\<exists>kc w1 enc resp. client_key_config E L rd fl fs w = (Returns (Inr kc), w1)
     \<and> NewTransport kc (cl_relayURL fl) = Inr enc
     \<and> client_Do (RoundTrip E enc (9 * 1000000000)) client_request w1 = (Inr resp, w')
     \<and> client_exit (json_Decode resp) (rs_Header resp) = Returns 0 \<and> closeErr = None"
proof -
  obtain kc w1 where kc: "client_key_config E L rd fl fs w = (Returns (Inr kc), w1)"
    using assms by (auto simp: client_main_def split: prod.splits call.splits sum.splits)
  obtain enc where enc: "NewTransport kc (cl_relayURL fl) = Inr enc"
    using assms kc by (auto simp: client_main_def split: sum.splits)
  obtain req where req: "NewRequest E ''POST'' (rq_URL client_request) (rq_Body client_request) = Inr req"
    using assms kc enc by (auto simp: client_main_def split: sum.splits)
  obtain resp where "client_Do (RoundTrip E enc (9 * 1000000000)) client_request w1 = (Inr resp, w')"
    "client_exit (json_Decode resp) (rs_Header resp) = Returns 0" "closeErr = None"
    using assms kc enc req client_request_built [OF req]
    by (auto simp: client_main_def Let_def split: prod.splits sum.splits call.splits if_splits)
  with kc enc show ?thesis by blast
qed

lemma client_key_config_source:
  assumes "cl_keyConfigPath fl = []"
  shows "client_key_config E L rd fl fs w = client_key_config E L rd fl fs' w"
  using assms by (simp add: client_key_config_def)

section \<open>Properties\<close>

text \<open>The response a client receives from what a handler wrote.\<close>

definition served :: "response_writer \<Rightarrow> http_response" where
  "served w = \<lparr>rs_StatusCode = rec_Code w, rs_Header = (case rw_Sent w of Some (_, h) \<Rightarrow> h | None \<Rightarrow> rw_Header w),
               rs_Body = rw_Body w, rs_BodyErr = None\<rparr>"

lemma served_middleware:
  "served (captureOuterHeadersMiddleware next r fresh_writer) =
     \<lparr>rs_StatusCode = rec_Code (next (r\<lparr>gr_outerHeaders := Some (gr_Header r)\<rparr>) fresh_writer), rs_Header = Map.empty,
      rs_Body = rw_Body (next (r\<lparr>gr_outerHeaders := Some (gr_Header r)\<rparr>) fresh_writer), rs_BodyErr = None\<rparr>"
proof -
  have "rw_Sent fresh_writer = None" by (simp add: fresh_writer_def)
  from middleware_result [OF this, of "next" r] show ?thesis
    by (simp add: served_def rec_Code_def Let_def) (simp add: fresh_writer_def)
qed

lemma served_config:
  "served (handleWellKnownKeyConfig (Inr cfg) fresh_writer) =
     \<lparr>rs_StatusCode = 200, rs_Header = [''Content-Type'' \<mapsto> [''application/ohttp-keys'']],
      rs_Body = put_uint16 (word_of_nat (length cfg)) @ cfg, rs_BodyErr = None\<rparr>"
  by (simp add: served_def handleWellKnownKeyConfig_def fresh_writer_def Set_def Write_def WriteHeader_def
      rec_Code_def Header_Set_def Let_def)

lemma unat16_bytes:
  "256 * byte (char_of (unat (n :: 16 word) div 256)) + byte (char_of (unat n mod 256)) = unat n"
proof -
  have "unat n < 65536" using unsigned_less [of n] by simp
  then have "unat n div 256 < 256" by (simp add: less_mult_imp_div_less)
  then show ?thesis by simp
qed

lemma parse_key_list_framed:
  "parse_key_list rd (put_uint16 (word_of_nat (length cfg)) @ cfg) =
     (case rd cfg of Inl err \<Rightarrow> Inl (Errorf ''parse key config: %w'' [] (Some err)) | Inr kc \<Rightarrow> Inr kc)"
proof -
  have "unat (word_of_nat (length cfg) :: 16 word) \<le> length cfg"
    by (simp add: unat_of_nat)
  then show ?thesis
    unfolding parse_key_list_def put_uint16_def
    by (simp add: unat16_bytes [simplified])
qed

text \<open>
  The client reads what the gateway serves. Fetching the key configuration from a base
  URL, with or without a final slash, whose well-known path is answered by the gateway's
  handler hands exactly the marshalled configuration to the decoder and returns its result,
  for configurations of any length (the length prefix is that length modulo 65536).
\<close>

lemma fetchKeyConfig_reads_gateway:
  assumes "NewRequest E ''GET'' (config_url base) [] = Inr req" and "base \<noteq> []"
    and "\<And>x. fst (http_do E (5 * 1000000000)
        (req\<lparr>rq_Header := [''Accept'' \<mapsto> [''application/ohttp-keys'']]\<rparr>) x)
      = DoOk (served (handleWellKnownKeyConfig (Inr cfg) fresh_writer))"
    and "rd cfg = Inr kc"
  shows "fst (fetchKeyConfig E rd base w) = Inr kc
     \<and> outbound (snd (fetchKeyConfig E rd base w)) =
         outbound w @ [req\<lparr>rq_Header := [''Accept'' \<mapsto> [''application/ohttp-keys'']]\<rparr>]"
proof -
  let ?req = "req\<lparr>rq_Header := [''Accept'' \<mapsto> [''application/ohttp-keys'']]\<rparr>"
  have h: "req\<lparr>rq_Header := Header_Set (rq_Header req) ''Accept'' ''application/ohttp-keys''\<rparr> = ?req"
    using NewRequest_ok(3) [OF assms(1)] by (simp add: Header_Set_def)
  obtain w' where d: "Do E (5 * 1000000000) ?req w = (DoOk (served (handleWellKnownKeyConfig (Inr cfg) fresh_writer)), w')"
    using assms(3) [of "env w"] by (cases "http_do E (5 * 1000000000) ?req (env w)") (simp add: Do_def)
  have "outbound w' = outbound w @ [?req]" using Do_frame(2) [of E "5 * 1000000000" ?req w] d by simp
  moreover have "fetchKeyConfig E rd base w = (Inr kc, w')"
    using assms(2,4) d by (simp add: fetchKeyConfig_def assms(1) h served_config ReadAll_def parse_key_list_framed Let_def)
  ultimately show ?thesis by simp
qed

lemma fetchKeyConfig_reads_gateway_example:
  "\<exists>E :: unit externals. fst (fetchKeyConfig E Inr ''http://g/'' example_world) = Inr ''config''"
proof -
  let ?E = "example_externals\<lparr>http_do := (\<lambda>_ _ x. (DoOk (served (handleWellKnownKeyConfig (Inr ''config'') fresh_writer)), x))\<rparr>"
  let ?req = "\<lparr>rq_Method = ''GET'', rq_URL = ''http://g/.well-known/ohttp-configs'', rq_Header = Map.empty, rq_Body = []\<rparr>"
  have u: "config_url ''http://g/'' = ''http://g/.well-known/ohttp-configs''" by code_simp
  have n: "NewRequest ?E ''GET'' (config_url ''http://g/'') [] = Inr ?req"
    unfolding u by (simp add: NewRequest_def validMethod_def is_token_char_def example_externals_def)
  have "fst (fetchKeyConfig ?E Inr ''http://g/'' example_world) = Inr ''config''"
    using fetchKeyConfig_reads_gateway [OF n, of "''config''" Inr "''config''" example_world] by simp
  then show ?thesis by blast
qed

text \<open>The payload of the echo handler as JSON: header values are arrays of strings.\<close>

definition json_header :: "header \<Rightarrow> json \<Rightarrow> bool" where
  "json_header h j \<longleftrightarrow> (\<exists>kvs. j = JObject kvs \<and> (\<forall>k. map_of kvs k = map_option (JArray \<circ> map JString) (h k)))"

definition json_payload :: "echo_payload \<Rightarrow> (string \<times> json) list \<Rightarrow> bool" where
  "json_payload ep p \<longleftrightarrow>
     (\<exists>j. map_of p ''headers'' = Some j \<and> json_header (ep_headers ep) j)
     \<and> (\<exists>j. map_of p ''outer-headers'' = Some j \<and>
          (case ep_outer_headers ep of None \<Rightarrow> j = JNull | Some h \<Rightarrow> json_header h j))"

text \<open>
  The client's verdict. On the payload of the echo handler the client passes exactly when
  the inner header arrived with its value, the outer header did not reach the gateway, and the
  response has no header of the gateway; when the gateway did not capture the outer headers the
  client panics.
\<close>

lemma check_response_on_echo:
  assumes "json_payload ep p"
  shows "check_response p respHeader =
    (case ep_outer_headers ep of
       None \<Rightarrow> Panics
     | Some outer \<Rightarrow>
         Returns (\<not> (\<exists>vs. ep_headers ep headerKeyInner = Some (''ping'' # vs))
                  \<or> headerKeyOuter \<in> dom outer \<or> ''X-Test-Gateway-Outer'' \<in> dom respHeader))"
proof -
  obtain hs where h: "map_of p ''headers'' = Some (JObject hs)"
    "\<And>k. map_of hs k = map_option (JArray \<circ> map JString) (ep_headers ep k)"
    using assms by (auto simp: json_payload_def json_header_def)
  have inner: "inner_header_ok hs \<longleftrightarrow> (\<exists>vs. ep_headers ep headerKeyInner = Some (''ping'' # vs))"
    by (auto simp: inner_header_ok_def h(2) split: option.split list.split)
  show ?thesis
  proof (cases "ep_outer_headers ep")
    case None
    with assms h show ?thesis by (auto simp: json_payload_def check_response_def)
  next
    case (Some outer)
    then obtain os where "map_of p ''outer-headers'' = Some (JObject os)"
      "\<And>k. map_of os k = map_option (JArray \<circ> map JString) (outer k)"
      using assms by (auto simp: json_payload_def json_header_def)
    with Some h(1) inner show ?thesis
      by (simp add: check_response_def) (auto simp: domIff)
  qed
qed

lemma check_response_example:
  "check_response [(''headers'', JObject [(''X-Test-Header'', JArray [JString ''ping''])]), (''outer-headers'', JObject [])]
     Map.empty = Returns False"
proof -
  let ?ep = "\<lparr>ep_method = [], ep_path = [], ep_headers = [''X-Test-Header'' \<mapsto> [''ping'']],
    ep_outer_headers = Some Map.empty, ep_body = []\<rparr>"
  let ?p = "[(''headers'', JObject [(''X-Test-Header'', JArray [JString ''ping''])]), (''outer-headers'', JObject [])]"
  have "json_payload ?ep ?p" by (simp add: json_payload_def json_header_def)
  from check_response_on_echo [OF this] show ?thesis by (simp add: headerKeyInner_def)
qed

end
