(* ===== verification/Spec2Isabelle.thy ===== *)
theory Spec2Isabelle
  imports App System Ledger TestClient
begin

text \<open>
  A verification development of an Oblivious HTTP relay written in Go.

  The relay is an external processor for Envoy: Envoy sends it the headers and the body
  of a client's request as messages of a gRPC stream, the relay forwards the opaque body to
  the gateway configured for the request's host and answers the stream with the gateway's
  opaque bytes. Nothing else about the client may reach the gateway, and nothing about the
  gateway may reach the client. A key configuration request to the well-known path is passed
  to the same gateway. Beside the relay the repository holds a gateway that echoes requests and
  a client that tests both.

  \<^bold>\<open>Theories and the code they model.\<close>

  \<^item> \<open>Prelude\<close>: Go errors with their wrap chains, results, 64-bit lengths; the collections
    \<open>frame\<close> and \<open>go_eval\<close>.
  \<^item> \<open>Go_Strings\<close>: what the sources use of the packages strings, unicode/utf8 and strconv on
    byte strings (trimming, splitting, case mapping, decimal numbers).
  \<^item> \<open>Config\<close>: \<open>pkg/ohttp-relay/config\<close>, the flags, the environment and the parser of the
    gateway map: well-formed result, exact error condition, round trip.
  \<^item> \<open>Metrics\<close>: \<open>pkg/ohttp-relay/metrics\<close>, the instruments as the sequence of calls on them.
  \<^item> \<open>World\<close>: the outside. The record \<open>externals\<close> is the parameter for the clock, the
    Unicode table, the URL parser, the HTTP transport and the Redis client, on an environment
    of any type; nothing is assumed of it unless a theorem says so. A \<open>world\<close> keeps that
    environment, the metric calls, every request handed to the HTTP client and every Redis
    pipeline, in order.
  \<^item> \<open>Gateway\<close>: \<open>pkg/ohttp-relay/gateway\<close>, the sources of gateway URLs and key
    configurations, with the contracts \<open>url_source\<close> and \<open>key_config_source\<close>.
  \<^item> \<open>Relayer\<close>: \<open>pkg/ohttp-relay/relay\<close>, one forwarded request, with the contract
    \<open>relayer\<close>, kept over every URL source that keeps its own.
  \<^item> \<open>Traffic\<close>: \<open>pkg/ohttp-relay/traffic\<close>, hourly counters in Redis and the calendar behind
    their keys, with the contract \<open>traffic_recorder\<close>.
  \<^item> \<open>Handlers\<close>: \<open>pkg/ohttp-relay/handlers/server.go\<close>, the stream handler: one definition per
    branch of \<open>Process\<close>, composed to a turn of its loop, the loop over the events of a stream,
    and \<open>Process\<close> with its deferred functions.
  \<^item> \<open>Stream\<close>: properties of streams: blindness to headers, termination, sizes, and, in the
    locale \<open>stream_server\<close> over the three contracts, the requests and the counters of any
    stream.
  \<^item> \<open>Outcomes\<close>: the responses of a stream, the decision on headers, failing gateways, and a
    relayed request, over any handler.
  \<^item> \<open>Wiring\<close>: \<open>runRelayServer\<close> of \<open>pkg/ohttp-relay/app\<close> and the runner of
    \<open>pkg/ohttp-relay/server\<close>: which handler a configuration gives. \<open>stream_server\<close> is
    interpreted on the two wirings of the code, with and without Redis, so the theorems about
    streams are stated for every configuration: delivery to gateways of the static map and of
    Redis, hosts without a gateway, streams that go on after a refusal.
  \<^item> \<open>Accounting\<close>: the traffic a stream books, one booking per relayed response, in the counters
    and in Redis; the locale \<open>accounting_server\<close> extends \<open>stream_server\<close>.
  \<^item> \<open>System\<close>: any number of streams taking turns of their loops in any order over one
    world, as a step relation with its invariants.
  \<^item> \<open>Programs\<close>: the handler, the relayer, the sources and the recorder once more, cut at every
    call they make (clock, HTTP, Redis, instruments, \<open>Send\<close>). The locales \<open>source_program\<close> and
    \<open>server_program\<close> show that running these programs is the sequential model, for every
    configuration.
  \<^item> \<open>Threads\<close>: streams as threads whose single calls are interleaved by any schedule; the
    shared world as the sum of what the threads did; each thread as a sequential run.
  \<^item> \<open>Concurrency\<close>: requests, counters, independence and termination of concurrent streams.
  \<^item> \<open>Delivery\<close>: concurrent streams against the answers the environment can give, and the
    delivery of a request beside any other streams.
  \<^item> \<open>Ledger\<close>: the traffic of concurrent streams: the counters are the sum of all bookings, and
    the store of Redis is the ledger of \<open>Traffic\<close> with all of them booked, in any order, up to
    what is lost with pipelines answered with an error and counted again by pipelines sent again.
  \<^item> \<open>Runnable\<close>: \<open>internal/runnable\<close>, a gRPC server with its watching goroutine in all
    interleavings, and the signal handler of \<open>internal/ctrl\<close>.
  \<^item> \<open>Tls\<close>: \<open>internal/tls\<close>, the self-signed certificate.
  \<^item> \<open>App\<close>: the rest of \<open>pkg/ohttp-relay/app\<close>, \<open>Start\<close> of \<open>pkg/ohttp-relay/server\<close>, and
    \<open>cmd/ohttp-relay\<close>: the three servers as an error group, the metrics server, logging, health.
  \<^item> \<open>KeyConfig\<close>: \<open>pkg/echo-gateway/keyconfig\<close>, key configurations as files.
  \<^item> \<open>EchoGateway\<close>, \<open>TestClient\<close>: \<open>cmd/echo-gateway\<close> and \<open>cmd/test-client\<close>.
  \<^item> This theory: what spans relay, gateway and client: the key configuration from the gateway
    through the relay to the client, and the end-to-end test of the repository.

  \<^bold>\<open>State and events.\<close> A stream is a list of events, each what one turn of
  the loop meets: a done context, a received message or a receive error. The end of the list
  means that the next call has not returned, so a list is any moment in the life of a stream
  and the result of the loop is \<open>None\<close> until \<open>Process\<close> returns; that
  it does return on every stream that ends is a theorem. No fuel is used: loops recurse over
  their input, and the string functions have length measures. Streams that run at the same
  time are programs interleaved at their single calls: a schedule is any sequence of thread
  numbers, of any length, and liveness is stated for fair schedules. What a stream touches
  between two calls is its own (\<open>streamState\<close> and the local variables of
  \<open>Process\<close>), so no finer interleaving can be observed. Sizes are 64-bit words;
  theorems that compare a size with the limit say for which lengths the sum of the code does
  not wrap around. Servers and goroutines outside the handler are sequences of events or step
  relations; events of different goroutines may come in any order.

  \<^bold>\<open>What is shown.\<close> For every configuration the code accepts: requests
  that leave are clean and within the limit, for one stream and for any interleaving of the
  calls of many; responses carry no internal detail; headers the handler does not read do not
  matter; bodies may come in any pieces; a request the gateway answers is answered to the
  client with exactly the gateway's bytes, also beside any other streams; streams do not
  disturb each other; the gauge of active requests is exact at every moment, the other
  counters whenever no stream is between two calls, and the traffic counters, the increments
  handed to Redis and the relayed bytes agree; what Redis then holds is, per host and hour, the
  ledger of all relayed responses, each as often as its pipeline was executed. The end-to-end
  test of the repository passes. For the parts: round trips of the gateway map, of the key
  files and of the key configuration; error conditions; start and stop of the servers. Some theorems record behaviour that differs from a comment, a document or the
  evident intent: statuses of refused headers, streams that go on after a refusal, requests
  that end in trailers, a dropped read error, the expiry of traffic keys, colon mappings with
  an equals sign, the headers of the echo gateway, unknown KEM names, and the exit of the
  relay command.

  \<^bold>\<open>Not modelled.\<close> Log output, and with it the header \<open>x-request-id\<close>, which
  the handler reads for the log only; the libraries (HTTP, gRPC, Redis,
  OpenTelemetry, OHTTP, YAML, cryptography), which are parameters; header names added by the
  HTTP transport; request cancellation inside a call to a library, which is one of the errors
  the call may return; \<open>strings.EqualFold\<close> is modelled for the ASCII constant it
  is compared with. A call into a library is one step, and the calls are assumed to return.
  The expiry of keys by Redis is not modelled; the theorem about the ledger speaks of the keys
  that live on, and counts every attempt a retrying client makes at a pipeline. The OHTTP
  library is a parameter; the end-to-end theorem assumes of it the exchange of RFC 9458 for the
  one request of the test.
  Deployment files and tests are left out.
\<close>

section \<open>The key configuration through the relay\<close>

definition key_request_for :: "string \<Rightarrow> http_request" where
  "key_request_for url =
     \<lparr>rq_Method = ''GET'', rq_URL = url @ ''/.well-known/ohttp-configs'',
      rq_Header = [''Accept'' \<mapsto> [''application/ohttp-keys''], ''User-Agent'' \<mapsto> [''ohttp-relay'']], rq_Body = []\<rparr>"

definition keys_response :: "bytes \<Rightarrow> ProcessingResponse" where
  "keys_response b = PR_Immediate \<lparr>ir_Status = Some 200,
     ir_SetHeaders = [(''content-type'', ''application/ohttp-keys'')], ir_Body = b\<rparr>"

text \<open>A key configuration source whose gateway answers 200.\<close>

lemma NewHttpKeyConfigSource_answered:
  assumes "url_source src" and "\<And>w. src host w = (Inr url, w)" and "url \<noteq> []"
    and "parse_url_err E (url @ ''/.well-known/ohttp-configs'') = None"
    and "\<And>x. fst (http_do E t (key_request_for url) x) = DoOk rsp"
    and "rs_StatusCode rsp = 200"
  shows "\<exists>w'. NewHttpKeyConfigSource E t src host w = (Inr (rs_Body rsp), w')
     \<and> outbound w' = outbound w @ [key_request_for url]"
proof -
  have n: "NewRequest E ''GET'' (url @ ohttpConfigsPath) [] =
      Inr \<lparr>rq_Method = ''GET'', rq_URL = url @ ohttpConfigsPath, rq_Header = Map.empty, rq_Body = []\<rparr>"
    using assms(4) by (simp add: NewRequest_def validMethod_def is_token_char_def ohttpConfigsPath_def)
  have k: "\<lparr>rq_Method = ''GET'', rq_URL = url @ ohttpConfigsPath, rq_Header = Map.empty, rq_Body = []\<rparr>
      \<lparr>rq_Header := Header_Set (Header_Set Map.empty ''Accept'' contentTypeOHTTPKeys) ''User-Agent'' ''ohttp-relay''\<rparr>
      = key_request_for url"
    by (simp add: key_request_for_def Header_Set_def ohttpConfigsPath_def contentTypeOHTTPKeys_def)
  obtain w' where d: "Do E t (key_request_for url) w = (DoOk rsp, w')"
    using assms(5) [of "env w"] by (cases "http_do E t (key_request_for url) (env w)") (simp add: Do_def)
  have "outbound w' = outbound w @ [key_request_for url]" using Do_frame(2) [of E t "key_request_for url" w] d by simp
  moreover have "NewHttpKeyConfigSource E t src host w = (Inr (rs_Body rsp), w')"
    using assms(2,3,6) d k by (simp add: NewHttpKeyConfigSource_def n ReadAll_def Let_def)
  ultimately show ?thesis by blast
qed

text \<open>
  C16: a client learns the gateway's key configuration through the relay. On a relay set up
  from any configuration whose static map names a gateway for the host, a GET of the
  well-known path that accepts the OHTTP key media type makes exactly one request, to the
  well-known path of that gateway; when the gateway's handler answers it the stream sends one
  200 response of the key media type, and the client's decoder finds in its body exactly
  the configuration the gateway marshalled.
\<close>

theorem key_config_through_relay:
  assumes wired: "setup_relay E cfg w0 = (Inr runner, w1)"
    and gw: "DomainMap cfg (request_host (uni_lower E) v) = Some url" "url \<noteq> []"
      "parse_url_err E (url @ ''/.well-known/ohttp-configs'') = None"
    and hdr: "extractHeaderValue (uni_lower E) v '':path'' = configsPath" "request_method (uni_lower E) v = ''get''"
      "ToLower (uni_lower E) (extractHeaderValue (uni_lower E) v ''accept'') = ''application/ohttp-keys''"
    and answer: "\<And>x. fst (http_do E (Timeout cfg) (key_request_for url) x)
      = DoOk (served (handleWellKnownKeyConfig (Inr kc) fresh_writer))"
    and send: "\<And>r x. fst (send r x) = None"
  shows "\<exists>p w' b. Process E send (runner_handler runner) [headers_event v, Recv (Inl EOF)] w = (Some None, p, w')
     \<and> pr_sent p = [keys_response b] \<and> parse_key_list Inr b = Inr kc
     \<and> outbound w' = outbound w @ [key_request_for url]"
proof -
  let ?lc = "uni_lower E" and ?s = "runner_handler runner"
  let ?rsp = "served (handleWellKnownKeyConfig (Inr kc) fresh_writer)"
  obtain src rec w2 where g: "gateway_sources E cfg w0 = (Inr (src, rec), w2)"
    using wired by (auto simp: setup_relay_def split: prod.splits sum.splits)
  have ks: "sv_keyConfigSource ?s = NewHttpKeyConfigSource E (Timeout cfg) src"
    using wired g by (auto simp: setup_relay_def runner_handler_def NewExtProcServerRunner_def NewServer_def Let_def)
  note src = gateway_sources_static_first [OF g gw(1,2)]
  have loop: "\<exists>p w'. process_loop E send ?s [headers_event v, Recv (Inl EOF)] proc_init w = (Some None, p, w')
      \<and> pr_sent p = [keys_response (rs_Body ?rsp)] \<and> outbound w' = outbound w @ [key_request_for url]" for w
  proof -
    obtain w' where k: "NewHttpKeyConfigSource E (Timeout cfg) src (request_host ?lc v) w = (Inr (rs_Body ?rsp), w')"
      and o: "outbound w' = outbound w @ [key_request_for url]"
      using NewHttpKeyConfigSource_answered [OF src(2,1) gw(2,3) answer] by (auto simp: served_config)
    have "respondKeyConfig ?lc ?s v (noted ?lc v st) w = (Inr [keys_response (rs_Body ?rsp)], w')" for st
      using hdr(2,3) k by (simp add: respondKeyConfig_def noted_def ks keys_response_def ContentTypeOHTTPKeys_def)
    then have "on_request_headers ?lc ?s v st w =
        (Inr [keys_response (rs_Body ?rsp)], (noted ?lc v st)\<lparr>st_configRequest := True\<rparr>, w')" for st
      by (simp add: on_request_headers_alt hdr(1))
    moreover obtain x where "send (keys_response (rs_Body ?rsp)) (env w') = (None, x)" using send by (metis prod.collapse)
    ultimately show ?thesis
      using o by (simp add: process_step_def headers_event_def dispatch_def send_responses_one proc_init_def)
  qed
  have "parse_key_list Inr (rs_Body ?rsp) = Inr kc" by (simp add: served_config parse_key_list_framed)
  with Process_of_loop [of E send ?s "[headers_event v, Recv (Inl EOF)]" None, OF loop] show ?thesis by blast
qed

theorem key_config_through_relay_witness:
  "\<exists>(E :: unit externals) runner w1 p w' b.
     setup_relay E example_config example_world = (Inr runner, w1)
     \<and> Process E example_send (runner_handler runner)
         [headers_event (Some \<lparr>hh_Headers = Some [raw_header '':method'' ''GET'', raw_header '':authority'' ''example.test'',
            raw_header '':path'' ''/.well-known/ohttp-configs'', raw_header ''Accept'' ''application/ohttp-keys'']\<rparr>),
          Recv (Inl EOF)] w1 = (Some None, p, w')
     \<and> pr_sent p = [keys_response b] \<and> parse_key_list Inr b = Inr ''config''"
proof -
  let ?rsp = "served (handleWellKnownKeyConfig (Inr ''config'') fresh_writer)"
  let ?E = "example_externals\<lparr>http_do := (\<lambda>_ _ x. (DoOk ?rsp, x))\<rparr>"
  let ?v = "Some \<lparr>hh_Headers = Some [raw_header '':method'' ''GET'', raw_header '':authority'' ''example.test'',
            raw_header '':path'' ''/.well-known/ohttp-configs'', raw_header ''Accept'' ''application/ohttp-keys'']\<rparr>"
  obtain runner w1 where s: "setup_relay ?E example_config example_world = (Inr runner, w1)"
    using setup_relay_up [of ?E example_config example_world] by (auto simp: example_externals_def)
  have lc: "uni_lower ?E = id" by (simp add: example_externals_def)
  have h: "request_host id ?v = ''example.test''" and p: "extractHeaderValue id ?v '':path'' = configsPath"
    and m: "request_method id ?v = ''get''" and a: "ToLower id (extractHeaderValue id ?v ''accept'') = ''application/ohttp-keys''"
    by code_simp+
  have "\<exists>p w' b. Process ?E example_send (runner_handler runner) [headers_event ?v, Recv (Inl EOF)] w1 = (Some None, p, w')
     \<and> pr_sent p = [keys_response b] \<and> parse_key_list Inr b = Inr ''config''
     \<and> outbound w' = outbound w1 @ [key_request_for ''https://g'']"
    by (rule key_config_through_relay [OF s])
       (simp_all add: lc h p m a, simp_all add: example_config_def example_externals_def example_send_def)
  with s show ?thesis by blast
qed

section \<open>The test of the repository\<close>

text \<open>
  What the test relies on of the OHTTP library, for the one exchange it makes (RFC 9458,
  sections 4.3, 4.4 and 5.2, in \<open>docs/rfc9458.txt\<close>). The client encapsulates a request: the
  encapsulated request is a message of type \<open>message/ohttp-req\<close>, and the client keeps a context
  for decapsulating its response. The gateway, given exactly these bytes in a request of that type with a
  method it accepts, recovers the request (fields that frame or route a message may differ), runs the
  handler on it within the context of the outer request, and, when the handler
  answers with a final status, sends a single response with status 200 whose body, received as
  \<open>message/ohttp-res\<close>, the client's context turns back into the handler's response. Nothing is
  assumed of other bytes, types, methods, handlers or contexts.
\<close>

definition transport_fields :: "string set" where
  "transport_fields =
     {''Accept-Encoding'', ''Connection'', ''Content-Length'', ''Date'', ''Host'', ''Trailer'', ''Transfer-Encoding'', ''User-Agent''}"

definition inner_request :: "http_request \<Rightarrow> gw_request \<Rightarrow> bool" where
  "inner_request req r \<longleftrightarrow>
     gr_Method r = rq_Method req \<and> gr_Body r = rq_Body req \<and> gr_BodyErr r = None
     \<and> (\<forall>k. k \<notin> transport_fields \<longrightarrow> gr_Header r k = rq_Header req k)"

definition inner_response :: "http_response \<Rightarrow> http_response \<Rightarrow> bool" where
  "inner_response a rsp \<longleftrightarrow>
     rs_StatusCode rsp = rs_StatusCode a \<and> rs_Body rsp = rs_Body a \<and> rs_BodyErr rsp = None
     \<and> (\<forall>k. k \<notin> transport_fields \<longrightarrow> rs_Header rsp k = rs_Header a k)"

definition ohttp_response :: "header \<Rightarrow> bytes \<Rightarrow> http_response" where
  "ohttp_response hs b = \<lparr>rs_StatusCode = 200, rs_Header = hs, rs_Body = b, rs_BodyErr = None\<rparr>"

definition ohttp_exchange ::
  "(string \<Rightarrow> bool) \<Rightarrow> (handler \<Rightarrow> handler) \<Rightarrow> handler \<Rightarrow> bytes \<Rightarrow> gw_request \<Rightarrow> (http_response \<Rightarrow> http_response result) \<Rightarrow> bool" where
  "ohttp_exchange accepts Middleware h encapsulated inner Decapsulate \<longleftrightarrow>
     (\<forall>r. accepts (gr_Method r) \<and> gr_Header r ''Content-Type'' = Some [''message/ohttp-req'']
          \<and> gr_Body r = encapsulated \<and> gr_BodyErr r = None \<longrightarrow>
        (let a = served (h (inner\<lparr>gr_outerHeaders := gr_outerHeaders r\<rparr>) fresh_writer);
             m = Middleware h r fresh_writer
         in 200 \<le> rs_StatusCode a \<and> rs_StatusCode a < 600 \<longrightarrow>
              rec_Code m = 200
              \<and> (\<forall>hs. hs ''Content-Type'' = Some [''message/ohttp-res''] \<longrightarrow>
                   (\<exists>rsp. Decapsulate (ohttp_response hs (rw_Body m)) = Inr rsp \<and> inner_response a rsp))))"

text \<open>The payload the echo handler makes of the inner request, and its JSON text, which decodes to it.\<close>

definition echoed :: "gw_request \<Rightarrow> header \<Rightarrow> echo_payload" where
  "echoed inner outer =
     \<lparr>ep_method = gr_Method inner, ep_path = gr_Path inner, ep_headers = gr_Header inner,
      ep_outer_headers = Some outer, ep_body = gr_Body inner\<rparr>"

definition json_text ::
  "(echo_payload \<Rightarrow> bytes result) \<Rightarrow> (bytes \<Rightarrow> (string \<times> json) list result) \<Rightarrow> echo_payload \<Rightarrow> bool" where
  "json_text Encode Decode ep \<longleftrightarrow> (\<exists>b kvs. Encode ep = Inr b \<and> Decode b = Inr kvs \<and> json_payload ep kvs)"

text \<open>The gateway's answer to a request of the relay.\<close>

definition gateway_answer ::
  "bytes result \<Rightarrow> handler \<Rightarrow> (string \<Rightarrow> handler) \<Rightarrow> (handler \<Rightarrow> handler) \<Rightarrow> (echo_payload \<Rightarrow> bytes result) \<Rightarrow>
   header \<Rightarrow> string \<Rightarrow> http_request \<Rightarrow> http_response" where
  "gateway_answer marshalled prom redirect Middleware Encode added path req =
     served (gateway_mux marshalled prom redirect Middleware Encode (gateway_view added path req) fresh_writer)"

text \<open>
  The client's side: the request its transport sends, an answer to it, and the verdict of the
  client on what its transport makes of that answer.
\<close>

definition outer_request :: "http_request \<Rightarrow> http_request" where
  "outer_request encapsulated =
     encapsulated\<lparr>rq_Header := Header_Set (rq_Header encapsulated) headerKeyOuter ''custom-value''\<rparr>"

definition client_receives :: "'y externals \<Rightarrow> http_request \<Rightarrow> bytes \<Rightarrow> bool" where
  "client_receives C req b \<longleftrightarrow>
     (\<forall>x. \<exists>hs. hs ''Content-Type'' = Some [''message/ohttp-res'']
        \<and> fst (http_do C (9 * 1000000000) req x) = DoOk (ohttp_response hs b))"

definition client_passes ::
  "'y externals \<Rightarrow> (http_request \<Rightarrow> (http_request \<times> (http_response \<Rightarrow> http_response result)) result) \<Rightarrow>
   (bytes \<Rightarrow> (string \<times> json) list result) \<Rightarrow> 'y world \<Rightarrow> bool" where
  "client_passes C Encapsulate Decode w \<longleftrightarrow>
     (case fst (RoundTrip C Encapsulate (9 * 1000000000) client_request w) of
        Inl err \<Rightarrow> False
      | Inr rsp \<Rightarrow> client_exit (Decode (rs_Body rsp)) (rs_Header rsp) = Returns 0)"

text \<open>The response of the echo handler with a given JSON text.\<close>

definition json_response :: "bytes \<Rightarrow> http_response" where
  "json_response b = ohttp_response [''Content-Type'' \<mapsto> [''application/json'']] b"

lemma served_echo:
  assumes "gr_BodyErr r = None" and "enc \<lparr>ep_method = gr_Method r, ep_path = gr_Path r, ep_headers = gr_Header r,
      ep_outer_headers = gr_outerHeaders r, ep_body = gr_Body r\<rparr> = Inr b"
  shows "served (echoHandler enc r fresh_writer) = json_response b"
  using assms
  by (simp add: json_response_def ohttp_response_def echoHandler_def outerHeadersFromContext_def served_def Set_def Write_def
      WriteHeader_def rec_Code_def fresh_writer_def Header_Set_def Let_def)

text \<open>What the gateway makes of the encapsulated request, for the client that holds its context.\<close>

lemma gateway_answer_decapsulates:
  assumes exch: "ohttp_exchange accepts Middleware (echoHandler Encode) (rq_Body req) inner Decapsulate"
    and req: "accepts (rq_Method req)" "rq_Header req ''Content-Type'' = Some [''message/ohttp-req'']"
    and inner: "gr_BodyErr inner = None" and path: "cleanPath path = path" "path \<notin> {''/.well-known/ohttp-configs'', ''/metrics''}"
    and b: "Encode (echoed inner (added ++ rq_Header req)) = Inr b"
    and a: "a = gateway_answer marshalled prom redirect Middleware Encode added path req"
    and hs: "hs ''Content-Type'' = Some [''message/ohttp-res'']"
  shows "rs_StatusCode a = 200" "rs_BodyErr a = None"
    "\<exists>rsp. Decapsulate (ohttp_response hs (rs_Body a)) = Inr rsp \<and> inner_response (json_response b) rsp"
proof -
  let ?r = "(gateway_view added path req)\<lparr>gr_outerHeaders := Some (added ++ rq_Header req)\<rparr>"
  let ?m = "Middleware (echoHandler Encode) ?r fresh_writer"
  have "served (echoHandler Encode (inner\<lparr>gr_outerHeaders := gr_outerHeaders ?r\<rparr>) fresh_writer) = json_response b"
    using inner b by (intro served_echo) (simp_all add: echoed_def)
  moreover have "accepts (gr_Method ?r)" "gr_Header ?r ''Content-Type'' = Some [''message/ohttp-req'']"
    "gr_Body ?r = rq_Body req" "gr_BodyErr ?r = None"
    using req by (simp_all add: gateway_view_def)
  ultimately have m: "rec_Code ?m = 200"
    "\<exists>rsp. Decapsulate (ohttp_response hs (rw_Body ?m)) = Inr rsp \<and> inner_response (json_response b) rsp"
    using exch [unfolded ohttp_exchange_def, rule_format, of ?r] hs
    by (simp_all add: Let_def json_response_def ohttp_response_def)
  have p: "gr_Path (gateway_view added path req) = path" and h: "gr_Header (gateway_view added path req) = added ++ rq_Header req"
    by (simp_all add: gateway_view_def)
  have "a = served (captureOuterHeadersMiddleware (Middleware (echoHandler Encode)) (gateway_view added path req) fresh_writer)"
    unfolding a gateway_answer_def by (subst gateway_mux_ohttp) (use path in \<open>simp_all add: p\<close>)
  then have "rs_StatusCode a = rec_Code ?m" "rs_Body a = rw_Body ?m" "rs_BodyErr a = None"
    by (simp_all add: served_middleware h)
  with m show "rs_StatusCode a = 200" "rs_BodyErr a = None"
    "\<exists>rsp. Decapsulate (ohttp_response hs (rs_Body a)) = Inr rsp \<and> inner_response (json_response b) rsp"
    by simp_all
qed

text \<open>The client accepts the echo of its own request, whatever fields of transport came along.\<close>

lemma client_accepts_echo:
  assumes inner: "inner_request client_request inner" and p: "json_payload (echoed inner outer) kvs"
    and outer: "headerKeyOuter \<notin> dom outer" and rsp: "inner_response (json_response b) rsp" and d: "Decode b = Inr kvs"
  shows "client_exit (Decode (rs_Body rsp)) (rs_Header rsp) = Returns 0"
proof -
  have "gr_Header inner headerKeyInner = Some [''ping'']"
    using inner by (simp add: inner_request_def client_request_def Header_Set_def headerKeyInner_def transport_fields_def)
  moreover have "rs_Header rsp ''X-Test-Gateway-Outer'' = None" and "rs_Body rsp = b"
    using rsp by (simp_all add: inner_response_def json_response_def ohttp_response_def transport_fields_def)
  ultimately show ?thesis
    using check_response_on_echo [OF p, of "rs_Header rsp"] outer d
    by (simp add: client_exit_def echoed_def domIff)
qed

text \<open>
  C5: the end-to-end test of the repository passes. The test client's encapsulated request
  reaches a relay, set up from any configuration that maps the host, as an accepted header
  message with any further headers, the client's outer test header among them, and a body in
  any pieces; the mapped gateway is the echo gateway. Then the stream ends without error and
  sends one 200 response, and the client, whose transport gets its bytes back as an OHTTP response,
  decapsulates it, finds its inner header echoed, no outer header at the gateway and no gateway
  header in the response: its exit code is 0. Assumed are the exchange of the OHTTP standard for
  this request, by a middleware that accepts the method as the relay writes it, in lower case; that the JSON
  text of the payload decodes to it; and a transport to the gateway that does not itself add the
  client's test header.
\<close>

theorem end_to_end_test_passes:
  assumes wired: "setup_relay E cfg w0 = (Inr runner, w1)"
    and gw: "DomainMap cfg (request_host (uni_lower E) v) = Some url" "url \<noteq> []" "parse_url_err E url = None"
    and hdr: "accepted_headers (uni_lower E) v"
    and fit: "int (length (concat cs @ c)) \<le> sint (MaxRequestBodySize cfg)"
    and send: "\<And>r x. fst (send r x) = None"
    and client: "Encapsulate client_request = Inr (encapsulated, Decapsulate)" "rq_Body encapsulated = concat cs @ c"
    and answer: "\<And>x. fst (http_do E (Timeout cfg) (relayed_request url (concat cs @ c)) x)
      = DoOk (gateway_answer marshalled prom redirect Middleware Encode added path (relayed_request url (concat cs @ c)))"
    and path: "cleanPath path = path" "path \<notin> {''/.well-known/ohttp-configs'', ''/metrics''}"
    and exch: "ohttp_exchange accepts Middleware (echoHandler Encode) (rq_Body encapsulated) inner Decapsulate"
      "accepts ''post''" "inner_request client_request inner"
    and json: "json_text Encode Decode (echoed inner (added ++ rq_Header (relayed_request url (concat cs @ c))))"
    and outer: "headerKeyOuter \<notin> dom added"
  shows "\<exists>p w' b. Process E send (runner_handler runner) (request_events v cs c) w = (Some None, p, w')
     \<and> pr_sent p = [relayed_response b]
     \<and> (\<forall>(C :: 'y externals) wc. client_receives C (outer_request encapsulated) b \<longrightarrow> client_passes C Encapsulate Decode wc)"
proof -
  let ?req = "relayed_request url (concat cs @ c)"
  let ?a = "gateway_answer marshalled prom redirect Middleware Encode added path ?req"
  obtain b kvs where b: "Encode (echoed inner (added ++ rq_Header ?req)) = Inr b" "Decode b = Inr kvs"
    "json_payload (echoed inner (added ++ rq_Header ?req)) kvs" using json unfolding json_text_def by blast
  have req: "accepts (rq_Method ?req)" "rq_Header ?req ''Content-Type'' = Some [''message/ohttp-req'']"
    "rq_Body ?req = rq_Body encapsulated" "headerKeyOuter \<notin> dom (added ++ rq_Header ?req)"
    using exch(2) client(2) outer by (simp_all add: relayed_request_def headerKeyOuter_def)
  have "gr_BodyErr inner = None" using exch(3) by (simp add: inner_request_def)
  note a = gateway_answer_decapsulates [OF exch(1) [folded req(3)] req(1,2) this path b(1) refl,
      where marshalled = marshalled and prom = prom and redirect = redirect]
  have "\<exists>p w'. Process E send (runner_handler runner) (request_events v cs c) w = (Some None, p, w')
     \<and> pr_sent p = [relayed_response (rs_Body ?a)] \<and> outbound w' = outbound w @ [?req]"
    by (rule relay_delivers [OF wired gw hdr fit answer _ _ _ send])
      (simp_all add: a(1,2) [of "\<lambda>_. Some [''message/ohttp-res'']"])
  moreover have "client_passes C Encapsulate Decode wc" if rec: "client_receives C (outer_request encapsulated) (rs_Body ?a)"
    for C :: "'y externals" and wc
  proof -
    obtain hs where hs: "hs ''Content-Type'' = Some [''message/ohttp-res'']"
      "fst (http_do C (9 * 1000000000) (outer_request encapsulated) (env wc)) = DoOk (ohttp_response hs (rs_Body ?a))"
      using rec unfolding client_receives_def by blast
    then obtain x where x: "http_do C (9 * 1000000000) (outer_request encapsulated) (env wc) = (DoOk (ohttp_response hs (rs_Body ?a)), x)"
      by (cases "http_do C (9 * 1000000000) (outer_request encapsulated) (env wc)") simp
    obtain rsp where rsp: "Decapsulate (ohttp_response hs (rs_Body ?a)) = Inr rsp" "inner_response (json_response b) rsp"
      using a(3) [where hs = hs, OF hs(1)] by blast
    have "fst (RoundTrip C Encapsulate (9 * 1000000000) client_request wc) = Inr rsp"
      using client(1) x rsp(1) by (simp add: RoundTrip_def Do_def outer_request_def)
    with client_accepts_echo [where Decode = Decode and b = b, OF exch(3) b(3) req(4) rsp(2) b(2)] show ?thesis by (simp add: client_passes_def)
  qed
  ultimately show ?thesis by blast
qed

text \<open>
  A toy library, to have a run: the bytes are shifted by a key that is their first byte, a
  gateway refuses what is not an encapsulated request, and a context decapsulates only
  responses of the right type, with its own key.
\<close>

definition shift_byte :: "char \<Rightarrow> char \<Rightarrow> char" where
  "shift_byte key ch = char_of ((byte key + byte ch) mod 256)"

definition unshift_byte :: "char \<Rightarrow> char \<Rightarrow> char" where
  "unshift_byte key ch = char_of ((256 - byte key + byte ch) mod 256)"

lemma unshift_shift: "unshift_byte key (shift_byte key ch) = ch"
proof -
  have b: "byte key < 256" "byte ch < 256" by simp_all
  have "(256 - byte key + (byte key + byte ch) mod 256) mod 256 = (256 - byte key + (byte key + byte ch)) mod 256"
    by (rule mod_add_right_eq)
  also have "256 - byte key + (byte key + byte ch) = 256 + byte ch" using b(1) by linarith
  finally have "(256 - byte key + (byte key + byte ch) mod 256) mod 256 = byte ch" using b(2) by simp
  then show ?thesis by (simp add: shift_byte_def unshift_byte_def)
qed

definition toy_Decapsulate :: "char \<Rightarrow> http_response \<Rightarrow> http_response result" where
  "toy_Decapsulate key rsp =
     (if rs_Header rsp ''Content-Type'' \<noteq> Some [''message/ohttp-res''] then Inl (LibraryError ''not an encapsulated response'')
      else Inr (json_response (map (unshift_byte key) (rs_Body rsp))))"

definition toy_Encapsulate :: "char \<Rightarrow> http_request \<Rightarrow> (http_request \<times> (http_response \<Rightarrow> http_response result)) result" where
  "toy_Encapsulate key req = Inr
     (\<lparr>rq_Method = ''POST'', rq_URL = defaultRelayURL, rq_Header = [''Content-Type'' \<mapsto> [''message/ohttp-req'']],
       rq_Body = key # map (shift_byte key) (rq_Body req)\<rparr>, toy_Decapsulate key)"

definition toy_Middleware :: "handler \<Rightarrow> handler" where
  "toy_Middleware h r w =
     (if gr_Header r ''Content-Type'' \<noteq> Some [''message/ohttp-req''] \<or> gr_Body r = [] then http_Error ''bad request'' 400 w
      else
        let key = hd (gr_Body r);
            inner = (gateway_view Map.empty ''/'' (client_request\<lparr>rq_Body := map (unshift_byte key) (tl (gr_Body r))\<rparr>))
              \<lparr>gr_outerHeaders := gr_outerHeaders r\<rparr>
        in Write (map (shift_byte key) (rs_Body (served (h inner fresh_writer)))) (Set ''Content-Type'' ''message/ohttp-res'' w))"

definition toy_Encode :: "echo_payload \<Rightarrow> bytes result" where
  "toy_Encode ep = Inr (ep_method ep @ ep_body ep)"

definition toy_Decode :: "bytes \<Rightarrow> (string \<times> json) list result" where
  "toy_Decode b =
     (if \<not> prefix ''POST'' b then Inl (LibraryError ''invalid character'')
      else Inr [(''headers'', JObject [(''X-Test-Header'', JArray [JString ''ping'']),
                                       (''Content-Type'', JArray [JString ''application/json''])]),
                (''outer-headers'', JObject [(''Content-Type'', JArray [JString ''message/ohttp-req'']),
                                             (''User-Agent'', JArray [JString []])])])"

abbreviation toy_inner :: gw_request where
  "toy_inner \<equiv> gateway_view Map.empty ''/'' client_request"

lemma toy_exchange:
  "ohttp_exchange (\<lambda>m. True) toy_Middleware (echoHandler toy_Encode) (key # map (shift_byte key) (rq_Body client_request))
     toy_inner (toy_Decapsulate key)"
proof -
  let ?b = "rq_Method client_request @ rq_Body client_request"
  have e: "served (echoHandler toy_Encode (toy_inner\<lparr>gr_outerHeaders := x\<rparr>) fresh_writer) = json_response ?b" for x
    by (intro served_echo) (simp_all add: toy_Encode_def gateway_view_def)
  have u: "map (unshift_byte key) (map (shift_byte key) s) = s" for s by (induction s) (simp_all add: unshift_shift)
  have m: "toy_Middleware (echoHandler toy_Encode) r fresh_writer =
      Write (map (shift_byte key) ?b) (Set ''Content-Type'' ''message/ohttp-res'' fresh_writer)"
    if "gr_Header r ''Content-Type'' = Some [''message/ohttp-req'']"
      "gr_Body r = key # map (shift_byte key) (rq_Body client_request)" for r :: gw_request
    using that e [of "gr_outerHeaders r"] u [of "rq_Body client_request"]
    by (simp add: toy_Middleware_def Let_def json_response_def ohttp_response_def del: map_map)
  show ?thesis
    unfolding ohttp_exchange_def Let_def
  proof (intro allI impI conjI; elim conjE)
    fix r :: gw_request and hs
    assume r: "gr_Header r ''Content-Type'' = Some [''message/ohttp-req'']"
      "gr_Body r = key # map (shift_byte key) (rq_Body client_request)"
    show "rec_Code (toy_Middleware (echoHandler toy_Encode) r fresh_writer) = 200"
      unfolding m [OF r] by (simp add: Write_def WriteHeader_def Set_def fresh_writer_def rec_Code_def)
    assume "hs ''Content-Type'' = Some [''message/ohttp-res'']"
    moreover have "rw_Body (toy_Middleware (echoHandler toy_Encode) r fresh_writer) = map (shift_byte key) ?b"
      unfolding m [OF r] by (simp add: Write_def WriteHeader_def Set_def fresh_writer_def)
    ultimately show "\<exists>rsp. toy_Decapsulate key (ohttp_response hs (rw_Body (toy_Middleware (echoHandler toy_Encode) r fresh_writer)))
        = Inr rsp \<and> inner_response (served (echoHandler toy_Encode (toy_inner\<lparr>gr_outerHeaders := gr_outerHeaders r\<rparr>) fresh_writer)) rsp"
      using u [of ?b] by (simp add: e toy_Decapsulate_def ohttp_response_def inner_response_def json_response_def del: map_map map_append)
  qed
qed

lemma toy_json: "json_text toy_Encode toy_Decode (echoed toy_inner (Map.empty ++ rq_Header (relayed_request url b)))"
  by (simp add: json_text_def toy_Encode_def toy_Decode_def echoed_def gateway_view_def relayed_request_def
      json_payload_def json_header_def client_request_def Header_Set_def headerKeyInner_def)

text \<open>The run of the test with the toy library: the pieces are four bytes and the rest.\<close>

theorem end_to_end_test_passes_witness:
  "\<exists>(E :: unit externals) (C :: unit externals) runner w1 encapsulated p w' b.
     setup_relay E (example_config\<lparr>MaxRequestBodySize := 100\<rparr>) example_world = (Inr runner, w1)
     \<and> rq_Body encapsulated = CHR ''k'' # map (shift_byte CHR ''k'') (rq_Body client_request)
     \<and> Process E example_send (runner_handler runner)
         (request_events (Some \<lparr>hh_Headers = Some [raw_header '':method'' ''POST'', raw_header '':authority'' ''example.test'',
            raw_header ''content-length'' ''27'', raw_header ''x-outer-test-header'' ''custom-value'']\<rparr>)
           [take 4 (rq_Body encapsulated)] (drop 4 (rq_Body encapsulated))) w1
       = (Some None, p, w')
     \<and> pr_sent p = [relayed_response b] \<and> client_receives C (outer_request encapsulated) b
     \<and> client_passes C (toy_Encapsulate CHR ''k'') toy_Decode example_world"
proof -
  let ?cfg = "example_config\<lparr>MaxRequestBodySize := 100\<rparr>"
  let ?v = "Some \<lparr>hh_Headers = Some [raw_header '':method'' ''POST'', raw_header '':authority'' ''example.test'',
            raw_header ''content-length'' ''27'', raw_header ''x-outer-test-header'' ''custom-value'']\<rparr>"
  let ?body = "CHR ''k'' # map (shift_byte CHR ''k'') (rq_Body client_request)"
  let ?enc = "\<lparr>rq_Method = ''POST'', rq_URL = defaultRelayURL, rq_Header = [''Content-Type'' \<mapsto> [''message/ohttp-req'']],
       rq_Body = ?body\<rparr>"
  let ?cs = "[take 4 ?body]" and ?c = "drop 4 ?body"
  let ?a = "gateway_answer (Inr []) (\<lambda>r w. w) (\<lambda>_ _ w. w) toy_Middleware toy_Encode Map.empty ''/'' (relayed_request ''https://g'' (concat ?cs @ ?c))"
  let ?E = "example_externals\<lparr>http_do := (\<lambda>_ _ x. (DoOk ?a, x))\<rparr>"
  obtain runner w1 where s: "setup_relay ?E ?cfg example_world = (Inr runner, w1)"
    using setup_relay_up [of ?E ?cfg example_world] by (auto simp: example_externals_def)
  define C where "C b = example_externals\<lparr>http_do := (\<lambda>_ _ x. (DoOk (ohttp_response [''Content-Type'' \<mapsto> [''message/ohttp-res'']] b), x))\<rparr>" for b
  have lc: "uni_lower ?E = id" by (simp add: example_externals_def)
  have h: "request_host id ?v = ''example.test''" and a: "accepted_headers id ?v" by code_simp+
  have body: "concat ?cs @ ?c = ?body" by simp
  have len: "int (length ?body) \<le> 100" by (simp add: client_request_def)
  have cl: "cleanPath ''/'' = ''/''" by code_simp
  have enc: "toy_Encapsulate CHR ''k'' client_request = Inr (?enc, toy_Decapsulate CHR ''k'')" by (simp add: toy_Encapsulate_def)
  have inner: "inner_request client_request toy_inner" by (simp add: inner_request_def gateway_view_def)
  have r: "client_receives (C b) req b" for req b
    by (auto simp: client_receives_def C_def intro!: exI [of _ "[''Content-Type'' \<mapsto> [''message/ohttp-res'']]"])
  have "\<exists>p w' b. Process ?E example_send (runner_handler runner) (request_events ?v ?cs ?c) w1 = (Some None, p, w')
     \<and> pr_sent p = [relayed_response b]
     \<and> (\<forall>(C :: unit externals) wc. client_receives C (outer_request ?enc) b \<longrightarrow>
          client_passes C (toy_Encapsulate CHR ''k'') toy_Decode wc)"
  proof (rule end_to_end_test_passes [OF s, where url = "''https://g''" and Middleware = toy_Middleware and Encode = toy_Encode
        and Decode = toy_Decode and added = Map.empty and path = "''/''" and inner = toy_inner and accepts = "\<lambda>m. True"])
    show "ohttp_exchange (\<lambda>m. True) toy_Middleware (echoHandler toy_Encode) (rq_Body ?enc) toy_inner (toy_Decapsulate CHR ''k'')"
      using toy_exchange by simp
    show "int (length (concat ?cs @ ?c)) \<le> sint (MaxRequestBodySize ?cfg)" unfolding body using len by simp
  qed (simp_all only: lc h a enc cl inner toy_json,
       simp_all add: example_config_def example_externals_def example_send_def)
  then obtain p w' b where P: "Process ?E example_send (runner_handler runner) (request_events ?v ?cs ?c) w1 = (Some None, p, w')"
    "pr_sent p = [relayed_response b]"
    "\<And>(C :: unit externals) wc. client_receives C (outer_request ?enc) b \<Longrightarrow> client_passes C (toy_Encapsulate CHR ''k'') toy_Decode wc"
    by blast
  with s P(3) [OF r] r show ?thesis
    by (intro exI [of _ ?E] exI [of _ "C b"] exI [of _ runner] exI [of _ w1] exI [of _ ?enc] exI [of _ p] exI [of _ w'] exI [of _ b]) simp
qed

end
